(* ===== verification/Go_Prelude.thy ===== *)
theory Go_Prelude
  imports Main
    "HOL-Library.AList"
    "HOL-Library.Sublist"
    "HOL-Library.Char_ord"
    "HOL-Library.List_Lexorder"
    "HOL-Library.Product_Lexorder"
    "HOL-Library.Multiset"
begin

text \<open>
  Shared vocabulary of the development: what the Go sources use of the language and of its
  standard library, and the generic lemmas the components share.

  \<^item> Go strings are byte strings: \<open>string\<close>, ordered byte-wise and lexicographically
    (\<open>Char_ord\<close> and \<open>List_Lexorder\<close>), which is Go's \<open><\<close> on strings.
  \<^item> A Go map that the code iterates over is an association list with distinct keys
    (\<open>AList.update\<close>, \<open>map_of\<close>); a Go map that is only looked up is a partial function.
    A nil map and an empty map read alike, and every write in the sources is guarded by a
    nil check, so both are the empty map.
  \<^item> An \<open>error\<close> is a value of \<open>go_error\<close>; a pair of a value and an error is a sum.
  \<^item> \<open>sort.Slice\<close> is \<open>sort_slice\<close>, an insertion sort over the source's own \<open>less\<close>
    closure. Where the keys are distinct the result does not depend on the algorithm
    (\<open>sort_slice_unique\<close>); no property below relies on the order of ties.
\<close>

section \<open>Collections of rewrite rules\<close>

named_theorems mco_eval \<open>definitions unfolded when a concrete input is evaluated\<close>
named_theorems mco_frame \<open>what an operation leaves unchanged\<close>

section \<open>Errors\<close>

datatype api_reason = NotFound | Conflict | AlreadyExists | TooManyRequests | OtherReason

datatype go_error =
    Err string
  | ApiErr api_reason string
  | HashCollision string
  | PDBBlocked string go_error
  | ContextErr string
  | NotExist string
  | Wrap string go_error

type_synonym 'a result = "go_error + 'a"

text \<open>\<open>err.Error()\<close>: a wrapped error prints its prefix, a colon and the wrapped error.\<close>

fun error_text :: "go_error \<Rightarrow> string" where
  "error_text (Err m) = m"
| "error_text (ApiErr r m) = m"
| "error_text (HashCollision m) = ''hash collision detected: '' @ m"
| "error_text (PDBBlocked pod e) = ''PDB blocked eviction of pod '' @ pod @ '': '' @ error_text e"
| "error_text (ContextErr m) = m"
| "error_text (NotExist m) = m"
| "error_text (Wrap pre e) = pre @ '': '' @ error_text e"

text \<open>\<open>apierrors.IsNotFound\<close> and its kin look through wrapped errors.\<close>

fun error_reason :: "go_error \<Rightarrow> api_reason option" where
  "error_reason (ApiErr r m) = Some r"
| "error_reason (Wrap pre e) = error_reason e"
| "error_reason e = None"

definition IsNotFound :: "go_error \<Rightarrow> bool" where
  "IsNotFound e \<longleftrightarrow> error_reason e = Some NotFound"

definition IsConflict :: "go_error \<Rightarrow> bool" where
  "IsConflict e \<longleftrightarrow> error_reason e = Some Conflict"

definition IsAlreadyExists :: "go_error \<Rightarrow> bool" where
  "IsAlreadyExists e \<longleftrightarrow> error_reason e = Some AlreadyExists"

definition IsTooManyRequests :: "go_error \<Rightarrow> bool" where
  "IsTooManyRequests e \<longleftrightarrow> error_reason e = Some TooManyRequests"

text \<open>\<open>errors.Is(err, ErrHashCollision)\<close>.\<close>

fun IsHashCollision :: "go_error \<Rightarrow> bool" where
  "IsHashCollision (HashCollision m) = True"
| "IsHashCollision (Wrap pre e) = IsHashCollision e"
| "IsHashCollision e = False"

text \<open>\<open>errors.Is(err, os.ErrNotExist)\<close> and \<open>errors.Is(err, context.Canceled)\<close> (or its deadline).\<close>

fun IsNotExist :: "go_error \<Rightarrow> bool" where
  "IsNotExist (NotExist m) = True"
| "IsNotExist (Wrap pre e) = IsNotExist e"
| "IsNotExist e = False"

fun IsContextErr :: "go_error \<Rightarrow> bool" where
  "IsContextErr (ContextErr m) = True"
| "IsContextErr (Wrap pre e) = IsContextErr e"
| "IsContextErr e = False"

lemmas error_defs [mco_eval] =
  IsNotFound_def IsConflict_def IsAlreadyExists_def IsTooManyRequests_def

section \<open>Sorting\<close>

primrec insert_slice :: "('a \<Rightarrow> 'a \<Rightarrow> bool) \<Rightarrow> 'a \<Rightarrow> 'a list \<Rightarrow> 'a list" where
  "insert_slice lt x [] = [x]"
| "insert_slice lt x (y # ys) =
     (if lt y x then y # insert_slice lt x ys else x # y # ys)"

definition sort_slice :: "('a \<Rightarrow> 'a \<Rightarrow> bool) \<Rightarrow> 'a list \<Rightarrow> 'a list" where
  "sort_slice lt xs = foldr (insert_slice lt) xs []"

lemma sort_slice_simps [simp, mco_eval]:
  "sort_slice lt [] = []"
  "sort_slice lt (x # xs) = insert_slice lt x (sort_slice lt xs)"
  by (simp_all add: sort_slice_def)

lemma mset_insert_slice [simp]: "mset (insert_slice lt x xs) = add_mset x (mset xs)"
  by (induction xs) auto

lemma mset_sort_slice [simp]: "mset (sort_slice lt xs) = mset xs"
  by (induction xs) auto

lemma set_sort_slice [simp]: "set (sort_slice lt xs) = set xs"
  using mset_sort_slice [of lt xs] by (metis set_mset_mset)

lemma length_sort_slice [simp]: "length (sort_slice lt xs) = length xs"
  using mset_sort_slice [of lt xs] by (metis size_mset)

lemma distinct_sort_slice [simp]: "distinct (sort_slice lt xs) = distinct xs"
  using mset_sort_slice [of lt xs] by (metis mset_eq_imp_distinct_iff)

lemma distinct_map_sort_slice [simp]:
  "distinct (map f (sort_slice lt xs)) = distinct (map f xs)"
proof -
  have "mset (map f (sort_slice lt xs)) = mset (map f xs)" by simp
  then show ?thesis by (rule mset_eq_imp_distinct_iff)
qed

text \<open>A \<open>less\<close> closure that compares a key sorts by that key.\<close>

lemma insert_slice_key:
  fixes key :: "'a \<Rightarrow> 'k::linorder"
  assumes "\<And>a b. lt a b \<longleftrightarrow> key a < key b"
  shows "insert_slice lt x xs = insort_key key x xs"
  by (induction xs) (auto simp: assms not_less)

lemma sort_slice_key:
  fixes key :: "'a \<Rightarrow> 'k::linorder"
  assumes "\<And>a b. lt a b \<longleftrightarrow> key a < key b"
  shows "sort_slice lt xs = sort_key key xs"
  by (induction xs) (simp_all add: insert_slice_key [OF assms])

lemma sorted_sort_slice:
  fixes key :: "'a \<Rightarrow> 'k::linorder"
  assumes "\<And>a b. lt a b \<longleftrightarrow> key a < key b"
  shows "sorted (map key (sort_slice lt xs))"
  by (simp add: sort_slice_key [OF assms])

text \<open>
  With distinct keys every sorting algorithm gives the same slice: whatever permutation
  \<open>sort.Slice\<close> returns, if it is ordered it is \<open>sort_slice lt xs\<close>.
\<close>

lemma sorted_key_unique:
  fixes key :: "'a \<Rightarrow> 'k::linorder"
  assumes "mset xs = mset ys" and "distinct (map key xs)"
    and "sorted (map key xs)" and "sorted (map key ys)"
  shows "xs = ys"
proof -
  have dys: "distinct (map key ys)"
    using assms(1,2) by (metis mset_eq_imp_distinct_iff mset_map)
  have "mset (map key xs) = mset (map key ys)"
    using assms(1) by simp
  then have "map key xs = map key ys"
    using assms(3,4) by (metis properties_for_sort)
  moreover have "inj_on key (set xs \<union> set ys)"
    using assms(1,2) by (metis distinct_map set_mset_mset sup.idem)
  ultimately show ?thesis
    by (rule map_inj_on)
qed

lemma sort_slice_unique:
  fixes key :: "'a \<Rightarrow> 'k::linorder"
  assumes lt: "\<And>a b. lt a b \<longleftrightarrow> key a < key b"
    and "mset xs = mset ys" and "distinct (map key xs)" and "sorted (map key ys)"
  shows "ys = sort_slice lt xs"
proof (rule sorted_key_unique [where key = key])
  show "mset ys = mset (sort_slice lt xs)" using assms(2) by simp
  show "distinct (map key ys)"
    using assms(2,3) by (metis mset_eq_imp_distinct_iff mset_map)
  show "sorted (map key (sort_slice lt xs))" by (rule sorted_sort_slice [OF lt])
qed (rule assms(4))

lemma sort_slice_perm:
  fixes key :: "'a \<Rightarrow> 'k::linorder"
  assumes lt: "\<And>a b. lt a b \<longleftrightarrow> key a < key b"
    and "mset xs = mset ys" and "distinct (map key xs)"
  shows "sort_slice lt xs = sort_slice lt ys"
  by (rule sort_slice_unique [OF lt, where xs = ys])
    (use assms in \<open>auto simp: sorted_sort_slice [OF lt] dest: mset_eq_imp_distinct_iff\<close>,
     metis mset_eq_imp_distinct_iff mset_map)

text \<open>\<open>sort.Strings\<close>.\<close>

definition sort_strings :: "string list \<Rightarrow> string list" where
  "sort_strings = sort_slice (\<lambda>a b. a < b)"

lemma sort_strings_sort: "sort_strings xs = sort xs"
  unfolding sort_strings_def by (rule sort_slice_key) simp

lemma sort_strings_props [simp]:
  "set (sort_strings xs) = set xs"
  "length (sort_strings xs) = length xs"
  "distinct (sort_strings xs) = distinct xs"
  "sorted (sort_strings xs)"
  by (simp_all add: sort_strings_def) (simp add: sort_strings_sort flip: sort_strings_def)

end
