(* ===== verification/Go_Time.thy ===== *)
theory Go_Time
  imports Go_Strings "HOL-Library.Monad_Syntax"
begin

text \<open>
  The parts of package \<open>time\<close> the sources call. An instant is the number of nanoseconds
  since 1970-01-01T00:00:00Z, a \<open>Duration\<close> a signed 64-bit number of nanoseconds with
  Go's wrap-around on multiplication and saturation in \<open>Time.Sub\<close>. RFC 3339 text is
  printed in UTC and parsed with the leniencies of Go's parser (a fraction after a dot or a
  comma, a one-digit hour, a numeric zone).
\<close>

type_synonym time = int
type_synonym duration = int

section \<open>Durations\<close>

definition wrap64 :: "int \<Rightarrow> int" where
  "wrap64 x = (x + 2 ^ 63) mod 2 ^ 64 - 2 ^ 63"

definition sat64 :: "int \<Rightarrow> int" where
  "sat64 x = max (- (2 ^ 63)) (min (2 ^ 63 - 1) x)"

text \<open>\<open>time.Duration(n) * time.Second\<close>.\<close>

definition Seconds :: "int \<Rightarrow> duration" where
  "Seconds n = wrap64 (n * 1000000000)"

text \<open>\<open>t.Sub(u)\<close>, and \<open>time.Since(u)\<close> with \<open>t\<close> the current time.\<close>

definition Sub :: "time \<Rightarrow> time \<Rightarrow> duration" where
  "Sub t u = sat64 (t - u)"

text \<open>The zero \<open>Time\<close>: 0001-01-01T00:00:00Z.\<close>

definition zero_time :: time where
  "zero_time = - 62135596800 * 1000000000"

lemmas time_defs [mco_eval] = wrap64_def sat64_def Seconds_def Sub_def zero_time_def

lemma wrap64_id: "in_int64 x \<Longrightarrow> wrap64 x = x"
  by (simp add: wrap64_def in_int64_def)

text \<open>Up to 292 years of seconds the multiplication does not wrap.\<close>

lemma Seconds_exact: "0 \<le> n \<Longrightarrow> n \<le> 9223372036 \<Longrightarrow> Seconds n = n * 1000000000"
  unfolding Seconds_def by (rule wrap64_id) (simp add: in_int64_def)

lemma Sub_exact: "in_int64 (t - u) \<Longrightarrow> Sub t u = t - u"
  by (simp add: Sub_def sat64_def in_int64_def)

section \<open>Civil dates\<close>

definition is_leap :: "int \<Rightarrow> bool" where
  "is_leap y \<longleftrightarrow> y mod 4 = 0 \<and> (y mod 100 \<noteq> 0 \<or> y mod 400 = 0)"

text \<open>Days from 0001-01-01 to January 1 of the year \<open>y + 1\<close>.\<close>

definition year_start :: "int \<Rightarrow> int" where
  "year_start y = 365 * y + y div 4 - y div 100 + y div 400"

text \<open>Days from January 1 to the first day of a month, and the month of a day of the year.\<close>

definition month_start :: "bool \<Rightarrow> int \<Rightarrow> int" where
  "month_start leap m =
     [0, 31, 59, 90, 120, 151, 181, 212, 243, 273, 304, 334] ! nat (m - 1)
     + (if leap \<and> 3 \<le> m then 1 else 0)"

definition month_of :: "bool \<Rightarrow> int \<Rightarrow> int" where
  "month_of leap yday =
     (let l = (if leap then 1 else 0)
      in if yday < 31 then 1 else if yday < 59 + l then 2 else if yday < 90 + l then 3
         else if yday < 120 + l then 4 else if yday < 151 + l then 5
         else if yday < 181 + l then 6 else if yday < 212 + l then 7
         else if yday < 243 + l then 8 else if yday < 273 + l then 9
         else if yday < 304 + l then 10 else if yday < 334 + l then 11 else 12)"

definition days_in :: "int \<Rightarrow> int \<Rightarrow> int" where
  "days_in y m =
     (if m = 2 then (if is_leap y then 29 else 28)
      else if m = 4 \<or> m = 6 \<or> m = 9 \<or> m = 11 then 30 else 31)"

text \<open>The civil date of a day count from 0001-01-01, by 400-, 100-, 4- and 1-year cycles.\<close>

definition civil_of_days :: "int \<Rightarrow> int \<times> int \<times> int" where
  "civil_of_days z =
     (let n400 = z div 146097; r = z mod 146097;
          n100 = min 3 (r div 36524); r1 = r - 36524 * n100;
          n4 = r1 div 1461; r2 = r1 mod 1461;
          n1 = min 3 (r2 div 365); yday = r2 - 365 * n1;
          y = 400 * n400 + 100 * n100 + 4 * n4 + n1;
          m = month_of (is_leap (y + 1)) yday
      in (y + 1, m, yday - month_start (is_leap (y + 1)) m + 1))"

definition days_of_civil :: "int \<times> int \<times> int \<Rightarrow> int" where
  "days_of_civil ymd =
     (case ymd of (y, m, d) \<Rightarrow>
        year_start (y - 1) + month_start (is_leap y) m + d - 1)"

lemmas civil_defs [mco_eval] =
  is_leap_def year_start_def month_start_def month_of_def days_in_def civil_of_days_def days_of_civil_def

lemma year_start_cycles:
  assumes "0 \<le> n100" "n100 \<le> 3" "0 \<le> n4" "n4 \<le> 24" "0 \<le> n1" "n1 \<le> (3::int)"
  shows "year_start (400 * n400 + 100 * n100 + 4 * n4 + n1)
    = 146097 * n400 + 36524 * n100 + 1461 * n4 + 365 * n1"
proof -
  let ?y = "400 * n400 + 100 * n100 + 4 * n4 + n1"
  have "?y div 400 = n400" "?y div 100 = 4 * n400 + n100" "?y div 4 = 100 * n400 + 25 * n100 + n4"
    using assms by linarith+
  then show ?thesis by (simp add: year_start_def)
qed

lemma mod_top:
  fixes k n q :: int
  assumes "0 < k" "k \<le> n"
  shows "(k + n * q) mod n = 0 \<longleftrightarrow> k = n"
  using assms by (cases "k = n") auto

lemma is_leap_cycles:
  assumes "0 \<le> n100" "n100 \<le> 3" "0 \<le> n4" "n4 \<le> 24" "0 \<le> n1" "n1 \<le> (3::int)"
  shows "is_leap (400 * n400 + 100 * n100 + 4 * n4 + n1 + 1)
    \<longleftrightarrow> n1 = 3 \<and> (n4 \<noteq> 24 \<or> n100 = 3)"
proof -
  let ?y = "400 * n400 + 100 * n100 + 4 * n4 + n1 + 1"
  have "?y mod 4 = 0 \<longleftrightarrow> n1 = 3"
    using assms mod_top [of "n1 + 1" 4 "100 * n400 + 25 * n100 + n4"] by (simp add: algebra_simps)
  moreover have "?y mod 100 = 0 \<longleftrightarrow> n1 = 3 \<and> n4 = 24"
    using assms mod_top [of "4 * n4 + n1 + 1" 100 "4 * n400 + n100"] by (simp add: algebra_simps) linarith
  moreover have "?y mod 400 = 0 \<longleftrightarrow> n1 = 3 \<and> n4 = 24 \<and> n100 = 3"
    using assms mod_top [of "100 * n100 + 4 * n4 + n1 + 1" 400 "n400"] by (simp add: algebra_simps) linarith
  ultimately show ?thesis by (auto simp: is_leap_def)
qed

lemma month_of_range: "1 \<le> month_of leap yday" "month_of leap yday \<le> 12"
  by (simp_all add: month_of_def Let_def)

lemma month_cases:
  fixes yday l :: int
  obtains "yday < 31" | "31 \<le> yday" "yday < 59 + l" | "59 + l \<le> yday" "yday < 90 + l"
    | "90 + l \<le> yday" "yday < 120 + l" | "120 + l \<le> yday" "yday < 151 + l"
    | "151 + l \<le> yday" "yday < 181 + l" | "181 + l \<le> yday" "yday < 212 + l"
    | "212 + l \<le> yday" "yday < 243 + l" | "243 + l \<le> yday" "yday < 273 + l"
    | "273 + l \<le> yday" "yday < 304 + l" | "304 + l \<le> yday" "yday < 334 + l"
    | "334 + l \<le> yday"
  by (meson not_le)

lemma month_day_range:
  assumes "0 \<le> yday" "yday < (if leap then 366 else 365)"
  shows "month_start leap (month_of leap yday) \<le> yday \<and>
    yday - month_start leap (month_of leap yday) <
      (let m = month_of leap yday in
       if m = 2 then (if leap then 29 else 28)
       else if m = 4 \<or> m = 6 \<or> m = 9 \<or> m = 11 then 30 else 31)"
proof (cases leap)
  case True
  show ?thesis
    by (rule month_cases [where yday = yday and l = 1])
      (use assms True in \<open>simp_all add: month_of_def month_start_def Let_def\<close>)
next
  case False
  show ?thesis
    by (rule month_cases [where yday = yday and l = 0])
      (use assms False in \<open>simp_all add: month_of_def month_start_def Let_def\<close>)
qed

lemma civil_of_days_correct:
  assumes "civil_of_days z = (y, m, d)"
  shows "days_of_civil (y, m, d) = z" "1 \<le> m" "m \<le> 12" "1 \<le> d" "d \<le> days_in y m"
proof -
  define n400 where "n400 = z div 146097"
  define r where "r = z mod 146097"
  define n100 where "n100 = min 3 (r div 36524)"
  define r1 where "r1 = r - 36524 * n100"
  define n4 where "n4 = r1 div 1461"
  define r2 where "r2 = r1 mod 1461"
  define n1 where "n1 = min 3 (r2 div 365)"
  define yday where "yday = r2 - 365 * n1"
  define y0 where "y0 = 400 * n400 + 100 * n100 + 4 * n4 + n1"
  have z: "z = 146097 * n400 + r" "0 \<le> r" "r < 146097" by (simp_all add: n400_def r_def)
  have b100: "0 \<le> n100" "n100 \<le> 3" "0 \<le> r1" "r1 \<le> 36524" "n100 < 3 \<Longrightarrow> r1 < 36524"
    using z(2,3) by (auto simp: n100_def r1_def min_def)
  have b4: "r1 = 1461 * n4 + r2" "0 \<le> r2" "r2 < 1461" by (simp_all add: n4_def r2_def)
  have b4': "0 \<le> n4" "n4 \<le> 24" using b4 b100(3,4) by linarith+
  have b1: "0 \<le> n1" "n1 \<le> 3" "0 \<le> yday" "yday \<le> 365" "n1 < 3 \<Longrightarrow> yday < 365"
    using b4(2,3) by (auto simp: n1_def yday_def min_def)
  have leap: "is_leap (y0 + 1) \<longleftrightarrow> n1 = 3 \<and> (n4 \<noteq> 24 \<or> n100 = 3)"
    unfolding y0_def by (rule is_leap_cycles) (use b100 b4' b1 in auto)
  have "yday < 365" if "n4 = 24" "n100 < 3"
    using that b4 b100 b1 by (simp add: yday_def) linarith
  with leap b1 b100 b4' have yd: "yday < (if is_leap (y0 + 1) then 366 else 365)" by auto
  have "(y0 + 1, month_of (is_leap (y0 + 1)) yday,
      yday - month_start (is_leap (y0 + 1)) (month_of (is_leap (y0 + 1)) yday) + 1) = (y, m, d)"
    using assms
    unfolding civil_of_days_def Let_def y0_def yday_def n1_def r2_def n4_def r1_def n100_def
      r_def n400_def .
  then have res: "y = y0 + 1" "m = month_of (is_leap (y0 + 1)) yday"
    "d = yday - month_start (is_leap (y0 + 1)) m + 1"
    by auto
  show "days_of_civil (y, m, d) = z"
    using year_start_cycles [OF b100(1,2) b4' b1(1,2), of n400] z(1) b4(1)
    by (simp add: days_of_civil_def res y0_def yday_def r1_def)
  show "1 \<le> m" "m \<le> 12" using month_of_range by (simp_all add: res)
  show "1 \<le> d" "d \<le> days_in y m"
    using month_day_range [OF b1(3) yd] by (simp_all add: res days_in_def Let_def split: if_splits)
qed

text \<open>Days before the year 9601 have a year of at most four digits.\<close>

lemma civil_of_days_year:
  assumes "0 \<le> z" "z < 3506328" "civil_of_days z = (y, m, d)"
  shows "1 \<le> y" "y \<le> 9999"
proof -
  define q where "q = z div 146097"
  define r where "r = z mod 146097"
  have z: "z = 146097 * q + r" "0 \<le> r" "r < 146097" by (simp_all add: q_def r_def)
  define n100 where "n100 = min 3 (r div 36524)"
  define r1 where "r1 = r - 36524 * n100"
  define n4 where "n4 = r1 div 1461"
  define n1 where "n1 = min 3 (r1 mod 1461 div 365)"
  have y: "y = 400 * q + 100 * n100 + 4 * n4 + n1 + 1"
    using assms(3)
    unfolding civil_of_days_def Let_def q_def r_def n100_def r1_def n4_def n1_def by (simp only: prod.inject)
  have b: "0 \<le> n100" "n100 \<le> 3" "0 \<le> r1" "r1 \<le> 36524" "0 \<le> n1" "n1 \<le> 3"
    using z(2,3) by (auto simp: n100_def r1_def n1_def min_def)
  have b4: "0 \<le> n4" "n4 \<le> 24" using b(3,4) unfolding n4_def by linarith+
  have q: "0 \<le> q" "q \<le> 23" using assms(1,2) z by linarith+
  show "1 \<le> y" "y \<le> 9999" using y b b4 q by linarith+
qed

section \<open>RFC 3339\<close>

definition pad2 :: "int \<Rightarrow> string" where
  "pad2 n = [digit (nat (n div 10 mod 10)), digit (nat (n mod 10))]"

definition pad4 :: "int \<Rightarrow> string" where
  "pad4 n = pad2 (n div 100) @ pad2 (n mod 100)"

text \<open>\<open>t.UTC().Format(time.RFC3339)\<close>: whole seconds, the fraction is dropped.\<close>

definition Format_RFC3339 :: "time \<Rightarrow> string" where
  "Format_RFC3339 t =
     (let s = t div 1000000000; sod = s mod 86400;
          (y, m, d) = civil_of_days (s div 86400 + 719162)
      in pad4 y @ ''-'' @ pad2 m @ ''-'' @ pad2 d @ ''T'' @ pad2 (sod div 3600) @ '':''
         @ pad2 (sod div 60 mod 60) @ '':'' @ pad2 (sod mod 60) @ ''Z'')"

text \<open>The steps of \<open>time.Parse(time.RFC3339, s)\<close>: each takes its token off the input.\<close>

fun take_digits :: "nat \<Rightarrow> string \<Rightarrow> (int \<times> string) option" where
  "take_digits k s =
     (if length s < k \<or> \<not> list_all is_digit (take k s) then None
      else Some (int (digits_val (take k s)), drop k s))"

fun take_char :: "char \<Rightarrow> string \<Rightarrow> string option" where
  "take_char c [] = None"
| "take_char c (x # s) = (if x = c then Some s else None)"

definition take_hour :: "string \<Rightarrow> (int \<times> string) option" where
  "take_hour s =
     (case take_digits 2 s of Some r \<Rightarrow> Some r | None \<Rightarrow> take_digits 1 s)"

definition take_fraction :: "string \<Rightarrow> int \<times> string" where
  "take_fraction s =
     (case s of
        c # d # s' \<Rightarrow>
          if (c = CHR ''.'' \<or> c = CHR '','') \<and> is_digit d
          then let ds = takeWhile is_digit (d # s'); ns = take 9 ds
               in (int (digits_val ns) * 10 ^ (9 - length ns), dropWhile is_digit (d # s'))
          else (0, s)
      | _ \<Rightarrow> (0, s))"

definition take_zone :: "string \<Rightarrow> (int \<times> string) option" where
  "take_zone s =
     (case s of
        [] \<Rightarrow> None
      | c # s' \<Rightarrow>
          if c = CHR ''Z'' then Some (0, s')
          else if c = CHR ''+'' \<or> c = CHR ''-'' then
            do { (h, s1) \<leftarrow> take_digits 2 s'; s2 \<leftarrow> take_char CHR '':'' s1;
                 (mi, s3) \<leftarrow> take_digits 2 s2;
                 if h > 24 \<or> mi > 60 then None
                 else Some ((if c = CHR ''-'' then - 1 else 1) * (h * 3600 + mi * 60), s3) }
          else None)"

definition Parse_RFC3339 :: "string \<Rightarrow> time option" where
  "Parse_RFC3339 s =
     do { (y, s) \<leftarrow> take_digits 4 s; s \<leftarrow> take_char CHR ''-'' s;
          (mo, s) \<leftarrow> take_digits 2 s; s \<leftarrow> take_char CHR ''-'' s;
          (d, s) \<leftarrow> take_digits 2 s; s \<leftarrow> take_char CHR ''T'' s;
          (h, s) \<leftarrow> take_hour s; s \<leftarrow> take_char CHR '':'' s;
          (mi, s) \<leftarrow> take_digits 2 s; s \<leftarrow> take_char CHR '':'' s;
          (sec, s) \<leftarrow> take_digits 2 s;
          let (ns, s) = take_fraction s;
          (off, s) \<leftarrow> take_zone s;
          if s \<noteq> [] \<or> mo < 1 \<or> mo > 12 \<or> d < 1 \<or> d > days_in y mo \<or> h > 23 \<or> mi > 59 \<or> sec > 59
          then None
          else Some (((days_of_civil (y, mo, d) - 719162) * 86400 + h * 3600 + mi * 60 + sec - off)
                 * 1000000000 + ns) }"

lemmas rfc3339_defs [mco_eval] =
  pad2_def pad4_def Format_RFC3339_def take_hour_def take_fraction_def take_zone_def
  Parse_RFC3339_def

lemma pad2_length [simp]: "length (pad2 n) = 2"
  by (simp add: pad2_def)

lemma pad4_length [simp]: "length (pad4 n) = 4"
  by (simp add: pad4_def)

lemma pad2_digits [simp]: "list_all is_digit (pad2 n)"
  by (simp add: pad2_def nat_less_iff)

lemma pad2_val: "0 \<le> n \<Longrightarrow> n < 100 \<Longrightarrow> int (digits_val (pad2 n)) = n"
  by (simp add: pad2_def digits_val_def nat_less_iff) linarith

lemma digits_val_pad2_append:
  "digits_val (s @ pad2 n) = digits_val s * 100 + digits_val (pad2 n)"
  by (simp add: pad2_def digits_val_def)

lemma pad4_val: "0 \<le> n \<Longrightarrow> n < 10000 \<Longrightarrow> int (digits_val (pad4 n)) = n"
  using pad2_val [of "n div 100"] pad2_val [of "n mod 100"]
  by (simp add: pad4_def digits_val_pad2_append)

lemma take_digits_pad2 [simp]:
  "0 \<le> n \<Longrightarrow> n < 100 \<Longrightarrow> take_digits 2 (pad2 n @ s) = Some (n, s)"
  by (simp add: pad2_val)

lemma take_digits_pad4 [simp]:
  "0 \<le> n \<Longrightarrow> n < 10000 \<Longrightarrow> take_digits 4 (pad4 n @ s) = Some (n, s)"
  by (simp add: pad4_val) (simp add: pad4_def)

declare take_digits.simps [simp del]

text \<open>Parsing what was printed gives the instant cut to whole seconds.\<close>

lemma Parse_Format_RFC3339:
  assumes "zero_time \<le> t" "t < 240811142400 * 1000000000"
  shows "Parse_RFC3339 (Format_RFC3339 t) = Some (t div 1000000000 * 1000000000)"
proof -
  define s where "s = t div 1000000000"
  define sod where "sod = s mod 86400"
  obtain y m d where c: "civil_of_days (s div 86400 + 719162) = (y, m, d)"
    by (cases "civil_of_days (s div 86400 + 719162)")
  have s: "- 62135596800 \<le> s" "s < 240811142400"
    using assms unfolding s_def zero_time_def by linarith+
  then have z: "0 \<le> s div 86400 + 719162" "s div 86400 + 719162 < 3506328" by linarith+
  note y = civil_of_days_year [OF z c]
  note cd = civil_of_days_correct [OF c]
  have d31: "days_in y m \<le> 31" by (simp add: days_in_def)
  have sod: "0 \<le> sod" "sod < 86400" by (simp_all add: sod_def)
  define h where "h = sod div 3600"
  define mi where "mi = sod div 60 mod 60"
  define sec where "sec = sod mod 60"
  have r: "0 \<le> h" "h \<le> 23" "0 \<le> mi" "mi \<le> 59" "0 \<le> sec" "sec \<le> 59"
    using sod unfolding h_def mi_def sec_def by linarith+
  have sum: "h * 3600 + mi * 60 + sec = sod"
  proof -
    have e: "sod div 3600 = sod div 60 div 60" by (simp add: zdiv_zmult2_eq [of 60 sod 60, simplified])
    have a: "sod div 60 = 60 * (sod div 60 div 60) + sod div 60 mod 60" by simp
    have b: "sod = 60 * (sod div 60) + sod mod 60" by simp
    show ?thesis unfolding h_def mi_def sec_def e using a b by linarith
  qed
  have "(days_of_civil (y, m, d) - 719162) * 86400 + sod = s" by (simp add: cd(1) sod_def)
  with sum have inst: "(days_of_civil (y, m, d) - 719162) * 86400 + h * 3600 + mi * 60 + sec = s"
    by linarith
  have F: "Format_RFC3339 t = pad4 y @ CHR ''-'' # pad2 m @ CHR ''-'' # pad2 d @ CHR ''T'' # pad2 h
    @ CHR '':'' # pad2 mi @ CHR '':'' # pad2 sec @ ''Z''"
    using c by (simp add: Format_RFC3339_def Let_def s_def sod_def h_def mi_def sec_def)
  have "Parse_RFC3339 (Format_RFC3339 t) =
    Some (((days_of_civil (y, m, d) - 719162) * 86400 + h * 3600 + mi * 60 + sec) * 1000000000)"
    unfolding F Parse_RFC3339_def
    using y cd(2-5) d31 r
    by (simp add: take_hour_def take_fraction_def take_zone_def)
  with inst show ?thesis by (simp add: s_def)
qed

text \<open>A printed time is never the empty string.\<close>

lemma Format_RFC3339_nonempty [simp]: "Format_RFC3339 t \<noteq> []"
proof -
  have "pad4 y \<noteq> []" for y using pad4_length [of y] by force
  then show ?thesis by (simp only: Format_RFC3339_def Let_def split: prod.split) simp
qed

end
