(* ===== verification/MCO_Types.thy ===== *)
theory MCO_Types
  imports Go_Time
begin

text \<open>
  The custom resources of \<open>api/v1alpha1\<close> and the Kubernetes objects the controller and the
  agent read: each struct is a record with the source's fields (the record's prefix keeps
  field names apart). Of the Kubernetes objects only the fields the sources use are kept; the
  inlined \<open>ObjectMeta\<close> is flattened to name, labels, annotations and creation time. Go's
  \<open>int\<close> fields hold values that the CRD schema bounds, so they are \<open>int\<close>; the
  places where a width matters (durations, parsed numbers) write the wrap-around out.
\<close>

type_synonym labels = "string \<rightharpoonup> string"
type_synonym annots = "string \<rightharpoonup> string"

section \<open>MachineConfig\<close>

record FileSpec =
  file_Path :: string
  file_Content :: string
  file_Mode :: int
  file_Owner :: string
  file_State :: string

record UnitSpec =
  unit_Name :: string
  unit_Enabled :: "bool option"
  unit_State :: string
  unit_Mask :: bool

record SystemdSpec =
  systemd_Units :: "UnitSpec list"

record RebootRequirementSpec =
  rreq_Required :: bool
  rreq_Reason :: string

record MachineConfigSpec =
  mcs_Priority :: int
  mcs_Files :: "FileSpec list"
  mcs_Systemd :: SystemdSpec
  mcs_Reboot :: RebootRequirementSpec

record MachineConfig =
  mc_Name :: string
  mc_Labels :: labels
  mc_Spec :: MachineConfigSpec

section \<open>MachineConfigPool\<close>

text \<open>\<open>intstr.IntOrString\<close>.\<close>

datatype IntOrString = IntVal int | StrVal string

record RolloutConfig =
  ro_DebounceSeconds :: int
  ro_ApplyTimeoutSeconds :: int
  ro_MaxUnavailable :: "IntOrString option"
  ro_DrainTimeoutSeconds :: int
  ro_DrainRetrySeconds :: int

record RebootPolicy =
  rp_Strategy :: string
  rp_MinIntervalSeconds :: int

record RevisionHistoryConfig =
  rh_Limit :: int

text \<open>\<open>metav1.LabelSelector\<close> and \<open>metav1.Condition\<close>.\<close>

record LabelSelectorRequirement =
  req_Key :: string
  req_Operator :: string
  req_Values :: "string list"

record LabelSelector =
  sel_MatchLabels :: "(string \<times> string) list"
  sel_MatchExpressions :: "LabelSelectorRequirement list"

record Condition =
  cond_Type :: string
  cond_Status :: string
  cond_Reason :: string
  cond_Message :: string
  cond_LastTransitionTime :: time

definition ConditionTrue :: string where "ConditionTrue = ''True''"

definition ConditionFalse :: string where "ConditionFalse = ''False''"

record MachineConfigPoolSpec =
  ps_NodeSelector :: "LabelSelector option"
  ps_MachineConfigSelector :: "LabelSelector option"
  ps_Rollout :: RolloutConfig
  ps_Reboot :: RebootPolicy
  ps_RevisionHistory :: RevisionHistoryConfig
  ps_Paused :: bool

record MachineConfigPoolStatus =
  pst_TargetRevision :: string
  pst_CurrentRevision :: string
  pst_LastSuccessfulRevision :: string
  pst_MachineCount :: nat
  pst_ReadyMachineCount :: nat
  pst_UpdatedMachineCount :: nat
  pst_UpdatingMachineCount :: nat
  pst_DegradedMachineCount :: nat
  pst_UnavailableMachineCount :: nat
  pst_PendingRebootCount :: nat
  pst_CordonedMachineCount :: nat
  pst_DrainingMachineCount :: nat
  pst_Conditions :: "Condition list"

definition ConditionReady :: string where "ConditionReady = ''Ready''"
definition ConditionUpdating :: string where "ConditionUpdating = ''Updating''"
definition ConditionDraining :: string where "ConditionDraining = ''Draining''"
definition ConditionDegraded :: string where "ConditionDegraded = ''Degraded''"
definition ConditionPoolOverlap :: string where "ConditionPoolOverlap = ''PoolOverlap''"
definition ConditionDrainStuck :: string where "ConditionDrainStuck = ''DrainStuck''"

lemmas condition_types [mco_eval] =
  ConditionTrue_def ConditionFalse_def ConditionReady_def ConditionUpdating_def
  ConditionDraining_def ConditionDegraded_def ConditionPoolOverlap_def ConditionDrainStuck_def

record MachineConfigPool =
  pool_Name :: string
  pool_Spec :: MachineConfigPoolSpec
  pool_Status :: MachineConfigPoolStatus

section \<open>RenderedMachineConfig\<close>

record RenderedConfig =
  rc_Files :: "FileSpec list"
  rc_Systemd :: SystemdSpec

record ConfigSource =
  src_Name :: string
  src_Priority :: int

record RenderedRebootSpec =
  rrs_Required :: bool
  rrs_Strategy :: string
  rrs_MinIntervalSeconds :: int

text \<open>The two maps are iterated by nothing but their length, so they are association lists.\<close>

record RebootRequirements =
  rbr_Files :: "(string \<times> bool) list"
  rbr_Units :: "(string \<times> bool) list"

record RenderedMachineConfigSpec =
  rmcs_PoolName :: string
  rmcs_Revision :: string
  rmcs_ConfigHash :: string
  rmcs_Config :: RenderedConfig
  rmcs_Sources :: "ConfigSource list"
  rmcs_RebootRequirements :: RebootRequirements
  rmcs_Reboot :: RenderedRebootSpec

record RenderedMachineConfig =
  rmc_Name :: string
  rmc_Labels :: labels
  rmc_CreationTimestamp :: time
  rmc_OwnerPool :: "string option"
  rmc_Spec :: RenderedMachineConfigSpec

section \<open>Kubernetes objects\<close>

record Node =
  node_Name :: string
  node_Labels :: labels
  node_Annotations :: annots
  node_CreationTimestamp :: time
  node_Unschedulable :: bool
  node_ResourceVersion :: nat

record OwnerReference =
  ref_Kind :: string
  ref_Controller :: "bool option"

datatype PodPhase = PodPending | PodRunning | PodSucceeded | PodFailed | PodUnknown

record Pod =
  pod_Name :: string
  pod_Namespace :: string
  pod_Labels :: labels
  pod_Annotations :: annots
  pod_DeletionTimestamp :: "time option"
  pod_Phase :: PodPhase
  pod_OwnerReferences :: "OwnerReference list"
  pod_NodeName :: string

text \<open>Reading a missing key of a Go map of strings gives the empty string.\<close>

definition map_get :: "(string \<rightharpoonup> string) \<Rightarrow> string \<Rightarrow> string" where
  "map_get m k = (case m k of None \<Rightarrow> [] | Some v \<Rightarrow> v)"

lemma map_get_simps [simp]:
  "map_get Map.empty k = []"
  "map_get (m(k \<mapsto> v)) k = v"
  "k' \<noteq> k \<Longrightarrow> map_get (m(k \<mapsto> v)) k' = map_get m k'"
  "map_get (m(k := None)) k = []"
  "k' \<noteq> k \<Longrightarrow> map_get (m(k := None)) k' = map_get m k'"
  by (simp_all add: map_get_def)

end
