(* ===== verification/Renderer_Validate.thy ===== *)
theory Renderer_Validate
  imports MCO_Types
begin

text \<open>
  \<open>internal/renderer/validator.go\<close>: the checks on file paths, unit names and contents. A
  Go error return is \<open>Some\<close> of an error, a nil return is \<open>None\<close>; the message texts
  are those of the source.
\<close>

section \<open>Definitions\<close>

definition ForbiddenPaths :: "string list" where
  "ForbiddenPaths =
     [''/bin/'', ''/sbin/'', ''/usr/bin/'', ''/usr/sbin/'', ''/usr/lib/systemd/'',
      ''/lib/systemd/'', ''/etc/kubernetes/'', ''/etc/cni/'', ''/var/lib/kubelet/'',
      ''/var/lib/etcd/'', ''/proc/'', ''/sys/'', ''/dev/'']"

definition ForbiddenUnits :: "string list" where
  "ForbiddenUnits =
     [''kubelet.service'', ''containerd.service'', ''docker.service'', ''cri-o.service'',
      ''etcd.service'']"

definition ValidUnitSuffixes :: "string list" where
  "ValidUnitSuffixes = [''.service'', ''.timer'', ''.socket'', ''.mount'', ''.target'']"

definition MaxFileContentSize :: nat where
  "MaxFileContentSize = 1024 * 1024"

fun has_any_prefix :: "string list \<Rightarrow> string \<Rightarrow> bool" where
  "has_any_prefix [] path = False"
| "has_any_prefix (forbidden # rest) path =
     (if HasPrefix path forbidden then True else has_any_prefix rest path)"

definition IsPathForbidden :: "string \<Rightarrow> bool" where
  "IsPathForbidden path = has_any_prefix ForbiddenPaths path"

fun is_any_of :: "string list \<Rightarrow> string \<Rightarrow> bool" where
  "is_any_of [] name = False"
| "is_any_of (forbidden # rest) name = (if name = forbidden then True else is_any_of rest name)"

definition IsUnitForbidden :: "string \<Rightarrow> bool" where
  "IsUnitForbidden name = is_any_of ForbiddenUnits name"

fun has_any_suffix :: "string list \<Rightarrow> string \<Rightarrow> bool" where
  "has_any_suffix [] name = False"
| "has_any_suffix (suf # rest) name =
     (if HasSuffix name suf then True else has_any_suffix rest name)"

definition HasValidUnitSuffix :: "string \<Rightarrow> bool" where
  "HasValidUnitSuffix name = has_any_suffix ValidUnitSuffixes name"

definition ValidateFilePath :: "string \<Rightarrow> go_error option" where
  "ValidateFilePath path =
     (if path = '''' then Some (Err ''path cannot be empty'')
      else if \<not> HasPrefix path ''/'' then Some (Err (''path must be absolute: '' @ path))
      else if Contains path ''..'' then Some (Err (''path cannot contain '' @ [CHR 0x27] @ ''..'' @ [CHR 0x27] @ '': '' @ path))
      else if Contains path ''//'' then Some (Err (''path cannot contain '' @ [CHR 0x27] @ ''//'' @ [CHR 0x27] @ '': '' @ path))
      else if IsPathForbidden path then Some (Err (''path is forbidden: '' @ path))
      else None)"

definition ValidateUnitName :: "string \<Rightarrow> go_error option" where
  "ValidateUnitName name =
     (if name = '''' then Some (Err ''unit name cannot be empty'')
      else if \<not> HasValidUnitSuffix name
      then Some (Err (''unit name must end with a valid suffix ('' @ Join ValidUnitSuffixes '', '' @ ''): '' @ name))
      else if IsUnitForbidden name then Some (Err (''unit is forbidden: '' @ name))
      else None)"

definition ValidateFileSpec :: "FileSpec \<Rightarrow> go_error option" where
  "ValidateFileSpec f =
     (case ValidateFilePath (file_Path f) of
        Some e \<Rightarrow> Some e
      | None \<Rightarrow>
          if (file_State f = '''' \<or> file_State f = ''present'') \<and> file_Content f = ''''
          then Some (Err (''content is required when state=present for path: '' @ file_Path f))
          else if length (file_Content f) > MaxFileContentSize
          then Some (Err (''content exceeds maximum size ('' @ Itoa (int MaxFileContentSize)
                 @ '' bytes) for path: '' @ file_Path f))
          else None)"

definition ValidateUnitSpec :: "UnitSpec \<Rightarrow> go_error option" where
  "ValidateUnitSpec u = ValidateUnitName (unit_Name u)"

text \<open>
  The loops \<open>for i, x := range xs\<close> of the validators: the error of the first failing
  element, wrapped with its index.
\<close>

fun range_validate :: "('a \<Rightarrow> go_error option) \<Rightarrow> string \<Rightarrow> int \<Rightarrow> 'a list \<Rightarrow> go_error option" where
  "range_validate check tag i [] = None"
| "range_validate check tag i (x # xs) =
     (case check x of
        Some e \<Rightarrow> Some (Wrap (tag @ ''['' @ Itoa i @ '']'') e)
      | None \<Rightarrow> range_validate check tag (i + 1) xs)"

text \<open>The pointer argument may be nil: \<open>None\<close>.\<close>

definition ValidateMachineConfig :: "MachineConfig option \<Rightarrow> go_error option" where
  "ValidateMachineConfig mc =
     (case mc of
        None \<Rightarrow> Some (Err ''MachineConfig cannot be nil'')
      | Some c \<Rightarrow>
          (case range_validate ValidateFileSpec ''files'' 0 (mcs_Files (mc_Spec c)) of
             Some e \<Rightarrow> Some e
           | None \<Rightarrow> range_validate ValidateUnitSpec ''systemd.units'' 0 (systemd_Units (mcs_Systemd (mc_Spec c)))))"

text \<open>
  The error text of the list version dereferences \<open>mc.Name\<close>, which panics when the failing
  config is nil: \<open>Inl ()\<close> is that panic.
\<close>

fun ValidateMachineConfigs :: "MachineConfig option list \<Rightarrow> unit + go_error option" where
  "ValidateMachineConfigs [] = Inr None"
| "ValidateMachineConfigs (mc # mcs) =
     (case ValidateMachineConfig mc of
        None \<Rightarrow> ValidateMachineConfigs mcs
      | Some e \<Rightarrow>
          (case mc of
             None \<Rightarrow> Inl ()
           | Some c \<Rightarrow> Inr (Some (Wrap (''MachineConfig '' @ [CHR 0x22] @ mc_Name c @ [CHR 0x22]) e))))"

lemmas validate_defs [mco_eval] =
  ForbiddenPaths_def ForbiddenUnits_def ValidUnitSuffixes_def MaxFileContentSize_def
  IsPathForbidden_def IsUnitForbidden_def HasValidUnitSuffix_def ValidateFilePath_def
  ValidateUnitName_def ValidateFileSpec_def ValidateUnitSpec_def ValidateMachineConfig_def

section \<open>What an accepted path, name or file looks like\<close>

lemma has_any_prefix_iff: "has_any_prefix ps s \<longleftrightarrow> (\<exists>p \<in> set ps. prefix p s)"
  by (induction ps) (auto simp: HasPrefix_iff)

lemma is_any_of_iff: "is_any_of xs s \<longleftrightarrow> s \<in> set xs"
  by (induction xs) auto

lemma has_any_suffix_iff: "has_any_suffix ps s \<longleftrightarrow> (\<exists>p \<in> set ps. suffix p s)"
  by (induction ps) (auto simp: HasSuffix_iff)

text \<open>A path the validator accepts, as a predicate: absolute, no \<open>..\<close>, no \<open>//\<close>, outside
  every protected directory.\<close>

definition safe_path :: "string \<Rightarrow> bool" where
  "safe_path p \<longleftrightarrow>
     prefix ''/'' p \<and> \<not> sublist ''..'' p \<and> \<not> sublist ''//'' p
     \<and> (\<forall>d \<in> set ForbiddenPaths. \<not> prefix d p)"

definition manageable_unit :: "string \<Rightarrow> bool" where
  "manageable_unit n \<longleftrightarrow>
     (\<exists>s \<in> set ValidUnitSuffixes. suffix s n) \<and> n \<notin> set ForbiddenUnits"

definition file_ok :: "FileSpec \<Rightarrow> bool" where
  "file_ok f \<longleftrightarrow>
     safe_path (file_Path f) \<and> length (file_Content f) \<le> MaxFileContentSize
     \<and> (file_State f \<in> {'''', ''present''} \<longrightarrow> file_Content f \<noteq> [])"

lemma ValidateFilePath_None: "ValidateFilePath p = None \<longleftrightarrow> safe_path p"
  by (auto simp: ValidateFilePath_def safe_path_def HasPrefix_iff Contains_iff
      IsPathForbidden_def has_any_prefix_iff)

lemma no_empty_suffix: "s \<in> set ValidUnitSuffixes \<Longrightarrow> s \<noteq> []"
  by (auto simp: ValidUnitSuffixes_def)

lemma ValidateUnitName_None: "ValidateUnitName n = None \<longleftrightarrow> manageable_unit n"
  using no_empty_suffix
  by (auto simp: ValidateUnitName_def manageable_unit_def HasValidUnitSuffix_def
      has_any_suffix_iff IsUnitForbidden_def is_any_of_iff)

lemma ValidateFileSpec_None: "ValidateFileSpec f = None \<longleftrightarrow> file_ok f"
  by (auto simp: ValidateFileSpec_def file_ok_def ValidateFilePath_None [symmetric]
      split: option.splits)

lemma ValidateUnitSpec_None: "ValidateUnitSpec u = None \<longleftrightarrow> manageable_unit (unit_Name u)"
  by (simp add: ValidateUnitSpec_def ValidateUnitName_None)

lemma range_validate_None: "range_validate check tag i xs = None \<longleftrightarrow> (\<forall>x \<in> set xs. check x = None)"
  by (induction xs arbitrary: i) (auto split: option.splits)

text \<open>The reported error is that of the first failing element, under its index.\<close>

lemma range_validate_first:
  assumes "list_all (\<lambda>x. check x = None) xs" and "check y = Some e"
  shows "range_validate check tag i (xs @ y # ys)
    = Some (Wrap (tag @ ''['' @ Itoa (i + int (length xs)) @ '']'') e)"
  using assms by (induction xs arbitrary: i) (auto simp: algebra_simps)

lemma range_validate_Some:
  assumes "range_validate check tag i xs = Some err"
  obtains ys y zs e where "xs = ys @ y # zs" "list_all (\<lambda>x. check x = None) ys" "check y = Some e"
    "err = Wrap (tag @ ''['' @ Itoa (i + int (length ys)) @ '']'') e"
proof -
  have "\<exists>x \<in> set xs. check x \<noteq> None"
    using assms by (metis option.distinct(1) range_validate_None)
  then obtain ys y zs where xs: "xs = ys @ y # zs" and y: "check y \<noteq> None"
    and ys: "\<forall>x \<in> set ys. \<not> check x \<noteq> None"
    using split_list_first_prop [of xs "\<lambda>x. check x \<noteq> None"] by metis
  from y obtain e where e: "check y = Some e" by auto
  have la: "list_all (\<lambda>x. check x = None) ys" using ys by (simp add: list_all_iff)
  show thesis
    using that [OF xs la e] assms range_validate_first [OF la e, of tag i zs] by (simp add: xs)
qed

section \<open>Claims\<close>

text \<open>
  C38: a MachineConfig passes validation exactly when every file path is absolute, free of
  \<open>..\<close> and \<open>//\<close> and outside the protected directories, every content respects
  the size limit and is given where the file is to be present, and every unit has a known
  suffix and is not one of the protected Kubernetes units.
\<close>

theorem ValidateMachineConfig_sound_complete:
  "ValidateMachineConfig (Some c) = None \<longleftrightarrow>
     list_all file_ok (mcs_Files (mc_Spec c))
     \<and> list_all (\<lambda>u. manageable_unit (unit_Name u)) (systemd_Units (mcs_Systemd (mc_Spec c)))"
proof (cases "range_validate ValidateFileSpec ''files'' 0 (mcs_Files (mc_Spec c))")
  case None
  then have "list_all file_ok (mcs_Files (mc_Spec c))"
    by (simp add: range_validate_None ValidateFileSpec_None list_all_iff)
  then show ?thesis
    unfolding ValidateMachineConfig_def option.case None
    by (simp add: range_validate_None ValidateUnitSpec_None list_all_iff)
next
  case (Some e)
  then have "\<not> list_all file_ok (mcs_Files (mc_Spec c))"
    by (metis ValidateFileSpec_None list_all_iff option.distinct(1) range_validate_None)
  with Some show ?thesis by (simp add: ValidateMachineConfig_def)
qed

end
