(* ===== verification/Renderer_Merge.thy ===== *)
theory Renderer_Merge
  imports MCO_Types
begin

text \<open>
  \<open>internal/renderer/merge.go\<close>: merging the MachineConfigs of a pool. The four maps the
  loop fills are association lists (a Go map iterates in no fixed order; the slices taken
  from them are sorted, and \<open>C4\<close> shows that the order does not show). The loop over the
  sorted configs is a left fold over its state, the inner loops over files and units are
  folds of their own.
\<close>

section \<open>Definitions\<close>

record MergedConfig =
  mg_Files :: "FileSpec list"
  mg_Units :: "UnitSpec list"
  mg_RebootRequired :: bool
  mg_Sources :: "ConfigSource list"
  mg_FileRebootRequirements :: "(string \<times> bool) list"
  mg_UnitRebootRequirements :: "(string \<times> bool) list"

text \<open>The \<open>less\<close> closure of \<open>sortByPriority\<close>: priority first, then name.\<close>

definition priority_less :: "MachineConfig \<Rightarrow> MachineConfig \<Rightarrow> bool" where
  "priority_less a b =
     (if mcs_Priority (mc_Spec a) \<noteq> mcs_Priority (mc_Spec b)
      then mcs_Priority (mc_Spec a) < mcs_Priority (mc_Spec b)
      else mc_Name a < mc_Name b)"

definition sortByPriority :: "MachineConfig list \<Rightarrow> MachineConfig list" where
  "sortByPriority configs = sort_slice priority_less configs"

definition filesToSortedSlice :: "(string \<times> FileSpec) list \<Rightarrow> FileSpec list" where
  "filesToSortedSlice files =
     (if files = [] then []
      else sort_slice (\<lambda>a b. file_Path a < file_Path b) (map snd files))"

definition unitsToSortedSlice :: "(string \<times> UnitSpec) list \<Rightarrow> UnitSpec list" where
  "unitsToSortedSlice units =
     (if units = [] then []
      else sort_slice (\<lambda>a b. unit_Name a < unit_Name b) (map snd units))"

text \<open>The variables of the loop over the sorted configs.\<close>

record merge_state =
  ms_filesByPath :: "(string \<times> FileSpec) list"
  ms_unitsByName :: "(string \<times> UnitSpec) list"
  ms_fileSourceReboot :: "(string \<times> bool) list"
  ms_unitSourceReboot :: "(string \<times> bool) list"
  ms_rebootRequired :: bool
  ms_sources :: "ConfigSource list"

definition merge_init :: merge_state where
  "merge_init =
     \<lparr>ms_filesByPath = [], ms_unitsByName = [], ms_fileSourceReboot = [],
      ms_unitSourceReboot = [], ms_rebootRequired = False, ms_sources = []\<rparr>"

definition merge_file :: "bool \<Rightarrow> merge_state \<Rightarrow> FileSpec \<Rightarrow> merge_state" where
  "merge_file req s f =
     s\<lparr>ms_filesByPath := AList.update (file_Path f) f (ms_filesByPath s),
       ms_fileSourceReboot := AList.update (file_Path f) req (ms_fileSourceReboot s)\<rparr>"

definition merge_unit :: "bool \<Rightarrow> merge_state \<Rightarrow> UnitSpec \<Rightarrow> merge_state" where
  "merge_unit req s u =
     s\<lparr>ms_unitsByName := AList.update (unit_Name u) u (ms_unitsByName s),
       ms_unitSourceReboot := AList.update (unit_Name u) req (ms_unitSourceReboot s)\<rparr>"

definition merge_config :: "merge_state \<Rightarrow> MachineConfig \<Rightarrow> merge_state" where
  "merge_config s mc =
     (let req = rreq_Required (mcs_Reboot (mc_Spec mc));
          s1 = foldl (merge_file req) s (mcs_Files (mc_Spec mc));
          s2 = foldl (merge_unit req) s1 (systemd_Units (mcs_Systemd (mc_Spec mc)));
          s3 = (if req then s2\<lparr>ms_rebootRequired := True\<rparr> else s2)
      in s3\<lparr>ms_sources := ms_sources s3
              @ [\<lparr>src_Name = mc_Name mc, src_Priority = mcs_Priority (mc_Spec mc)\<rparr>]\<rparr>)"

definition Merge :: "MachineConfig list \<Rightarrow> MergedConfig" where
  "Merge configs =
     (if configs = []
      then \<lparr>mg_Files = [], mg_Units = [], mg_RebootRequired = False, mg_Sources = [],
            mg_FileRebootRequirements = [], mg_UnitRebootRequirements = []\<rparr>
      else let s = foldl merge_config merge_init (sortByPriority configs)
           in \<lparr>mg_Files = filesToSortedSlice (ms_filesByPath s),
               mg_Units = unitsToSortedSlice (ms_unitsByName s),
               mg_RebootRequired = ms_rebootRequired s,
               mg_Sources = ms_sources s,
               mg_FileRebootRequirements = ms_fileSourceReboot s,
               mg_UnitRebootRequirements = ms_unitSourceReboot s\<rparr>)"

lemmas merge_defs [mco_eval] =
  priority_less_def sortByPriority_def filesToSortedSlice_def unitsToSortedSlice_def
  merge_init_def merge_file_def merge_unit_def merge_config_def Merge_def

section \<open>The order of the configs\<close>

definition priority_key :: "MachineConfig \<Rightarrow> int \<times> string" where
  "priority_key mc = (mcs_Priority (mc_Spec mc), mc_Name mc)"

lemma priority_less_key: "priority_less a b \<longleftrightarrow> priority_key a < priority_key b"
  by (auto simp: priority_less_def priority_key_def less_prod_def)

lemma sorted_sortByPriority: "sorted (map priority_key (sortByPriority cs))"
  unfolding sortByPriority_def by (rule sorted_sort_slice) (rule priority_less_key)

lemma set_sortByPriority [simp]: "set (sortByPriority cs) = set cs"
  by (simp add: sortByPriority_def)

lemma distinct_priority_key: "distinct (map mc_Name cs) \<Longrightarrow> distinct (map priority_key cs)"
  by (auto simp: distinct_map priority_key_def inj_on_def)

lemma sortByPriority_perm:
  "mset cs = mset ds \<Longrightarrow> distinct (map mc_Name cs) \<Longrightarrow> sortByPriority cs = sortByPriority ds"
  unfolding sortByPriority_def
  by (rule sort_slice_perm [OF priority_less_key]) (auto intro: distinct_priority_key)

section \<open>The last writer wins: the fold as a list of writes\<close>

text \<open>
  Every config writes its files in order; the map after the loop is the map of the last
  write to each key. \<open>file_writes\<close> lists the writes with the reboot flag of the writer.
\<close>

definition file_writes :: "MachineConfig list \<Rightarrow> (string \<times> FileSpec \<times> bool) list" where
  "file_writes cs =
     concat (map (\<lambda>mc. map (\<lambda>f. (file_Path f, f, rreq_Required (mcs_Reboot (mc_Spec mc))))
       (mcs_Files (mc_Spec mc))) cs)"

definition unit_writes :: "MachineConfig list \<Rightarrow> (string \<times> UnitSpec \<times> bool) list" where
  "unit_writes cs =
     concat (map (\<lambda>mc. map (\<lambda>u. (unit_Name u, u, rreq_Required (mcs_Reboot (mc_Spec mc))))
       (systemd_Units (mcs_Systemd (mc_Spec mc)))) cs)"

text \<open>Folding \<open>AList.update\<close> over a list of writes.\<close>

definition put_all :: "('k \<times> 'v) list \<Rightarrow> ('k \<times> 'v) list \<Rightarrow> ('k \<times> 'v) list" where
  "put_all m ws = foldl (\<lambda>m (k, v). AList.update k v m) m ws"

lemma put_all_simps [simp]:
  "put_all m [] = m"
  "put_all m ((k, v) # ws) = put_all (AList.update k v m) ws"
  "put_all m (ws @ vs) = put_all (put_all m ws) vs"
  by (simp_all add: put_all_def)

lemma map_of_put_all: "map_of (put_all m ws) = map_of m ++ map_of (rev ws)"
  by (induction ws arbitrary: m) (auto simp: update_conv' map_add_upd_left)

lemma distinct_put_all: "distinct (map fst m) \<Longrightarrow> distinct (map fst (put_all m ws))"
  by (induction ws arbitrary: m) (auto simp: distinct_update)

lemma merge_files_foldl:
  "foldl (merge_file req) s fs =
     s\<lparr>ms_filesByPath := put_all (ms_filesByPath s) (map (\<lambda>f. (file_Path f, f)) fs),
       ms_fileSourceReboot := put_all (ms_fileSourceReboot s) (map (\<lambda>f. (file_Path f, req)) fs)\<rparr>"
  by (induction fs arbitrary: s) (auto simp: merge_file_def)

lemma merge_units_foldl:
  "foldl (merge_unit req) s us =
     s\<lparr>ms_unitsByName := put_all (ms_unitsByName s) (map (\<lambda>u. (unit_Name u, u)) us),
       ms_unitSourceReboot := put_all (ms_unitSourceReboot s) (map (\<lambda>u. (unit_Name u, req)) us)\<rparr>"
  by (induction us arbitrary: s) (auto simp: merge_unit_def)

lemma merge_configs_foldl:
  "foldl merge_config s cs =
     \<lparr>ms_filesByPath = put_all (ms_filesByPath s) (map (\<lambda>(k, f, r). (k, f)) (file_writes cs)),
      ms_unitsByName = put_all (ms_unitsByName s) (map (\<lambda>(k, u, r). (k, u)) (unit_writes cs)),
      ms_fileSourceReboot = put_all (ms_fileSourceReboot s) (map (\<lambda>(k, f, r). (k, r)) (file_writes cs)),
      ms_unitSourceReboot = put_all (ms_unitSourceReboot s) (map (\<lambda>(k, u, r). (k, r)) (unit_writes cs)),
      ms_rebootRequired = (ms_rebootRequired s \<or> list_ex (\<lambda>mc. rreq_Required (mcs_Reboot (mc_Spec mc))) cs),
      ms_sources = ms_sources s
        @ map (\<lambda>mc. \<lparr>src_Name = mc_Name mc, src_Priority = mcs_Priority (mc_Spec mc)\<rparr>) cs\<rparr>"
  by (induction cs arbitrary: s)
    (auto simp: merge_config_def Let_def merge_files_foldl merge_units_foldl file_writes_def
      unit_writes_def comp_def)

section \<open>Who wins\<close>

text \<open>In a fold of writes over configs in ascending key order the greatest writer wins.\<close>

lemma last_writer:
  fixes key :: "'c \<Rightarrow> 'k::linorder"
  assumes "sorted (map key cs)" and "distinct (map key cs)"
  shows "map_of (rev (concat (map w cs))) p = Some v \<longleftrightarrow>
    (\<exists>c \<in> set cs. map_of (rev (w c)) p = Some v
       \<and> (\<forall>c' \<in> set cs. map_of (rev (w c')) p \<noteq> None \<longrightarrow> key c' \<le> key c))"
  using assms
proof (induction cs rule: rev_induct)
  case Nil
  then show ?case by simp
next
  case (snoc c cs)
  have le: "\<And>c'. c' \<in> set cs \<Longrightarrow> key c' < key c"
    using snoc.prems by (simp add: sorted_append) (metis image_eqI order.not_eq_order_implies_strict)
  have IH: "map_of (rev (concat (map w cs))) p = Some v \<longleftrightarrow>
    (\<exists>c \<in> set cs. map_of (rev (w c)) p = Some v
       \<and> (\<forall>c' \<in> set cs. map_of (rev (w c')) p \<noteq> None \<longrightarrow> key c' \<le> key c))"
    using snoc by (auto simp: sorted_append)
  show ?case
  proof (cases "map_of (rev (w c)) p")
    case None
    then show ?thesis by (simp add: map_add_def IH)
  next
    case (Some x)
    have "\<not> key c \<le> key c'" if "c' \<in> set cs" for c' using le [OF that] by simp
    with Some show ?thesis using le by (auto simp: map_add_def less_imp_le)
  qed
qed

text \<open>What a config says about a path or a unit: its last entry for it.\<close>

definition config_file :: "MachineConfig \<Rightarrow> string \<rightharpoonup> FileSpec" where
  "config_file mc = map_of (rev (map (\<lambda>f. (file_Path f, f)) (mcs_Files (mc_Spec mc))))"

definition config_unit :: "MachineConfig \<Rightarrow> string \<rightharpoonup> UnitSpec" where
  "config_unit mc = map_of (rev (map (\<lambda>u. (unit_Name u, u)) (systemd_Units (mcs_Systemd (mc_Spec mc)))))"

text \<open>\<open>wins has cs mc p\<close>: among the configs that have \<open>p\<close>, \<open>mc\<close> is the one of
  highest priority, ties broken by the greater name.\<close>

definition wins :: "(MachineConfig \<Rightarrow> string \<rightharpoonup> 'v) \<Rightarrow> MachineConfig list \<Rightarrow> MachineConfig \<Rightarrow> string \<Rightarrow> bool" where
  "wins has cs mc p \<longleftrightarrow>
     mc \<in> set cs \<and> has mc p \<noteq> None
     \<and> (\<forall>mc' \<in> set cs. has mc' p \<noteq> None \<longrightarrow> priority_key mc' \<le> priority_key mc)"

lemma Merge_sorted:
  "Merge cs =
     (let s = foldl merge_config merge_init (sortByPriority cs)
      in \<lparr>mg_Files = filesToSortedSlice (ms_filesByPath s),
          mg_Units = unitsToSortedSlice (ms_unitsByName s),
          mg_RebootRequired = ms_rebootRequired s,
          mg_Sources = ms_sources s,
          mg_FileRebootRequirements = ms_fileSourceReboot s,
          mg_UnitRebootRequirements = ms_unitSourceReboot s\<rparr>)"
  by (simp add: Merge_def sortByPriority_def filesToSortedSlice_def unitsToSortedSlice_def
      merge_init_def Let_def)

lemma Merge_fields:
  "mg_Files (Merge cs) =
     filesToSortedSlice (put_all [] (map (\<lambda>(k, f, r). (k, f)) (file_writes (sortByPriority cs))))"
  "mg_Units (Merge cs) =
     unitsToSortedSlice (put_all [] (map (\<lambda>(k, u, r). (k, u)) (unit_writes (sortByPriority cs))))"
  "mg_FileRebootRequirements (Merge cs) =
     put_all [] (map (\<lambda>(k, f, r). (k, r)) (file_writes (sortByPriority cs)))"
  "mg_UnitRebootRequirements (Merge cs) =
     put_all [] (map (\<lambda>(k, u, r). (k, r)) (unit_writes (sortByPriority cs)))"
  "mg_RebootRequired (Merge cs) = list_ex (\<lambda>mc. rreq_Required (mcs_Reboot (mc_Spec mc))) cs"
  "mg_Sources (Merge cs) =
     map (\<lambda>mc. \<lparr>src_Name = mc_Name mc, src_Priority = mcs_Priority (mc_Spec mc)\<rparr>) (sortByPriority cs)"
  by (simp_all add: Merge_sorted merge_configs_foldl merge_init_def Let_def list_ex_iff)

text \<open>The map of a list of writes, the writer's flag projected out.\<close>

lemma file_writes_map:
  "map (\<lambda>(k, f, r). (k, h f r)) (file_writes cs) =
     concat (map (\<lambda>mc. map (\<lambda>f. (file_Path f, h f (rreq_Required (mcs_Reboot (mc_Spec mc)))))
       (mcs_Files (mc_Spec mc))) cs)"
  by (simp add: file_writes_def map_concat comp_def)

lemma unit_writes_map:
  "map (\<lambda>(k, u, r). (k, h u r)) (unit_writes cs) =
     concat (map (\<lambda>mc. map (\<lambda>u. (unit_Name u, h u (rreq_Required (mcs_Reboot (mc_Spec mc)))))
       (systemd_Units (mcs_Systemd (mc_Spec mc)))) cs)"
  by (simp add: unit_writes_def map_concat comp_def)

lemma map_of_rev_const:
  "map_of (rev (map (\<lambda>f. (k f, c)) fs)) p = (if map_of (rev (map (\<lambda>f. (k f, f)) fs)) p = None then None else Some c)"
  by (induction fs) (auto simp: map_add_def split: option.splits)

lemma last_config:
  assumes "distinct (map mc_Name cs)"
  shows "map_of (put_all [] (concat (map w (sortByPriority cs)))) p = Some v \<longleftrightarrow>
    (\<exists>mc. wins (\<lambda>mc. map_of (rev (w mc))) cs mc p \<and> map_of (rev (w mc)) p = Some v)"
proof -
  have "distinct (map priority_key (sortByPriority cs))"
    using distinct_priority_key [OF assms] by (simp add: sortByPriority_def)
  then show ?thesis
    using last_writer [OF sorted_sortByPriority, of cs w p v]
    by (auto simp: map_of_put_all wins_def)
qed

text \<open>A slice taken from a map whose keys are the elements' own keys.\<close>

lemma set_alist_update: "set (AList.update k v m) \<subseteq> insert (k, v) (set m)"
  by (induction m) auto

lemma fst_put_all: "fst ` set (put_all m ws) = fst ` set m \<union> fst ` set ws"
proof (induction ws arbitrary: m)
  case Nil
  then show ?case by simp
next
  case (Cons w ws)
  obtain k v where "w = (k, v)" by (cases w)
  then show ?case by (simp add: Cons.IH dom_update)
qed

lemma set_put_all: "set (put_all m ws) \<subseteq> set m \<union> set ws"
proof (induction ws arbitrary: m)
  case Nil
  then show ?case by simp
next
  case (Cons w ws)
  obtain k v where "w = (k, v)" by (cases w)
  then show ?case using Cons.IH [of "AList.update k v m"] set_alist_update [of k v m] by auto
qed

lemma put_all_keyed:
  "\<forall>(k, v) \<in> set m. key v = k \<Longrightarrow> \<forall>(k, v) \<in> set ws. key v = k \<Longrightarrow>
   \<forall>(k, v) \<in> set (put_all m ws). key v = k"
proof (induction ws arbitrary: m)
  case Nil
  then show ?case by simp
next
  case (Cons w ws)
  obtain k v where w: "w = (k, v)" by (cases w)
  have "\<forall>(k, v) \<in> set (AList.update k v m). key v = k"
    using Cons.prems w by (auto dest: set_alist_update [THEN subsetD])
  with Cons w show ?case by simp
qed

lemma snd_set_keyed:
  assumes "distinct (map fst m)" and "\<forall>(k, v) \<in> set m. key v = k"
  shows "v \<in> snd ` set m \<longleftrightarrow> map_of m (key v) = Some v"
  using assms by (force dest: map_of_SomeD)

lemma filesToSortedSlice_simp:
  "filesToSortedSlice m = sort_slice (\<lambda>a b. file_Path a < file_Path b) (map snd m)"
  by (simp add: filesToSortedSlice_def)

lemma unitsToSortedSlice_simp:
  "unitsToSortedSlice m = sort_slice (\<lambda>a b. unit_Name a < unit_Name b) (map snd m)"
  by (simp add: unitsToSortedSlice_def)

text \<open>The map of files (units) after the loop, and its two invariants.\<close>

abbreviation files_map :: "MachineConfig list \<Rightarrow> (string \<times> FileSpec) list" where
  "files_map cs \<equiv> put_all [] (map (\<lambda>(k, f, r). (k, f)) (file_writes (sortByPriority cs)))"

abbreviation units_map :: "MachineConfig list \<Rightarrow> (string \<times> UnitSpec) list" where
  "units_map cs \<equiv> put_all [] (map (\<lambda>(k, u, r). (k, u)) (unit_writes (sortByPriority cs)))"

lemma files_map_inv:
  "distinct (map fst (files_map cs))" "\<forall>(k, f) \<in> set (files_map cs). file_Path f = k"
proof -
  show "distinct (map fst (files_map cs))" by (rule distinct_put_all) simp
  show "\<forall>(k, f) \<in> set (files_map cs). file_Path f = k"
    by (rule put_all_keyed) (auto simp: file_writes_def)
qed

lemma units_map_inv:
  "distinct (map fst (units_map cs))" "\<forall>(k, u) \<in> set (units_map cs). unit_Name u = k"
proof -
  show "distinct (map fst (units_map cs))" by (rule distinct_put_all) simp
  show "\<forall>(k, u) \<in> set (units_map cs). unit_Name u = k"
    by (rule put_all_keyed) (auto simp: unit_writes_def)
qed

lemma keyed_fst: "\<forall>(k, v) \<in> set m. key v = k \<Longrightarrow> map key (map snd m) = map fst m"
  by (induction m) auto

lemma files_map_paths: "map file_Path (map snd (files_map cs)) = map fst (files_map cs)"
  by (rule keyed_fst [OF files_map_inv(2)])

lemma units_map_names: "map unit_Name (map snd (units_map cs)) = map fst (units_map cs)"
  by (rule keyed_fst [OF units_map_inv(2)])

lemma mem_Merge_files:
  "f \<in> set (mg_Files (Merge cs)) \<longleftrightarrow> map_of (files_map cs) (file_Path f) = Some f"
  unfolding Merge_fields filesToSortedSlice_simp set_sort_slice set_map
  by (rule snd_set_keyed [OF files_map_inv])

lemma mem_Merge_units:
  "u \<in> set (mg_Units (Merge cs)) \<longleftrightarrow> map_of (units_map cs) (unit_Name u) = Some u"
  unfolding Merge_fields unitsToSortedSlice_simp set_sort_slice set_map
  by (rule snd_set_keyed [OF units_map_inv])

lemma strictly_sorted_slice:
  fixes key :: "'a \<Rightarrow> 'k::linorder"
  assumes "distinct (map key xs)"
  shows "sorted_wrt (\<lambda>a b. key a < key b) (sort_slice (\<lambda>a b. key a < key b) xs)"
proof -
  have "sorted_wrt (<) (map key (sort_slice (\<lambda>a b. key a < key b) xs))"
    using assms sorted_sort_slice [of "\<lambda>a b. key a < key b" key xs]
    by (simp add: strict_sorted_iff)
  then show ?thesis by (simp add: sorted_wrt_map)
qed

section \<open>An example\<close>

text \<open>Two configs that both write \<open>/etc/a\<close>; the second has the higher priority.\<close>

definition ex_file :: "string \<Rightarrow> string \<Rightarrow> FileSpec" where
  "ex_file p c = \<lparr>file_Path = p, file_Content = c, file_Mode = 420, file_Owner = ''root:root'', file_State = ''present''\<rparr>"

definition ex_config :: "string \<Rightarrow> int \<Rightarrow> FileSpec list \<Rightarrow> bool \<Rightarrow> MachineConfig" where
  "ex_config n prio fs req =
     \<lparr>mc_Name = n, mc_Labels = Map.empty,
      mc_Spec = \<lparr>mcs_Priority = prio, mcs_Files = fs,
        mcs_Systemd = \<lparr>systemd_Units = [\<lparr>unit_Name = ''x.service'', unit_Enabled = Some True, unit_State = '''', unit_Mask = False\<rparr>]\<rparr>,
        mcs_Reboot = \<lparr>rreq_Required = req, rreq_Reason = ''''\<rparr>\<rparr>\<rparr>"

definition ex_configs :: "MachineConfig list" where
  "ex_configs =
     [ex_config ''hi'' 70 [ex_file ''/etc/a'' ''new''] True,
      ex_config ''lo'' 30 [ex_file ''/etc/a'' ''old'', ex_file ''/etc/b'' ''b''] False]"

lemmas ex_defs = ex_file_def ex_config_def ex_configs_def

lemma ex_configs_names: "distinct (map mc_Name ex_configs)"
  by (simp add: ex_defs)

lemma ex_configs_files:
  "mg_Files (Merge ex_configs) = [ex_file ''/etc/a'' ''new'', ex_file ''/etc/b'' ''b'']"
  by (simp add: mco_eval ex_defs)

section \<open>Claims\<close>

text \<open>
  C15: which file (and unit) a merge keeps. A file is in the result exactly when it is the
  entry, for its own path, of the config that wins that path: the config of highest priority
  among those that have the path, the greater name breaking ties; the reboot requirement
  recorded for the path is that of the winner. Units likewise.
\<close>

theorem Merge_highest_priority_wins:
  assumes "distinct (map mc_Name cs)"
  shows "(f \<in> set (mg_Files (Merge cs)) \<longleftrightarrow>
      (\<exists>mc. wins config_file cs mc (file_Path f) \<and> config_file mc (file_Path f) = Some f)) \<and>
    (u \<in> set (mg_Units (Merge cs)) \<longleftrightarrow>
      (\<exists>mc. wins config_unit cs mc (unit_Name u) \<and> config_unit mc (unit_Name u) = Some u)) \<and>
    (map_of (mg_FileRebootRequirements (Merge cs)) p = Some b \<longleftrightarrow>
      (\<exists>mc. wins config_file cs mc p \<and> rreq_Required (mcs_Reboot (mc_Spec mc)) = b)) \<and>
    (map_of (mg_UnitRebootRequirements (Merge cs)) p = Some b \<longleftrightarrow>
      (\<exists>mc. wins config_unit cs mc p \<and> rreq_Required (mcs_Reboot (mc_Spec mc)) = b))"
proof (intro conjI)
  note lc = last_config [OF assms]
  show "f \<in> set (mg_Files (Merge cs)) \<longleftrightarrow>
      (\<exists>mc. wins config_file cs mc (file_Path f) \<and> config_file mc (file_Path f) = Some f)"
    unfolding mem_Merge_files file_writes_map [where h = "\<lambda>f r. f"] lc
    by (simp add: config_file_def [abs_def] wins_def)
  show "u \<in> set (mg_Units (Merge cs)) \<longleftrightarrow>
      (\<exists>mc. wins config_unit cs mc (unit_Name u) \<and> config_unit mc (unit_Name u) = Some u)"
    unfolding mem_Merge_units unit_writes_map [where h = "\<lambda>u r. u"] lc
    by (simp add: config_unit_def [abs_def] wins_def)
  show "map_of (mg_FileRebootRequirements (Merge cs)) p = Some b \<longleftrightarrow>
      (\<exists>mc. wins config_file cs mc p \<and> rreq_Required (mcs_Reboot (mc_Spec mc)) = b)"
    unfolding Merge_fields file_writes_map [where h = "\<lambda>f r. r"] lc
    by (auto simp: config_file_def wins_def map_of_rev_const)
  show "map_of (mg_UnitRebootRequirements (Merge cs)) p = Some b \<longleftrightarrow>
      (\<exists>mc. wins config_unit cs mc p \<and> rreq_Required (mcs_Reboot (mc_Spec mc)) = b)"
    unfolding Merge_fields unit_writes_map [where h = "\<lambda>u r. r"] lc
    by (auto simp: config_unit_def wins_def map_of_rev_const)
qed

theorem Merge_highest_priority_wins_witness:
  "distinct (map mc_Name ex_configs)
   \<and> ex_file ''/etc/a'' ''new'' \<in> set (mg_Files (Merge ex_configs))
   \<and> (\<exists>mc. wins config_file ex_configs mc ''/etc/a''
        \<and> config_file mc ''/etc/a'' = Some (ex_file ''/etc/a'' ''new''))"
  using Merge_highest_priority_wins [OF ex_configs_names, of "ex_file ''/etc/a'' ''new''"]
    ex_configs_names ex_configs_files
  by (simp add: ex_file_def)

text \<open>
  the shape of a merge. Files are strictly ascending by path and units by name (so no
  path and no name occurs twice), the sources are ascending by priority and then name, and
  the requirement maps cover exactly the merged paths and names.
\<close>

theorem Merge_canonical_shape:
  "sorted_wrt (\<lambda>a b. file_Path a < file_Path b) (mg_Files (Merge cs))
   \<and> sorted_wrt (\<lambda>a b. unit_Name a < unit_Name b) (mg_Units (Merge cs))
   \<and> sorted (map (\<lambda>s. (src_Priority s, src_Name s)) (mg_Sources (Merge cs)))
   \<and> fst ` set (mg_FileRebootRequirements (Merge cs)) = file_Path ` set (mg_Files (Merge cs))
   \<and> fst ` set (mg_UnitRebootRequirements (Merge cs)) = unit_Name ` set (mg_Units (Merge cs))"
proof (intro conjI)
  show "sorted_wrt (\<lambda>a b. file_Path a < file_Path b) (mg_Files (Merge cs))"
    unfolding Merge_fields filesToSortedSlice_simp
    by (rule strictly_sorted_slice) (simp only: files_map_paths files_map_inv)
  show "sorted_wrt (\<lambda>a b. unit_Name a < unit_Name b) (mg_Units (Merge cs))"
    unfolding Merge_fields unitsToSortedSlice_simp
    by (rule strictly_sorted_slice) (simp only: units_map_names units_map_inv)
  show "sorted (map (\<lambda>s. (src_Priority s, src_Name s)) (mg_Sources (Merge cs)))"
    using sorted_sortByPriority [of cs] by (simp add: Merge_fields comp_def priority_key_def [abs_def])
  show "fst ` set (mg_FileRebootRequirements (Merge cs)) = file_Path ` set (mg_Files (Merge cs))"
    using arg_cong [OF files_map_paths [of cs], of set]
    by (simp add: Merge_fields filesToSortedSlice_simp image_image fst_put_all comp_def case_prod_beta)
  show "fst ` set (mg_UnitRebootRequirements (Merge cs)) = unit_Name ` set (mg_Units (Merge cs))"
    using arg_cong [OF units_map_names [of cs], of set]
    by (simp add: Merge_fields unitsToSortedSlice_simp image_image fst_put_all comp_def case_prod_beta)
qed

text \<open>
  C24: the result does not depend on the order in which the API server lists the configs nor
  on the order in which Go iterates over its maps: any listing of the same configs merges to
  the same result, and any enumeration of the file and unit maps gives the same slices.
\<close>

theorem Merge_deterministic:
  assumes "mset cs = mset ds" and "distinct (map mc_Name cs)"
  shows "Merge cs = Merge ds
    \<and> (mset fm = mset (files_map cs) \<longrightarrow> filesToSortedSlice fm = mg_Files (Merge ds))
    \<and> (mset um = mset (units_map cs) \<longrightarrow> unitsToSortedSlice um = mg_Units (Merge ds))"
proof (intro conjI impI)
  have srt: "sortByPriority cs = sortByPriority ds"
    using assms by (rule sortByPriority_perm)
  then show eq: "Merge cs = Merge ds" by (simp add: Merge_sorted)
  show "filesToSortedSlice fm = mg_Files (Merge ds)" if "mset fm = mset (files_map cs)"
    unfolding Merge_fields filesToSortedSlice_simp srt [symmetric]
    by (rule sort_slice_perm [symmetric, where key = file_Path])
      (use that in \<open>simp_all only: files_map_paths files_map_inv mset_map\<close>)
  show "unitsToSortedSlice um = mg_Units (Merge ds)" if "mset um = mset (units_map cs)"
    unfolding Merge_fields unitsToSortedSlice_simp srt [symmetric]
    by (rule sort_slice_perm [symmetric, where key = unit_Name])
      (use that in \<open>simp_all only: units_map_names units_map_inv mset_map\<close>)
qed

theorem Merge_deterministic_witness:
  "mset ex_configs = mset (rev ex_configs) \<and> distinct (map mc_Name ex_configs)
   \<and> Merge ex_configs = Merge (rev ex_configs)
   \<and> filesToSortedSlice (rev (files_map ex_configs)) = mg_Files (Merge (rev ex_configs))"
  using Merge_deterministic [OF _ ex_configs_names, of "rev ex_configs" "rev (files_map ex_configs)"]
    ex_configs_names
  by simp

text \<open>
  the merge requires a reboot exactly when one of its configs does, and it never records
  a per-path or per-unit requirement when the merge as a whole requires none.
\<close>

theorem Merge_reboot_requirements:
  "(mg_RebootRequired (Merge cs) \<longleftrightarrow> list_ex (\<lambda>mc. rreq_Required (mcs_Reboot (mc_Spec mc))) cs)
   \<and> ((p, True) \<in> set (mg_FileRebootRequirements (Merge cs))
        \<union> set (mg_UnitRebootRequirements (Merge cs)) \<longrightarrow> mg_RebootRequired (Merge cs))"
proof (intro conjI impI)
  show "mg_RebootRequired (Merge cs) \<longleftrightarrow> list_ex (\<lambda>mc. rreq_Required (mcs_Reboot (mc_Spec mc))) cs"
    by (simp add: Merge_fields)
  assume "(p, True) \<in> set (mg_FileRebootRequirements (Merge cs)) \<union> set (mg_UnitRebootRequirements (Merge cs))"
  then have "(p, True) \<in> set (map (\<lambda>(k, f, r). (k, r)) (file_writes (sortByPriority cs)))
    \<or> (p, True) \<in> set (map (\<lambda>(k, u, r). (k, r)) (unit_writes (sortByPriority cs)))"
    unfolding Merge_fields using set_put_all by fastforce
  then show "mg_RebootRequired (Merge cs)"
    by (auto simp: Merge_fields list_ex_iff file_writes_def unit_writes_def)
qed

theorem Merge_reboot_requirements_witness:
  "(''/etc/a'', True) \<in> set (mg_FileRebootRequirements (Merge ex_configs))
   \<and> mg_RebootRequired (Merge ex_configs)"
proof -
  have "(''/etc/a'', True) \<in> set (mg_FileRebootRequirements (Merge ex_configs))"
    by (simp add: mco_eval ex_defs)
  then show ?thesis using Merge_reboot_requirements [of ex_configs "''/etc/a''"] by blast
qed

end
