(* ===== verification/Go_JSON.thy ===== *)
theory Go_JSON
  imports Go_Strings
begin

text \<open>
  \<open>encoding/json.Marshal\<close> for the values the sources marshal: strings (with Go's HTML
  escaping), integers, booleans, arrays and objects of those. A reader for the encoded
  strings shows that the encoding loses nothing on valid UTF-8; the locale
  \<open>prefix_code\<close> states that property for an encoder and lifts it to arrays.
\<close>

section \<open>UTF-8\<close>

abbreviation byte :: "char \<Rightarrow> nat" where "byte \<equiv> of_char"

definition cont_byte :: "char \<Rightarrow> bool" where
  "cont_byte c \<longleftrightarrow> 128 \<le> byte c \<and> byte c < 192"

text \<open>
  \<open>utf8.DecodeRune\<close>: the width of the multi-byte rune a string starts with, or 0 where
  the bytes are not valid UTF-8 (the accept ranges of \<open>unicode/utf8\<close>).
\<close>

fun second_ok :: "nat \<Rightarrow> nat \<Rightarrow> bool" where
  "second_ok b c =
     (if b = 224 then 160 \<le> c \<and> c < 192
      else if b = 237 then 128 \<le> c \<and> c < 160
      else if b = 240 then 144 \<le> c \<and> c < 192
      else if b = 244 then 128 \<le> c \<and> c < 144
      else 128 \<le> c \<and> c < 192)"

fun rune_width :: "string \<Rightarrow> nat" where
  "rune_width (c0 # c1 # s) =
     (let b = byte c0 in
      if \<not> second_ok b (byte c1) then 0
      else if 194 \<le> b \<and> b \<le> 223 then 2
      else if 224 \<le> b \<and> b \<le> 239 then (if length s \<ge> 1 \<and> cont_byte (s ! 0) then 3 else 0)
      else if 240 \<le> b \<and> b \<le> 244
      then (if length s \<ge> 2 \<and> cont_byte (s ! 0) \<and> cont_byte (s ! 1) then 4 else 0)
      else 0)"
| "rune_width _ = 0"

lemma rune_width_bound: "rune_width s \<le> length s"
  by (induction s rule: rune_width.induct) (auto simp: Let_def)

lemma rune_width_cases: "rune_width s \<in> {0, 2, 3, 4}"
  by (induction s rule: rune_width.induct) (auto simp: Let_def)

section \<open>Strings\<close>

definition quote :: char where "quote = CHR 0x22"
definition backslash :: char where "backslash = CHR 0x5C"

definition hex :: "nat \<Rightarrow> char" where
  "hex n = ''0123456789abcdef'' ! n"

text \<open>The escape of one ASCII character by \<open>encodeState.string\<close> with \<open>escapeHTML\<close>.\<close>

definition esc_letter :: "char \<Rightarrow> char option" where
  "esc_letter c =
     (if c = quote \<or> c = backslash then Some c
      else if c = CHR 0x08 then Some (CHR ''b'')
      else if c = CHR 0x0C then Some (CHR ''f'')
      else if c = CHR 0x0A then Some (CHR ''n'')
      else if c = CHR 0x0D then Some (CHR ''r'')
      else if c = CHR 0x09 then Some (CHR ''t'')
      else None)"

definition esc_ascii :: "char \<Rightarrow> string" where
  "esc_ascii c =
     (case esc_letter c of
        Some e \<Rightarrow> [backslash, e]
      | None \<Rightarrow>
          if byte c < 32 \<or> c = CHR ''<'' \<or> c = CHR ''>'' \<or> c = CHR 0x26
          then [backslash, CHR ''u'', CHR ''0'', CHR ''0'', hex (byte c div 16), hex (byte c mod 16)]
          else [c])"

definition u2028 :: string where "u2028 = [CHR 0xE2, CHR 0x80, CHR 0xA8]"
definition u2029 :: string where "u2029 = [CHR 0xE2, CHR 0x80, CHR 0xA9]"

definition esc_rune :: "string \<Rightarrow> string" where
  "esc_rune r =
     (if r = u2028 then backslash # ''u2028'' else if r = u2029 then backslash # ''u2029'' else r)"

function (sequential) json_chars :: "string \<Rightarrow> string" where
  "json_chars [] = []"
| "json_chars (c # s) =
     (if byte c < 128 then esc_ascii c @ json_chars s
      else let k = rune_width (c # s) in
           if k = 0 then (backslash # ''ufffd'') @ json_chars s
           else esc_rune (take k (c # s)) @ json_chars (drop k (c # s)))"
  by pat_completeness auto
termination
  by (relation "measure length") auto

function (sequential) valid_utf8 :: "string \<Rightarrow> bool" where
  "valid_utf8 [] = True"
| "valid_utf8 (c # s) =
     (if byte c < 128 then valid_utf8 s
      else let k = rune_width (c # s) in if k = 0 then False else valid_utf8 (drop k (c # s)))"
  by pat_completeness auto
termination
  by (relation "measure length") auto

declare json_chars.simps(2) [simp del] valid_utf8.simps(2) [simp del]

definition json_string :: "string \<Rightarrow> string" where
  "json_string s = quote # json_chars s @ [quote]"

lemmas json_defs [mco_eval] =
  quote_def backslash_def hex_def esc_letter_def esc_ascii_def u2028_def u2029_def esc_rune_def json_string_def
  cont_byte_def json_chars.simps(2) valid_utf8.simps(2)

section \<open>Reading an encoded string back\<close>

definition unhex :: "char \<Rightarrow> nat" where
  "unhex c = length (takeWhile (\<lambda>d. d \<noteq> c) ''0123456789abcdef'')"

definition un_letter :: "char \<Rightarrow> char" where
  "un_letter c =
     (if c = CHR ''b'' then CHR 0x08 else if c = CHR ''f'' then CHR 0x0C
      else if c = CHR ''n'' then CHR 0x0A else if c = CHR ''r'' then CHR 0x0D
      else if c = CHR ''t'' then CHR 0x09 else c)"

definition un_hex4 :: "char \<Rightarrow> char \<Rightarrow> char \<Rightarrow> char \<Rightarrow> string" where
  "un_hex4 a b c d =
     (if [a, b, c, d] = ''2028'' then u2028
      else if [a, b, c, d] = ''2029'' then u2029
      else [char_of (16 * unhex c + unhex d)])"

abbreviation cons_read :: "string \<Rightarrow> (string \<times> string) option \<Rightarrow> (string \<times> string) option" where
  "cons_read x r \<equiv> map_option (apfst ((@) x)) r"

function (sequential) read_chars :: "string \<Rightarrow> (string \<times> string) option" where
  "read_chars [] = None"
| "read_chars (c # s) =
     (if c = quote then Some ([], s)
      else if c \<noteq> backslash then cons_read [c] (read_chars s)
      else case s of [] \<Rightarrow> None
           | e # s1 \<Rightarrow>
               if e \<noteq> CHR ''u'' then cons_read [un_letter e] (read_chars s1)
               else if length s1 < 4 then None
               else cons_read (un_hex4 (s1 ! 0) (s1 ! 1) (s1 ! 2) (s1 ! 3)) (read_chars (drop 4 s1)))"
  by pat_completeness auto
termination
  by (relation "measure length") auto

declare read_chars.simps(2) [simp del]

lemma hex_unhex [simp]: "n < 16 \<Longrightarrow> unhex (hex n) = n"
proof -
  assume "n < 16"
  then have "n \<in> set [0..<16]" by simp
  moreover have "list_all (\<lambda>n. unhex (hex n) = n) [0..<16]"
    by code_simp
  ultimately show ?thesis by (auto simp: list_all_iff)
qed

lemma read_quote [simp]: "read_chars (quote # s) = Some ([], s)"
  by (simp add: read_chars.simps)

lemma read_plain:
  "c \<noteq> quote \<Longrightarrow> c \<noteq> backslash \<Longrightarrow> read_chars (c # s) = cons_read [c] (read_chars s)"
  by (simp add: read_chars.simps)

lemma read_letter:
  "e \<noteq> CHR ''u'' \<Longrightarrow> read_chars (backslash # e # t) = cons_read [un_letter e] (read_chars t)"
  by (simp add: read_chars.simps quote_def backslash_def)

lemma read_u:
  "read_chars (backslash # CHR ''u'' # a # b # h # l # t) = cons_read (un_hex4 a b h l) (read_chars t)"
  by (simp add: read_chars.simps quote_def backslash_def)

lemma high_byte: "128 \<le> byte c \<Longrightarrow> c \<noteq> quote \<and> c \<noteq> backslash"
  by (auto simp: quote_def backslash_def)

lemma un_hex4_byte:
  "un_hex4 (CHR ''0'') (CHR ''0'') (hex (byte c div 16)) (hex (byte c mod 16)) = [c]"
proof -
  have "byte c < 256" by (simp add: of_char_def)
  then have "byte c div 16 < 16" by (simp add: less_mult_imp_div_less)
  then show ?thesis by (simp add: un_hex4_def)
qed

lemma esc_letter_Some: "esc_letter c = Some e \<Longrightarrow> e \<noteq> CHR ''u'' \<and> un_letter e = c"
  by (auto simp: esc_letter_def un_letter_def quote_def backslash_def split: if_splits)

lemma esc_letter_None: "esc_letter c = None \<Longrightarrow> c \<noteq> quote \<and> c \<noteq> backslash"
  by (auto simp: esc_letter_def split: if_splits)

lemma read_esc_ascii: "read_chars (esc_ascii c @ t) = cons_read [c] (read_chars t)"
proof (cases "esc_letter c")
  case None
  then show ?thesis
    using esc_letter_None [of c]
    by (cases "byte c < 32 \<or> c = CHR ''<'' \<or> c = CHR ''>'' \<or> c = CHR 0x26")
       (simp_all only: esc_ascii_def option.case if_True if_False append.simps read_plain
          read_u un_hex4_byte not_False_eq_True)
next
  case (Some e)
  then show ?thesis
    using esc_letter_Some [of c e] by (simp add: esc_ascii_def read_letter)
qed

lemma cons_read_append: "cons_read xs (cons_read ys r) = cons_read (xs @ ys) r"
  by (cases r) auto

lemma cons_read_Nil [simp]: "cons_read [] r = r"
  by (cases r) auto

lemma read_high:
  "list_all (\<lambda>c. 128 \<le> byte c) r \<Longrightarrow> read_chars (r @ t) = cons_read r (read_chars t)"
proof (induction r)
  case (Cons c r)
  then show ?case
    using high_byte [of c] by (cases "read_chars t") (auto simp: read_plain)
qed simp

lemma rune_high:
  assumes "128 \<le> byte c" "rune_width (c # s) \<noteq> 0"
  shows "list_all (\<lambda>c. 128 \<le> byte c) (take (rune_width (c # s)) (c # s))"
proof (cases s)
  case (Cons c1 s1)
  show ?thesis
    using assms unfolding Cons
    by (cases s1; cases "tl s1") (auto simp: Let_def cont_byte_def split: if_splits)
qed (use assms in simp)

lemma read_rune:
  assumes "list_all (\<lambda>c. 128 \<le> byte c) r"
  shows "read_chars (esc_rune r @ t) = cons_read r (read_chars t)"
proof -
  have "un_hex4 (CHR ''2'') (CHR ''0'') (CHR ''2'') (CHR ''8'') = u2028"
    "un_hex4 (CHR ''2'') (CHR ''0'') (CHR ''2'') (CHR ''9'') = u2029"
    by (simp_all add: un_hex4_def)
  then show ?thesis
    using read_high [OF assms, of t] by (simp add: esc_rune_def read_u)
qed

lemma read_json_chars:
  "valid_utf8 s \<Longrightarrow> read_chars (json_chars s @ quote # t) = Some (s, t)"
proof (induction s rule: json_chars.induct)
  case (2 c s)
  show ?case
  proof (cases "byte c < 128")
    case True
    with 2 show ?thesis by (simp add: json_chars.simps valid_utf8.simps read_esc_ascii)
  next
    case False
    let ?k = "rune_width (c # s)"
    have k: "?k \<noteq> 0" "valid_utf8 (drop ?k (c # s))"
      using 2(4) False by (auto simp: valid_utf8.simps Let_def split: if_splits)
    have "json_chars (c # s) = esc_rune (take ?k (c # s)) @ json_chars (drop ?k (c # s))"
      using False k by (simp only: json_chars.simps Let_def if_False)
    moreover have "list_all (\<lambda>c. 128 \<le> byte c) (take ?k (c # s))"
      using False k(1) by (intro rune_high) simp_all
    ultimately show ?thesis
      using 2(3) [OF False refl k]
      by (simp only: append_assoc read_rune option.map apfst_conv append_take_drop_id)
  qed
qed simp

section \<open>Prefix codes\<close>

text \<open>
  An encoder whose output can be cut off the front of a longer text in one way only. The
  encodings of strings, files, units and whole configurations are of this kind, and arrays
  inherit it from their elements.
\<close>

definition json_array :: "('a \<Rightarrow> string) \<Rightarrow> 'a list \<Rightarrow> string" where
  "json_array enc xs = ''['' @ Join (map enc xs) '','' @ '']''"

definition json_bool :: "bool \<Rightarrow> string" where
  "json_bool b = (if b then ''true'' else ''false'')"

locale prefix_code =
  fixes enc :: "'a \<Rightarrow> string" and ok :: "'a \<Rightarrow> bool"
  assumes prefix_inj: "ok x \<Longrightarrow> ok y \<Longrightarrow> enc x @ r = enc y @ r' \<Longrightarrow> x = y \<and> r = r'"
begin

lemma enc_inj: "ok x \<Longrightarrow> ok y \<Longrightarrow> enc x = enc y \<longleftrightarrow> x = y"
  using prefix_inj [of x y "[]" "[]"] by auto

end

text \<open>Elements that start with a brace are told apart from the end of the array.\<close>

locale object_code = prefix_code +
  assumes enc_brace: "\<exists>t. enc x = CHR ''{'' # t"
begin

fun tail_text :: "'a list \<Rightarrow> string" where
  "tail_text [] = '']''"
| "tail_text (x # xs) = '','' @ enc x @ tail_text xs"

lemma array_Cons: "json_array enc (x # xs) = ''['' @ enc x @ tail_text xs"
proof -
  have "Join (map enc (x # xs)) '','' @ '']'' = enc x @ tail_text xs" for x xs
    by (induction xs arbitrary: x) auto
  then show ?thesis by (simp add: json_array_def)
qed

lemma tail_inj:
  "list_all ok xs \<Longrightarrow> list_all ok ys \<Longrightarrow> tail_text xs @ r = tail_text ys @ r' \<Longrightarrow> xs = ys \<and> r = r'"
proof (induction xs arbitrary: ys)
  case Nil
  then show ?case by (cases ys) auto
next
  case (Cons x xs)
  then obtain y ys' where ys: "ys = y # ys'" by (cases ys) auto
  have "enc x @ tail_text xs @ r = enc y @ tail_text ys' @ r'" "ok x" "ok y"
    using Cons.prems by (auto simp: ys)
  then have "x = y \<and> tail_text xs @ r = tail_text ys' @ r'" by (intro prefix_inj)
  with Cons show ?case by (auto simp: ys)
qed

lemma array_inj:
  assumes "list_all ok xs" "list_all ok ys" "json_array enc xs @ r = json_array enc ys @ r'"
  shows "xs = ys \<and> r = r'"
proof -
  have brace: "json_array enc [] @ s \<noteq> json_array enc (z # zs) @ s'" for s z zs s'
    using enc_brace [of z] unfolding array_Cons by (auto simp: json_array_def)
  show ?thesis
  proof (cases xs)
    case Nil
    then show ?thesis
      using assms brace by (cases ys) (auto simp: json_array_def)
  next
    case (Cons x xs')
    then obtain y ys' where ys: "ys = y # ys'"
      using assms brace by (cases ys) (auto simp del: append.simps, metis)
    have "enc x @ tail_text xs' @ r = enc y @ tail_text ys' @ r'" "ok x" "ok y"
      using assms unfolding Cons ys array_Cons by auto
    then have "x = y \<and> tail_text xs' @ r = tail_text ys' @ r'" by (intro prefix_inj)
    then show ?thesis
      using assms tail_inj [of xs' ys' r r'] by (auto simp: Cons ys)
  qed
qed

lemma array_enc_inj:
  "list_all ok xs \<Longrightarrow> list_all ok ys \<Longrightarrow> json_array enc xs = json_array enc ys \<Longrightarrow> xs = ys"
  using array_inj [of xs ys "[]" "[]"] by simp

end

interpretation string_code: prefix_code json_string valid_utf8
proof
  fix x y r r'
  assume ok: "valid_utf8 x" "valid_utf8 y" and eq: "json_string x @ r = json_string y @ r'"
  have "read_chars (json_chars x @ quote # r) = read_chars (json_chars y @ quote # r')"
    using eq by (simp add: json_string_def)
  then show "x = y \<and> r = r'" by (simp add: read_json_chars ok)
qed

text \<open>An integer is cut off by the comma that follows it.\<close>

lemma digits_cut:
  "list_all is_digit s \<Longrightarrow> list_all is_digit t \<Longrightarrow> \<not> is_digit c \<Longrightarrow> s @ c # r = t @ c # r' \<Longrightarrow> s = t \<and> r = r'"
proof (induction s arbitrary: t)
  case Nil
  then show ?case by (cases t) auto
next
  case (Cons a s)
  then show ?case by (cases t) auto
qed

lemma Itoa_cut: "Itoa i @ CHR '','' # r = Itoa j @ CHR '','' # r' \<Longrightarrow> i = j \<and> r = r'"
proof -
  assume eq: "Itoa i @ CHR '','' # r = Itoa j @ CHR '','' # r'"
  have c: "\<not> is_digit (CHR '','')" by (simp add: is_digit_def)
  have hd: "nat_str n @ u \<noteq> CHR ''-'' # v" "CHR ''-'' # v \<noteq> nat_str n @ u" for n u v
    using nat_str_hd_sign(1) [of n] nat_str_nonempty [of n] by (cases "nat_str n"; auto)+
  have cut: "nat_str m @ CHR '','' # r = nat_str n @ CHR '','' # r' \<Longrightarrow> m = n \<and> r = r'" for m n
    using digits_cut [OF nat_str_digits nat_str_digits c] by (metis nat_str_inj)
  show ?thesis
  proof (cases "i < 0 \<longleftrightarrow> j < 0")
    case True
    show ?thesis
    proof (cases "i < 0")
      case neg: True
      then have "nat_str (nat (- i)) @ CHR '','' # r = nat_str (nat (- j)) @ CHR '','' # r'"
        using eq True by (simp only: Itoa_def if_True append.simps list.inject)
      then show ?thesis using cut [of "nat (- i)" "nat (- j)"] neg True by linarith
    next
      case nonneg: False
      then have "nat_str (nat i) @ CHR '','' # r = nat_str (nat j) @ CHR '','' # r'"
        using eq True by (simp only: Itoa_def if_False)
      then show ?thesis using cut [of "nat i" "nat j"] nonneg True by linarith
    qed
  next
    case False
    then show ?thesis using eq hd by (auto simp: Itoa_def)
  qed
qed

lemma json_bool_cut: "json_bool a @ r = json_bool b @ r' \<Longrightarrow> a = b \<and> r = r'"
  by (auto simp: json_bool_def split: if_splits)

end
