(* ===== verification/Renderer_Hash.thy ===== *)
theory Renderer_Hash
  imports Renderer_Merge Go_JSON Go_SHA256
begin

text \<open>
  \<open>internal/renderer/hash.go\<close>: the canonical form of a merged configuration, its JSON text
  and the SHA-256 hash that names a revision. \<open>ComputeHash\<close> and \<open>ToCanonicalJSON\<close>
  repeat the same canonicalisation in the source; here both call \<open>canonicalise\<close>.
\<close>

section \<open>Definitions\<close>

record HashResult =
  hash_Short :: string
  hash_Full :: string

record canonicalFile =
  cf_Content :: string
  cf_Mode :: int
  cf_Owner :: string
  cf_Path :: string
  cf_State :: string

record canonicalUnit =
  cu_Enabled :: "bool option"
  cu_Mask :: bool
  cu_Name :: string
  cu_State :: string

record canonicalReboot =
  cr_Required :: bool

record canonicalSystemd =
  cs_Units :: "canonicalUnit list"

record canonicalConfig =
  cc_Files :: "canonicalFile list"
  cc_Reboot :: canonicalReboot
  cc_Systemd :: canonicalSystemd

definition canonical_file :: "FileSpec \<Rightarrow> canonicalFile" where
  "canonical_file f =
     \<lparr>cf_Content = file_Content f, cf_Mode = file_Mode f, cf_Owner = file_Owner f,
      cf_Path = file_Path f, cf_State = file_State f\<rparr>"

definition canonical_unit :: "UnitSpec \<Rightarrow> canonicalUnit" where
  "canonical_unit u =
     \<lparr>cu_Enabled = unit_Enabled u, cu_Mask = unit_Mask u, cu_Name = unit_Name u,
      cu_State = unit_State u\<rparr>"

definition empty_merged :: MergedConfig where
  "empty_merged =
     \<lparr>mg_Files = [], mg_Units = [], mg_RebootRequired = False, mg_Sources = [],
      mg_FileRebootRequirements = [], mg_UnitRebootRequirements = []\<rparr>"

definition canonicalise :: "MergedConfig option \<Rightarrow> canonicalConfig" where
  "canonicalise merged =
     (let m = (case merged of None \<Rightarrow> empty_merged | Some m \<Rightarrow> m) in
      \<lparr>cc_Files = sort_slice (\<lambda>a b. cf_Path a < cf_Path b) (map canonical_file (mg_Files m)),
       cc_Reboot = \<lparr>cr_Required = mg_RebootRequired m\<rparr>,
       cc_Systemd =
         \<lparr>cs_Units = sort_slice (\<lambda>a b. cu_Name a < cu_Name b) (map canonical_unit (mg_Units m))\<rparr>\<rparr>)"

text \<open>
  \<open>json.Marshal\<close> of the canonical structs: fields in declaration order; a nil
  \<open>Enabled\<close> and an empty unit \<open>State\<close> are omitted. None of these types can make
  \<open>Marshal\<close> fail.
\<close>

definition q :: "string \<Rightarrow> string" where
  "q s = [CHR 0x22] @ s @ [CHR 0x22]"

definition marshal_file :: "canonicalFile \<Rightarrow> string" where
  "marshal_file f =
     ''{'' @ q ''content'' @ '':'' @ json_string (cf_Content f)
     @ '','' @ q ''mode'' @ '':'' @ Itoa (cf_Mode f)
     @ '','' @ q ''owner'' @ '':'' @ json_string (cf_Owner f)
     @ '','' @ q ''path'' @ '':'' @ json_string (cf_Path f)
     @ '','' @ q ''state'' @ '':'' @ json_string (cf_State f) @ ''}''"

definition marshal_unit :: "canonicalUnit \<Rightarrow> string" where
  "marshal_unit u =
     ''{'' @ (case cu_Enabled u of None \<Rightarrow> [] | Some b \<Rightarrow> q ''enabled'' @ '':'' @ json_bool b @ '','')
     @ q ''mask'' @ '':'' @ json_bool (cu_Mask u)
     @ '','' @ q ''name'' @ '':'' @ json_string (cu_Name u)
     @ (if cu_State u = [] then [] else '','' @ q ''state'' @ '':'' @ json_string (cu_State u)) @ ''}''"

definition Marshal :: "canonicalConfig \<Rightarrow> string result" where
  "Marshal c =
     Inr (''{'' @ q ''files'' @ '':'' @ json_array marshal_file (cc_Files c)
       @ '','' @ q ''reboot'' @ '':'' @ ''{'' @ q ''required'' @ '':'' @ json_bool (cr_Required (cc_Reboot c)) @ ''}''
       @ '','' @ q ''systemd'' @ '':'' @ ''{'' @ q ''units'' @ '':'' @ json_array marshal_unit (cs_Units (cc_Systemd c))
       @ ''}'' @ ''}'')"

definition ToCanonicalJSON :: "MergedConfig option \<Rightarrow> string result" where
  "ToCanonicalJSON merged = Marshal (canonicalise merged)"

definition ComputeHash :: "MergedConfig option \<Rightarrow> HashResult" where
  "ComputeHash merged =
     (case Marshal (canonicalise merged) of
        Inl err \<Rightarrow> \<lparr>hash_Short = [], hash_Full = []\<rparr>
      | Inr jsonBytes \<Rightarrow>
          let fullHex = EncodeToString (Sum256 jsonBytes) in
          \<lparr>hash_Short = take 10 fullHex, hash_Full = ''sha256:'' @ fullHex\<rparr>)"

definition RMCName :: "string \<Rightarrow> HashResult \<Rightarrow> string" where
  "RMCName poolName hash = poolName @ ''-'' @ hash_Short hash"

lemmas hash_defs [mco_eval] =
  canonical_file_def canonical_unit_def empty_merged_def canonicalise_def q_def
  marshal_file_def marshal_unit_def Marshal_def ToCanonicalJSON_def ComputeHash_def RMCName_def

section \<open>The JSON text determines the canonical form\<close>

definition file_utf8 :: "canonicalFile \<Rightarrow> bool" where
  "file_utf8 f \<longleftrightarrow>
     valid_utf8 (cf_Content f) \<and> valid_utf8 (cf_Owner f) \<and> valid_utf8 (cf_Path f) \<and> valid_utf8 (cf_State f)"

definition unit_utf8 :: "canonicalUnit \<Rightarrow> bool" where
  "unit_utf8 u \<longleftrightarrow> valid_utf8 (cu_Name u) \<and> valid_utf8 (cu_State u)"

definition config_utf8 :: "canonicalConfig \<Rightarrow> bool" where
  "config_utf8 c \<longleftrightarrow> list_all file_utf8 (cc_Files c) \<and> list_all unit_utf8 (cs_Units (cc_Systemd c))"

lemmas string_cut = string_code.prefix_inj [rotated 2]

lemma marshal_file_prefix:
  assumes "marshal_file x @ r = marshal_file y @ r'" "file_utf8 x" "file_utf8 y"
  shows "x = y \<and> r = r'"
  using assms by (auto simp: marshal_file_def file_utf8_def dest!: string_cut Itoa_cut)

interpretation file_code: object_code marshal_file file_utf8
  by unfold_locales (blast dest: marshal_file_prefix, simp add: marshal_file_def)

lemma marshal_unit_tail:
  assumes "(if s = [] then [] else '','' @ q ''state'' @ '':'' @ json_string s) @ CHR ''}'' # r
    = (if s' = [] then [] else '','' @ q ''state'' @ '':'' @ json_string s') @ CHR ''}'' # r'"
    "valid_utf8 s" "valid_utf8 s'"
  shows "s = s' \<and> r = r'"
  using assms by (auto split: if_splits dest!: string_cut)

lemma marshal_unit_prefix:
  assumes "marshal_unit x @ r = marshal_unit y @ r'" "unit_utf8 x" "unit_utf8 y"
  shows "x = y \<and> r = r'"
proof -
  have "cu_Enabled x = cu_Enabled y \<and> cu_Mask x = cu_Mask y \<and> cu_Name x = cu_Name y
    \<and> cu_State x = cu_State y \<and> r = r'"
    using assms
    by (auto simp: marshal_unit_def unit_utf8_def q_def split: option.splits
        dest!: string_cut json_bool_cut marshal_unit_tail)
  then show ?thesis by simp
qed

interpretation unit_code: object_code marshal_unit unit_utf8
  by unfold_locales (blast dest: marshal_unit_prefix, simp add: marshal_unit_def)

lemma Marshal_inj:
  assumes "Marshal c = Marshal d" "config_utf8 c" "config_utf8 d"
  shows "c = d"
proof -
  have "cc_Files c = cc_Files d \<and> cr_Required (cc_Reboot c) = cr_Required (cc_Reboot d)
    \<and> cs_Units (cc_Systemd c) = cs_Units (cc_Systemd d)"
    using assms
    by (auto simp: Marshal_def config_utf8_def
        dest!: file_code.array_inj [rotated 2] json_bool_cut unit_code.array_enc_inj [rotated 2])
  then show ?thesis by (cases c; cases d) (auto intro: canonicalReboot.equality canonicalSystemd.equality)
qed


section \<open>Merged configurations are already canonical\<close>

lemma canonical_file_inj: "canonical_file f = canonical_file g \<longleftrightarrow> f = g"
  by (auto simp: canonical_file_def intro: FileSpec.equality)

lemma canonical_unit_inj: "canonical_unit u = canonical_unit v \<longleftrightarrow> u = v"
  by (auto simp: canonical_unit_def intro: UnitSpec.equality)

lemma sort_slice_sorted:
  fixes key :: "'a \<Rightarrow> 'k::linorder"
  assumes "sorted_wrt (\<lambda>a b. key a < key b) xs"
  shows "sort_slice (\<lambda>a b. key a < key b) xs = xs"
proof -
  have "sorted (map key xs)"
    using assms by (simp add: sorted_map sorted_wrt_mono_rel [of _ "\<lambda>a b. key a < key b"] less_imp_le)
  then show ?thesis
    by (simp add: sort_slice_key [where key = key] sort_key_id_if_sorted)
qed

lemma Merge_files_sorted: "sorted_wrt (\<lambda>f g. file_Path f < file_Path g) (mg_Files (Merge cs))"
proof -
  have "distinct (map file_Path (map snd (files_map cs)))"
    unfolding files_map_paths using files_map_inv by blast
  then show ?thesis
    by (simp add: Merge_fields filesToSortedSlice_simp strictly_sorted_slice)
qed

lemma Merge_units_sorted: "sorted_wrt (\<lambda>u v. unit_Name u < unit_Name v) (mg_Units (Merge cs))"
proof -
  have "distinct (map unit_Name (map snd (units_map cs)))"
    unfolding units_map_names using units_map_inv by blast
  then show ?thesis
    by (simp add: Merge_fields unitsToSortedSlice_simp strictly_sorted_slice)
qed

lemma canonicalise_Merge:
  "canonicalise (Some (Merge cs)) =
     \<lparr>cc_Files = map canonical_file (mg_Files (Merge cs)),
      cc_Reboot = \<lparr>cr_Required = mg_RebootRequired (Merge cs)\<rparr>,
      cc_Systemd = \<lparr>cs_Units = map canonical_unit (mg_Units (Merge cs))\<rparr>\<rparr>"
proof -
  have f: "sorted_wrt (\<lambda>a b. cf_Path a < cf_Path b) (map canonical_file (mg_Files (Merge cs)))"
    using Merge_files_sorted [of cs] by (simp add: sorted_wrt_map canonical_file_def)
  have u: "sorted_wrt (\<lambda>a b. cu_Name a < cu_Name b) (map canonical_unit (mg_Units (Merge cs)))"
    using Merge_units_sorted [of cs] by (simp add: sorted_wrt_map canonical_unit_def)
  show ?thesis
    by (simp add: canonicalise_def Let_def sort_slice_sorted [OF f] sort_slice_sorted [OF u])
qed

definition same_configuration :: "MergedConfig \<Rightarrow> MergedConfig \<Rightarrow> bool" where
  "same_configuration m n \<longleftrightarrow>
     mg_Files m = mg_Files n \<and> mg_Units m = mg_Units n \<and> mg_RebootRequired m = mg_RebootRequired n"

lemma canonicalise_Merge_eq:
  "canonicalise (Some (Merge cs)) = canonicalise (Some (Merge ds)) \<longleftrightarrow>
     same_configuration (Merge cs) (Merge ds)"
  by (auto simp: canonicalise_Merge same_configuration_def inj_map_eq_map inj_on_def
      canonical_file_inj canonical_unit_inj)

section \<open>Hexadecimal digests\<close>

lemma ToCanonicalJSON_eq:
  assumes "config_utf8 (canonicalise m)" "config_utf8 (canonicalise n)"
  shows "ToCanonicalJSON m = ToCanonicalJSON n \<longleftrightarrow> canonicalise m = canonicalise n"
  using assms Marshal_inj by (auto simp: ToCanonicalJSON_def)


lemma ComputeHash_full:
  "hash_Full (ComputeHash m) = ''sha256:'' @ EncodeToString (Sum256 (projr (ToCanonicalJSON m)))"
  by (simp add: ComputeHash_def ToCanonicalJSON_def Marshal_def Let_def)

lemma ComputeHash_canonical: "canonicalise m = canonicalise n \<Longrightarrow> ComputeHash m = ComputeHash n"
  by (simp add: ComputeHash_def)

lemma full_hash_eq:
  "hash_Full (ComputeHash m) = hash_Full (ComputeHash n) \<longleftrightarrow>
     Sum256 (projr (ToCanonicalJSON m)) = Sum256 (projr (ToCanonicalJSON n))"
  using EncodeToString_inj [OF Sum256_bytes Sum256_bytes] by (auto simp: ComputeHash_full)

lemma ToCanonicalJSON_Inr: "ToCanonicalJSON m = Inr (projr (ToCanonicalJSON m))"
  by (simp add: ToCanonicalJSON_def Marshal_def)

section \<open>Claims\<close>

text \<open>
  C13: the revision hash identifies the configuration. For the merges of two sets of
  configs whose texts are valid UTF-8, the canonical JSON is the same exactly when the
  merged files, units and reboot flag are the same; then the whole hash result is the same;
  and where SHA-256 does not collide on the two texts, equal full hashes imply equal
  configurations.
\<close>

theorem ComputeHash_identifies_configuration:
  assumes "config_utf8 (canonicalise (Some (Merge cs)))"
    and "config_utf8 (canonicalise (Some (Merge ds)))"
    and no_collision:
      "Sum256 (projr (ToCanonicalJSON (Some (Merge cs)))) = Sum256 (projr (ToCanonicalJSON (Some (Merge ds)))) \<longrightarrow>
       ToCanonicalJSON (Some (Merge cs)) = ToCanonicalJSON (Some (Merge ds))"
  shows "(ToCanonicalJSON (Some (Merge cs)) = ToCanonicalJSON (Some (Merge ds))
            \<longleftrightarrow> same_configuration (Merge cs) (Merge ds))
    \<and> (same_configuration (Merge cs) (Merge ds)
            \<longrightarrow> ComputeHash (Some (Merge cs)) = ComputeHash (Some (Merge ds)))
    \<and> (hash_Full (ComputeHash (Some (Merge cs))) = hash_Full (ComputeHash (Some (Merge ds)))
            \<longrightarrow> same_configuration (Merge cs) (Merge ds))"
  using no_collision ToCanonicalJSON_eq [OF assms(1,2)]
  by (auto simp: canonicalise_Merge_eq full_hash_eq intro: ComputeHash_canonical)

theorem ComputeHash_identifies_configuration_witness:
  "ToCanonicalJSON (Some (Merge ex_configs)) = ToCanonicalJSON (Some (Merge (rev ex_configs)))
   \<and> hash_Full (ComputeHash (Some (Merge ex_configs))) = hash_Full (ComputeHash (Some (Merge (rev ex_configs))))
   \<and> same_configuration (Merge ex_configs) (Merge (rev ex_configs))"
proof -
  have m: "same_configuration (Merge ex_configs) (Merge (rev ex_configs))"
    by (simp add: same_configuration_def ex_defs mco_eval Let_def)
  then have c: "canonicalise (Some (Merge (rev ex_configs))) = canonicalise (Some (Merge ex_configs))"
    by (simp add: canonicalise_Merge_eq same_configuration_def)
  have u: "config_utf8 (canonicalise (Some (Merge ex_configs)))"
    by (simp add: canonicalise_Merge ex_configs_files config_utf8_def file_utf8_def unit_utf8_def)
       (simp add: unit_utf8_def ex_defs mco_eval Let_def)
  show ?thesis
    using ComputeHash_identifies_configuration [of ex_configs "rev ex_configs"] u m
    by (simp add: c ToCanonicalJSON_def)
qed

text \<open>
  The names of revisions are well formed. Every hash result carries a 64-digit
  hexadecimal digest, its first ten digits are the short hash (the slice \<open>fullHex[:10]\<close>
  is always in range), and the name of a rendered config is the pool's name, a dash and the
  short hash, so two revisions of one pool have the same name exactly when their short
  hashes agree.
\<close>

theorem RMCName_shape:
  "(\<exists>h. hash_Full (ComputeHash m) = ''sha256:'' @ h \<and> hash_Short (ComputeHash m) = take 10 h
      \<and> length h = 64 \<and> set h \<subseteq> set ''0123456789abcdef'')
   \<and> length (hash_Short (ComputeHash m)) = 10
   \<and> length (RMCName pool (ComputeHash m)) = length pool + 11
   \<and> (RMCName pool (ComputeHash m) = RMCName pool (ComputeHash n)
        \<longleftrightarrow> hash_Short (ComputeHash m) = hash_Short (ComputeHash n))"
proof -
  let ?h = "EncodeToString (Sum256 (projr (ToCanonicalJSON m)))"
  have f: "hash_Full (ComputeHash m) = ''sha256:'' @ ?h" by (rule ComputeHash_full)
  have s: "hash_Short (ComputeHash m) = take 10 ?h"
    by (simp add: ComputeHash_def ToCanonicalJSON_def Marshal_def Let_def)
  have "set ?h \<subseteq> set ''0123456789abcdef''" by (rule EncodeToString_hex [OF Sum256_bytes])
  with f s show ?thesis by (auto simp: RMCName_def)
qed

text \<open>
  The hash leaves the per-file and per-unit reboot requirements out: two sets of configs
  that differ only in which of two configs asks for the reboot get the same revision.
\<close>

lemma hash_ignores_reboot_requirements:
  "let a = [ex_config ''a'' 10 [ex_file ''/etc/a'' ''x''] True, ex_config ''b'' 20 [ex_file ''/etc/b'' ''x''] False];
       b = [ex_config ''a'' 10 [ex_file ''/etc/a'' ''x''] False, ex_config ''b'' 20 [ex_file ''/etc/b'' ''x''] True]
   in ComputeHash (Some (Merge a)) = ComputeHash (Some (Merge b))
      \<and> map_of (mg_FileRebootRequirements (Merge a)) ''/etc/a'' = Some True
      \<and> map_of (mg_FileRebootRequirements (Merge b)) ''/etc/a'' = Some False"
  unfolding Let_def
  by (intro conjI ComputeHash_canonical)
     (simp_all only: canonicalise_Merge_eq, simp_all add: same_configuration_def ex_defs mco_eval Let_def)

end
