(* ===== verification/Annotations.thy ===== *)
theory Annotations
  imports MCO_Types
begin

text \<open>
  \<open>pkg/annotations\<close>: the keys and values through which the controller (which writes the
  desired state) and the agent (which writes the observed state) talk to each other.
\<close>

section \<open>Keys and values\<close>

definition Prefix :: string where "Prefix = ''mco.in-cloud.io/''"
definition DesiredRevision :: string where "DesiredRevision = Prefix @ ''desired-revision''"
definition Pool :: string where "Pool = Prefix @ ''pool''"
definition CurrentRevision :: string where "CurrentRevision = Prefix @ ''current-revision''"
definition AgentState :: string where "AgentState = Prefix @ ''agent-state''"
definition LastError :: string where "LastError = Prefix @ ''last-error''"
definition RebootPending :: string where "RebootPending = Prefix @ ''reboot-pending''"
definition Cordoned :: string where "Cordoned = Prefix @ ''cordoned''"
definition DrainStartedAt :: string where "DrainStartedAt = Prefix @ ''drain-started-at''"
definition DrainRetryCount :: string where "DrainRetryCount = Prefix @ ''drain-retry-count''"
definition Paused :: string where "Paused = Prefix @ ''paused''"
definition ForceReboot :: string where "ForceReboot = Prefix @ ''force-reboot''"
definition DesiredRevisionSetAt :: string where
  "DesiredRevisionSetAt = Prefix @ ''desired-revision-set-at''"

definition ValueTrue :: string where "ValueTrue = ''true''"
definition ValueFalse :: string where "ValueFalse = ''false''"

definition StateIdle :: string where "StateIdle = ''idle''"
definition StateApplying :: string where "StateApplying = ''applying''"
definition StateDone :: string where "StateDone = ''done''"
definition StateError :: string where "StateError = ''error''"

lemmas key_defs [mco_eval] =
  Prefix_def DesiredRevision_def Pool_def CurrentRevision_def AgentState_def LastError_def
  RebootPending_def Cordoned_def DrainStartedAt_def DrainRetryCount_def Paused_def
  ForceReboot_def DesiredRevisionSetAt_def

lemmas value_defs [mco_eval] =
  ValueTrue_def ValueFalse_def StateIdle_def StateApplying_def StateDone_def StateError_def

section \<open>Operations\<close>

definition GetAnnotation :: "annots \<Rightarrow> string \<Rightarrow> string" where
  "GetAnnotation ann key = map_get ann key"

definition GetBoolAnnotation :: "annots \<Rightarrow> string \<Rightarrow> bool" where
  "GetBoolAnnotation ann key \<longleftrightarrow> GetAnnotation ann key = ValueTrue"

definition SetAnnotation :: "annots \<Rightarrow> string \<Rightarrow> string \<Rightarrow> annots" where
  "SetAnnotation ann key v = ann(key \<mapsto> v)"

definition RemoveAnnotation :: "annots \<Rightarrow> string \<Rightarrow> annots" where
  "RemoveAnnotation ann key = ann(key := None)"

definition IsNodePaused :: "annots \<Rightarrow> bool" where
  "IsNodePaused ann \<longleftrightarrow> GetBoolAnnotation ann Paused"

definition NeedsUpdate :: "annots \<Rightarrow> bool" where
  "NeedsUpdate ann \<longleftrightarrow>
     (let desired = GetAnnotation ann DesiredRevision
      in if desired = '''' then False
         else let current = GetAnnotation ann CurrentRevision in desired \<noteq> current)"

definition IsUpToDate :: "annots \<Rightarrow> bool" where
  "IsUpToDate ann \<longleftrightarrow>
     (let desired = GetAnnotation ann DesiredRevision
      in if desired = '''' then True
         else let current = GetAnnotation ann CurrentRevision in desired = current)"

definition IsReady :: "annots \<Rightarrow> bool" where
  "IsReady ann \<longleftrightarrow> IsUpToDate ann \<and> GetAnnotation ann AgentState = StateDone"

lemmas annotation_defs [mco_eval] =
  GetAnnotation_def GetBoolAnnotation_def SetAnnotation_def RemoveAnnotation_def
  IsNodePaused_def NeedsUpdate_def IsUpToDate_def IsReady_def

section \<open>Laws\<close>

text \<open>The twelve keys are distinct, so a write through one is invisible through another.\<close>

definition all_keys :: "string list" where
  "all_keys =
     [DesiredRevision, Pool, CurrentRevision, AgentState, LastError, RebootPending, Cordoned,
      DrainStartedAt, DrainRetryCount, Paused, ForceReboot, DesiredRevisionSetAt]"

lemma distinct_all_keys: "distinct all_keys"
  by (simp add: all_keys_def key_defs)

lemma distinct_rev_all_keys: "distinct (rev all_keys)"
  by (simp add: distinct_all_keys)

lemmas key_neq [simp] =
  distinct_all_keys [unfolded all_keys_def, simplified]
  distinct_rev_all_keys [unfolded all_keys_def rev.simps append.simps, simplified]

lemma value_neq [simp]:
  "ValueTrue \<noteq> ValueFalse" "ValueTrue \<noteq> []" "ValueFalse \<noteq> []"
  "StateIdle \<noteq> StateApplying" "StateIdle \<noteq> StateDone" "StateIdle \<noteq> StateError"
  "StateApplying \<noteq> StateDone" "StateApplying \<noteq> StateError" "StateDone \<noteq> StateError"
  "StateIdle \<noteq> []" "StateApplying \<noteq> []" "StateDone \<noteq> []" "StateError \<noteq> []"
  by (simp_all add: value_defs)

lemmas value_neq_sym [simp] = value_neq [THEN not_sym]

lemma GetAnnotation_simps [simp]:
  "GetAnnotation Map.empty key = []"
  "GetAnnotation (ann(key \<mapsto> v)) key = v"
  "k \<noteq> key \<Longrightarrow> GetAnnotation (ann(key \<mapsto> v)) k = GetAnnotation ann k"
  "GetAnnotation (ann(key := None)) key = []"
  "k \<noteq> key \<Longrightarrow> GetAnnotation (ann(key := None)) k = GetAnnotation ann k"
  by (simp_all add: GetAnnotation_def)

lemma GetBoolAnnotation_simps [simp]:
  "\<not> GetBoolAnnotation Map.empty key"
  "GetBoolAnnotation (ann(key \<mapsto> v)) key \<longleftrightarrow> v = ValueTrue"
  "k \<noteq> key \<Longrightarrow> GetBoolAnnotation (ann(key \<mapsto> v)) k = GetBoolAnnotation ann k"
  "\<not> GetBoolAnnotation (ann(key := None)) key"
  "k \<noteq> key \<Longrightarrow> GetBoolAnnotation (ann(key := None)) k = GetBoolAnnotation ann k"
  by (simp_all add: GetBoolAnnotation_def)

end
