(* ===== verification/Kube_Client.thy ===== *)
theory Kube_Client
  imports Annotations
begin

text \<open>
  The Kubernetes API as the sources see it. \<open>controller-runtime\<close>'s client, the API server
  behind it and \<open>client-go\<close>'s \<open>retry\<close> package are not code of the repository: they are
  the parameter \<open>c\<close> of the definitions that call them, a record of functions over a state
  \<open>'s\<close> that is threaded through the calls. What the sources rely on is stated as the
  laws of the locales below; \<open>In_Memory_API\<close> is a server on which they hold.

  The laws allow reads to be stale, as the cached reads of \<open>controller-runtime\<close> are:
  a \<open>Get\<close> may return an old version of an object, and an \<open>Update\<close> succeeds only when
  the version it carries is the server's current one. A write of somebody else between
  a \<open>Get\<close> and the \<open>Update\<close> that follows therefore shows as a stale read.
\<close>

section \<open>The client\<close>

record 's client =
  GetNode :: "'s \<Rightarrow> string \<Rightarrow> Node result \<times> 's"
  UpdateNode :: "'s \<Rightarrow> Node \<Rightarrow> go_error option \<times> 's"
  ListPods :: "'s \<Rightarrow> string \<Rightarrow> Pod list result \<times> 's"
  CreateEviction :: "'s \<Rightarrow> Pod \<Rightarrow> int option \<Rightarrow> go_error option \<times> 's"
  GetRMC :: "'s \<Rightarrow> string \<Rightarrow> RenderedMachineConfig result \<times> 's"
  CreateRMC :: "'s \<Rightarrow> RenderedMachineConfig \<Rightarrow> go_error option \<times> 's"
  UpdateRMC :: "'s \<Rightarrow> RenderedMachineConfig \<Rightarrow> go_error option \<times> 's"
  DeleteRMC :: "'s \<Rightarrow> RenderedMachineConfig \<Rightarrow> go_error option \<times> 's"
  ListRMCs :: "'s \<Rightarrow> string option \<Rightarrow> RenderedMachineConfig list result \<times> 's"
  GetPool :: "'s \<Rightarrow> string \<Rightarrow> MachineConfigPool result \<times> 's"
  UpdatePoolStatus :: "'s \<Rightarrow> MachineConfigPool \<Rightarrow> go_error option \<times> 's"
  ListPools :: "'s \<Rightarrow> MachineConfigPool list result \<times> 's"
  ListNodes :: "'s \<Rightarrow> (labels \<Rightarrow> bool) \<Rightarrow> Node list result \<times> 's"
  ListMachineConfigs :: "'s \<Rightarrow> (labels \<Rightarrow> bool) \<Rightarrow> MachineConfig list result \<times> 's"
  RetryOnConflict :: "('s \<Rightarrow> go_error option \<times> 's) \<Rightarrow> 's \<Rightarrow> go_error option \<times> 's"

text \<open>
  What \<open>retry.RetryOnConflict\<close> documents: the function runs one or more times, every run
  but the last ends in a conflict, and the last run's error is the result.
\<close>

inductive attempts :: "('s \<Rightarrow> go_error option \<times> 's) \<Rightarrow> 's \<Rightarrow> go_error option \<times> 's \<Rightarrow> bool" for f where
  last_try: "attempts f s (f s)"
| conflict: "f s = (Some e, s1) \<Longrightarrow> IsConflict e \<Longrightarrow> attempts f s1 r \<Longrightarrow> attempts f s r"

text \<open>
  An invariant of the runs that fail with a conflict, and a relation that a run establishes
  from an invariant state, hold of the retried call.
\<close>

lemma attempts_rule:
  assumes "attempts f s r" and "I s"
    and "\<And>s e s1. I s \<Longrightarrow> f s = (Some e, s1) \<Longrightarrow> I s1"
    and "\<And>s. I s \<Longrightarrow> Q (f s)"
  shows "Q r"
  using assms(1,2)
proof (induction rule: attempts.induct)
  case (last_try s)
  then show ?case using assms(4) by blast
next
  case (conflict s e s1 r)
  then show ?case using assms(3) by blast
qed

section \<open>The laws\<close>

text \<open>
  Nodes: \<open>nodes s\<close> is the server's view. \<open>Get\<close> changes nothing and returns the current
  object or an older version of it; \<open>Update\<close> replaces the object and gives it a new version
  when the version sent is current, and changes nothing otherwise.
\<close>

locale node_api =
  fixes c :: "'s client" and nodes :: "'s \<Rightarrow> string \<rightharpoonup> Node"
  assumes get_frame: "GetNode c s n = (r, s') \<Longrightarrow> nodes s' = nodes s"
    and get_version:
      "GetNode c s n = (Inr nd, s') \<Longrightarrow> nodes s n = Some cur \<Longrightarrow>
         node_ResourceVersion cur = node_ResourceVersion nd \<Longrightarrow> cur = nd"
    and get_name: "GetNode c s n = (Inr nd, s') \<Longrightarrow> node_Name nd = n"
    and update_ok:
      "UpdateNode c s nd = (None, s') \<Longrightarrow>
         \<exists>cur v. nodes s (node_Name nd) = Some cur \<and> node_ResourceVersion cur = node_ResourceVersion nd
           \<and> nodes s' = (nodes s)(node_Name nd \<mapsto> nd\<lparr>node_ResourceVersion := v\<rparr>)"
    and update_failed: "UpdateNode c s nd = (Some e, s') \<Longrightarrow> nodes s' = nodes s"
    and retry_attempts: "attempts f s (RetryOnConflict c f s)"

text \<open>
  Pods: \<open>pods s\<close> are the pods as the client lists them, which may be behind the server when the
  client reads from a cache; a list returns those of the node asked for, and all of them; an
  eviction touches only its own pod.
\<close>

abbreviation pod_key :: "Pod \<Rightarrow> string \<times> string" where
  "pod_key p \<equiv> (pod_Namespace p, pod_Name p)"

locale pod_api = node_api +
  fixes pods :: "'s \<Rightarrow> string \<times> string \<rightharpoonup> Pod"
  assumes list_frame: "ListPods c s n = (r, s') \<Longrightarrow> nodes s' = nodes s \<and> pods s' = pods s"
    and list_pods:
      "ListPods c s n = (Inr ps, s') \<Longrightarrow> p \<in> set ps \<Longrightarrow> pods s (pod_key p) = Some p \<and> pod_NodeName p = n"
    and list_complete:
      "ListPods c s n = (Inr ps, s') \<Longrightarrow> pods s k = Some p \<Longrightarrow> pod_NodeName p = n \<Longrightarrow> p \<in> set ps"
    and evict_frame:
      "CreateEviction c s p g = (e, s') \<Longrightarrow>
         nodes s' = nodes s \<and> (\<forall>k. k \<noteq> pod_key p \<longrightarrow> pods s' k = pods s k)"
    and node_pods_frame:
      "GetNode c s n = (rn, s') \<Longrightarrow> pods s' = pods s"
      "UpdateNode c s nd = (e, s') \<Longrightarrow> pods s' = pods s"

text \<open>
  Rendered configurations: \<open>Get\<close> and \<open>List\<close> change nothing; a list holds every object
  once, and with a label selector only objects that carry the label; \<open>Create\<close> adds an
  object under a free name and stamps it with the server's time, \<open>Update\<close> replaces one,
  \<open>Delete\<close> removes one; a failed write changes nothing, and \<open>AlreadyExists\<close> is reported only
  of a taken name. Reads may be stale: what they return need not be what is stored.
\<close>

definition pool_label :: string where
  "pool_label = ''mco.in-cloud.io/pool''"

locale rmc_api =
  fixes c :: "'s client" and rmcs :: "'s \<Rightarrow> string \<rightharpoonup> RenderedMachineConfig"
  assumes rmc_get_frame: "GetRMC c s n = (r, s') \<Longrightarrow> rmcs s' = rmcs s"
    and rmc_get_name: "GetRMC c s n = (Inr rmc, s') \<Longrightarrow> rmc_Name rmc = n"
    and rmc_list_frame: "ListRMCs c s sel = (l, s') \<Longrightarrow> rmcs s' = rmcs s"
    and rmc_list_distinct: "ListRMCs c s sel = (Inr rs, s') \<Longrightarrow> distinct (map rmc_Name rs)"
    and rmc_list_pool:
      "ListRMCs c s (Some pool) = (Inr rs, s') \<Longrightarrow> rmc \<in> set rs \<Longrightarrow> rmc_Labels rmc pool_label = Some pool"
    and rmc_create_ok:
      "CreateRMC c s rmc = (None, s') \<Longrightarrow>
         rmcs s (rmc_Name rmc) = None \<and>
         (\<exists>t. rmcs s' = (rmcs s)(rmc_Name rmc \<mapsto> rmc\<lparr>rmc_CreationTimestamp := t\<rparr>))"
    and rmc_create_failed: "CreateRMC c s rmc = (Some e, s') \<Longrightarrow> rmcs s' = rmcs s"
    and rmc_create_exists: "CreateRMC c s rmc = (Some e, s') \<Longrightarrow> IsAlreadyExists e \<Longrightarrow> rmcs s (rmc_Name rmc) \<noteq> None"
    and rmc_update_ok: "UpdateRMC c s rmc = (None, s') \<Longrightarrow> rmcs s' = (rmcs s)(rmc_Name rmc \<mapsto> rmc)"
    and rmc_update_failed: "UpdateRMC c s rmc = (Some e, s') \<Longrightarrow> rmcs s' = rmcs s"
    and rmc_delete_ok: "DeleteRMC c s rmc = (None, s') \<Longrightarrow> rmcs s' = (rmcs s)(rmc_Name rmc := None)"
    and rmc_delete_failed: "DeleteRMC c s rmc = (Some e, s') \<Longrightarrow> rmcs s' = rmcs s"

end
