(* ===== verification/In_Memory_API.thy ===== *)
theory In_Memory_API
  imports Kube_Client
begin

text \<open>
  A small API server on which the laws of \<open>Kube_Client\<close> hold: objects in association
  lists, versions from a counter, evictions refused for the pods a disruption budget
  protects, four tries for a conflict (\<open>retry.DefaultBackoff\<close> documents \<open>Steps: 4\<close>).
  It shows that the laws can hold together and gives the concrete inputs their witnesses.
\<close>

record cluster =
  cl_nodes :: "(string \<times> Node) list"
  cl_pods :: "((string \<times> string) \<times> Pod) list"
  cl_blocked :: "(string \<times> string) list"
  cl_rmcs :: "(string \<times> RenderedMachineConfig) list"
  cl_pools :: "(string \<times> MachineConfigPool) list"
  cl_configs :: "MachineConfig list"
  cl_version :: nat

definition not_found :: go_error where "not_found = ApiErr NotFound ''not found''"
definition conflict_error :: go_error where "conflict_error = ApiErr Conflict ''object has been modified''"
definition exists_error :: go_error where "exists_error = ApiErr AlreadyExists ''already exists''"
definition budget_error :: go_error where
  "budget_error = ApiErr TooManyRequests ''would violate the disruption budget''"

definition lookup_result :: "('k \<times> 'v) list \<Rightarrow> 'k \<Rightarrow> 'v result" where
  "lookup_result m k = (case map_of m k of None \<Rightarrow> Inl not_found | Some v \<Rightarrow> Inr v)"

definition mem_nodes :: "cluster \<Rightarrow> string \<rightharpoonup> Node" where
  "mem_nodes s n =
     (case map_of (cl_nodes s) n of
        None \<Rightarrow> None | Some nd \<Rightarrow> if node_Name nd = n then Some nd else None)"

definition mem_GetNode :: "cluster \<Rightarrow> string \<Rightarrow> Node result \<times> cluster" where
  "mem_GetNode s n = ((case mem_nodes s n of None \<Rightarrow> Inl not_found | Some nd \<Rightarrow> Inr nd), s)"

definition mem_UpdateNode :: "cluster \<Rightarrow> Node \<Rightarrow> go_error option \<times> cluster" where
  "mem_UpdateNode s nd =
     (case mem_nodes s (node_Name nd) of
        None \<Rightarrow> (Some not_found, s)
      | Some cur \<Rightarrow>
          if node_ResourceVersion cur \<noteq> node_ResourceVersion nd then (Some conflict_error, s)
          else (None,
            s\<lparr>cl_nodes := AList.update (node_Name nd) (nd\<lparr>node_ResourceVersion := Suc (cl_version s)\<rparr>) (cl_nodes s),
              cl_version := Suc (cl_version s)\<rparr>))"

definition mem_pods :: "cluster \<Rightarrow> string \<times> string \<rightharpoonup> Pod" where
  "mem_pods s k =
     (case map_of (cl_pods s) k of None \<Rightarrow> None | Some p \<Rightarrow> if pod_key p = k then Some p else None)"

definition mem_ListPods :: "cluster \<Rightarrow> string \<Rightarrow> Pod list result \<times> cluster" where
  "mem_ListPods s n =
     (Inr (filter (\<lambda>p. mem_pods s (pod_key p) = Some p \<and> pod_NodeName p = n) (map snd (cl_pods s))), s)"

definition mem_CreateEviction :: "cluster \<Rightarrow> Pod \<Rightarrow> int option \<Rightarrow> go_error option \<times> cluster" where
  "mem_CreateEviction s p g =
     (if mem_pods s (pod_key p) = None then (Some not_found, s)
      else if pod_key p \<in> set (cl_blocked s) then (Some budget_error, s)
      else (None, s\<lparr>cl_pods := AList.delete (pod_key p) (cl_pods s)\<rparr>))"

definition mem_rmcs :: "cluster \<Rightarrow> string \<rightharpoonup> RenderedMachineConfig" where
  "mem_rmcs s n =
     (case map_of (cl_rmcs s) n of
        None \<Rightarrow> None | Some r \<Rightarrow> if rmc_Name r = n then Some r else None)"

definition mem_ListRMCs :: "cluster \<Rightarrow> string option \<Rightarrow> RenderedMachineConfig list result \<times> cluster" where
  "mem_ListRMCs s sel =
     (Inr (filter (\<lambda>r. mem_rmcs s (rmc_Name r) = Some r \<and>
             (case sel of None \<Rightarrow> True | Some pool \<Rightarrow> rmc_Labels r pool_label = Some pool))
           (remdups (map snd (cl_rmcs s)))), s)"

definition mem_ListNodes :: "cluster \<Rightarrow> (labels \<Rightarrow> bool) \<Rightarrow> Node list result \<times> cluster" where
  "mem_ListNodes s sel =
     (Inr (filter (\<lambda>n. mem_nodes s (node_Name n) = Some n \<and> sel (node_Labels n)) (remdups (map snd (cl_nodes s)))), s)"

fun retry_upto :: "nat \<Rightarrow> ('s \<Rightarrow> go_error option \<times> 's) \<Rightarrow> 's \<Rightarrow> go_error option \<times> 's" where
  "retry_upto 0 f s = f s"
| "retry_upto (Suc n) f s =
     (case f s of
        (Some e, s1) \<Rightarrow> if IsConflict e then retry_upto n f s1 else (Some e, s1)
      | (None, s1) \<Rightarrow> (None, s1))"

definition mem_client :: "cluster client" where
  "mem_client =
     \<lparr>GetNode = mem_GetNode, UpdateNode = mem_UpdateNode, ListPods = mem_ListPods,
      CreateEviction = mem_CreateEviction,
      GetRMC = (\<lambda>s n. (case mem_rmcs s n of None \<Rightarrow> Inl not_found | Some r \<Rightarrow> Inr r, s)),
      CreateRMC = (\<lambda>s r. if mem_rmcs s (rmc_Name r) \<noteq> None then (Some exists_error, s)
                         else (None, s\<lparr>cl_rmcs := AList.update (rmc_Name r) r (cl_rmcs s)\<rparr>)),
      UpdateRMC = (\<lambda>s r. if mem_rmcs s (rmc_Name r) = None then (Some not_found, s)
                         else (None, s\<lparr>cl_rmcs := AList.update (rmc_Name r) r (cl_rmcs s)\<rparr>)),
      DeleteRMC = (\<lambda>s r. if mem_rmcs s (rmc_Name r) = None then (Some not_found, s)
                         else (None, s\<lparr>cl_rmcs := AList.delete (rmc_Name r) (cl_rmcs s)\<rparr>)),
      ListRMCs = mem_ListRMCs,
      GetPool = (\<lambda>s n. (lookup_result (cl_pools s) n, s)),
      UpdatePoolStatus =
        (\<lambda>s p. case map_of (cl_pools s) (pool_Name p) of
                 None \<Rightarrow> (Some not_found, s)
               | Some cur \<Rightarrow> (None, s\<lparr>cl_pools :=
                     AList.update (pool_Name p) (cur\<lparr>pool_Status := pool_Status p\<rparr>) (cl_pools s)\<rparr>)),
      ListPools = (\<lambda>s. (Inr (map snd (cl_pools s)), s)),
      ListNodes = mem_ListNodes,
      ListMachineConfigs = (\<lambda>s sel. (Inr (filter (\<lambda>m. sel (mc_Labels m)) (cl_configs s)), s)),
      RetryOnConflict = retry_upto 3\<rparr>"

lemmas mem_defs =
  not_found_def conflict_error_def exists_error_def budget_error_def lookup_result_def mem_nodes_def
  mem_GetNode_def mem_UpdateNode_def mem_pods_def mem_ListPods_def mem_CreateEviction_def
  mem_rmcs_def mem_ListRMCs_def mem_ListNodes_def pool_label_def mem_client_def

lemma retry_upto_attempts: "attempts f s (retry_upto n f s)"
proof (induction n arbitrary: s)
  case 0
  then show ?case by (simp add: attempts.last_try)
next
  case (Suc n)
  show ?case
  proof (cases "\<exists>e s1. f s = (Some e, s1) \<and> IsConflict e")
    case True
    then obtain e s1 where f: "f s = (Some e, s1)" "IsConflict e" by blast
    then have "attempts f s (retry_upto n f s1)" using Suc attempts.conflict by metis
    then show ?thesis by (simp add: f)
  next
    case False
    then have "retry_upto (Suc n) f s = f s"
      by (cases "f s"; cases "fst (f s)") auto
    then show ?thesis by (simp only: attempts.last_try)
  qed
qed

lemma mem_nodes_update:
  "mem_nodes (s\<lparr>cl_nodes := AList.update (node_Name nd) nd (cl_nodes s), cl_version := v\<rparr>)
     = (mem_nodes s)(node_Name nd \<mapsto> nd)"
  by (auto simp: mem_nodes_def update_conv fun_eq_iff)

lemma mem_pods_Some: "mem_pods s k = Some p \<Longrightarrow> pod_key p = k \<and> p \<in> set (map snd (cl_pods s))"
proof -
  assume "mem_pods s k = Some p"
  then have "map_of (cl_pods s) k = Some p" and k: "pod_key p = k"
    by (auto simp: mem_pods_def split: option.splits if_splits)
  then have "(k, p) \<in> set (cl_pods s)" by (simp add: map_of_SomeD)
  then show ?thesis using k by force
qed

interpretation mem: pod_api mem_client mem_nodes mem_pods
proof
  fix s s' :: cluster and n nd cur and r :: "Node result" and e g p ps
    and rp :: "Pod list result" and eo :: "go_error option" and k f
  show "GetNode mem_client s n = (r, s') \<Longrightarrow> mem_nodes s' = mem_nodes s"
    by (simp add: mem_client_def mem_GetNode_def)
  show "GetNode mem_client s n = (r, s') \<Longrightarrow> mem_pods s' = mem_pods s"
    by (simp add: mem_client_def mem_GetNode_def)
  show "GetNode mem_client s n = (Inr nd, s') \<Longrightarrow> mem_nodes s n = Some cur \<Longrightarrow>
      node_ResourceVersion cur = node_ResourceVersion nd \<Longrightarrow> cur = nd"
    by (simp add: mem_client_def mem_GetNode_def)
  show "GetNode mem_client s n = (Inr nd, s') \<Longrightarrow> node_Name nd = n"
    by (auto simp: mem_client_def mem_GetNode_def mem_nodes_def split: option.splits if_splits)
  show "UpdateNode mem_client s nd = (None, s') \<Longrightarrow>
      \<exists>cur v. mem_nodes s (node_Name nd) = Some cur \<and> node_ResourceVersion cur = node_ResourceVersion nd
        \<and> mem_nodes s' = (mem_nodes s)(node_Name nd \<mapsto> nd\<lparr>node_ResourceVersion := v\<rparr>)"
    using mem_nodes_update [where s = s and nd = "nd\<lparr>node_ResourceVersion := Suc (cl_version s)\<rparr>"]
    by (auto simp: mem_client_def mem_UpdateNode_def split: option.splits if_splits)
  show "UpdateNode mem_client s nd = (Some e, s') \<Longrightarrow> mem_nodes s' = mem_nodes s"
    by (auto simp: mem_client_def mem_UpdateNode_def split: option.splits if_splits)
  show "UpdateNode mem_client s nd = (eo, s') \<Longrightarrow> mem_pods s' = mem_pods s"
    by (auto simp: mem_client_def mem_UpdateNode_def mem_pods_def fun_eq_iff split: option.splits if_splits)
  show "attempts f s (RetryOnConflict mem_client f s)"
    by (simp add: mem_client_def retry_upto_attempts)
  show "ListPods mem_client s n = (rp, s') \<Longrightarrow> mem_nodes s' = mem_nodes s \<and> mem_pods s' = mem_pods s"
    by (simp add: mem_client_def mem_ListPods_def)
  show "ListPods mem_client s n = (Inr ps, s') \<Longrightarrow> p \<in> set ps \<Longrightarrow>
      mem_pods s (pod_key p) = Some p \<and> pod_NodeName p = n"
    by (auto simp: mem_client_def mem_ListPods_def)
  show "ListPods mem_client s n = (Inr ps, s') \<Longrightarrow> mem_pods s k = Some p \<Longrightarrow> pod_NodeName p = n \<Longrightarrow> p \<in> set ps"
    using mem_pods_Some [of s k p] by (force simp: mem_client_def mem_ListPods_def)
  show "CreateEviction mem_client s p g = (eo, s') \<Longrightarrow>
      mem_nodes s' = mem_nodes s \<and> (\<forall>k. k \<noteq> pod_key p \<longrightarrow> mem_pods s' k = mem_pods s k)"
    by (auto simp: mem_client_def mem_CreateEviction_def mem_pods_def mem_nodes_def delete_conv fun_eq_iff
        split: option.splits if_splits)
qed

lemma mem_rmcs_update:
  "mem_rmcs (s\<lparr>cl_rmcs := AList.update (rmc_Name r) r (cl_rmcs s)\<rparr>) = (mem_rmcs s)(rmc_Name r \<mapsto> r)"
  "mem_rmcs (s\<lparr>cl_rmcs := AList.delete n (cl_rmcs s)\<rparr>) = (mem_rmcs s)(n := None)"
  by (auto simp: mem_rmcs_def update_conv delete_conv fun_eq_iff)

lemma mem_rmcs_name: "mem_rmcs s n = Some r \<Longrightarrow> rmc_Name r = n"
  by (auto simp: mem_rmcs_def split: option.splits if_splits)

interpretation mem_rmc: rmc_api mem_client mem_rmcs
proof
  fix s s' :: cluster and n sel rmc rs pool e and r :: "RenderedMachineConfig result"
    and l :: "RenderedMachineConfig list result"
  show "GetRMC mem_client s n = (r, s') \<Longrightarrow> mem_rmcs s' = mem_rmcs s"
    by (simp add: mem_client_def)
  show "GetRMC mem_client s n = (Inr rmc, s') \<Longrightarrow> rmc_Name rmc = n"
    by (auto simp: mem_client_def mem_rmcs_name split: option.splits)
  show "ListRMCs mem_client s sel = (l, s') \<Longrightarrow> mem_rmcs s' = mem_rmcs s"
    by (simp add: mem_client_def mem_ListRMCs_def)
  show "ListRMCs mem_client s (Some pool) = (Inr rs, s') \<Longrightarrow> rmc \<in> set rs \<Longrightarrow>
      rmc_Labels rmc pool_label = Some pool"
    by (auto simp: mem_client_def mem_ListRMCs_def)
  show "ListRMCs mem_client s sel = (Inr rs, s') \<Longrightarrow> distinct (map rmc_Name rs)"
    by (auto simp: mem_client_def mem_ListRMCs_def distinct_map inj_on_def)
  show "CreateRMC mem_client s rmc = (None, s') \<Longrightarrow> mem_rmcs s (rmc_Name rmc) = None \<and>
      (\<exists>t. mem_rmcs s' = (mem_rmcs s)(rmc_Name rmc \<mapsto> rmc\<lparr>rmc_CreationTimestamp := t\<rparr>))"
    by (auto simp: mem_client_def mem_rmcs_update split: if_splits
        intro: exI [of _ "rmc_CreationTimestamp rmc"])
  show "CreateRMC mem_client s rmc = (Some e, s') \<Longrightarrow> mem_rmcs s' = mem_rmcs s"
    by (auto simp: mem_client_def split: if_splits)
  show "CreateRMC mem_client s rmc = (Some e, s') \<Longrightarrow> IsAlreadyExists e \<Longrightarrow> mem_rmcs s (rmc_Name rmc) \<noteq> None"
    by (auto simp: mem_client_def exists_error_def error_defs split: if_splits)
  show "UpdateRMC mem_client s rmc = (None, s') \<Longrightarrow> mem_rmcs s' = (mem_rmcs s)(rmc_Name rmc \<mapsto> rmc)"
    by (auto simp: mem_client_def mem_rmcs_update split: if_splits)
  show "UpdateRMC mem_client s rmc = (Some e, s') \<Longrightarrow> mem_rmcs s' = mem_rmcs s"
    by (auto simp: mem_client_def split: if_splits)
  show "DeleteRMC mem_client s rmc = (None, s') \<Longrightarrow> mem_rmcs s' = (mem_rmcs s)(rmc_Name rmc := None)"
    by (auto simp: mem_client_def mem_rmcs_update split: if_splits)
  show "DeleteRMC mem_client s rmc = (Some e, s') \<Longrightarrow> mem_rmcs s' = mem_rmcs s"
    by (auto simp: mem_client_def split: if_splits)
qed

end
