(* ===== verification/Renderer_Render.thy ===== *)
theory Renderer_Render
  imports Renderer_Validate Renderer_Hash In_Memory_API
begin

text \<open>
  \<open>internal/renderer/render.go\<close>: from merged configs to the RenderedMachineConfig object,
  with the check for an object of the same name in the cluster. A new object has no
  creation time and no owner yet.
\<close>

section \<open>Definitions\<close>

record RenderResult =
  rr_RMC :: RenderedMachineConfig
  rr_Collision :: bool
  rr_Existing :: bool

definition BuildRMC :: "string \<Rightarrow> MergedConfig \<Rightarrow> MachineConfigPool option \<Rightarrow> RenderedMachineConfig" where
  "BuildRMC poolName merged pool =
     (let hash = ComputeHash (Some merged);
          config = \<lparr>rc_Files = mg_Files merged, rc_Systemd = \<lparr>systemd_Units = mg_Units merged\<rparr>\<rparr>;
          sources = map (\<lambda>s. \<lparr>src_Name = src_Name s, src_Priority = src_Priority s\<rparr>) (mg_Sources merged);
          rebootSpec =
            (case pool of
               Some p \<Rightarrow>
                 \<lparr>rrs_Required = mg_RebootRequired merged,
                  rrs_Strategy = rp_Strategy (ps_Reboot (pool_Spec p)),
                  rrs_MinIntervalSeconds = rp_MinIntervalSeconds (ps_Reboot (pool_Spec p))\<rparr>
             | None \<Rightarrow>
                 \<lparr>rrs_Required = mg_RebootRequired merged, rrs_Strategy = ''Never'',
                  rrs_MinIntervalSeconds = 1800\<rparr>);
          configHash = TrimPrefix (hash_Full hash) ''sha256:'';
          rebootRequirements =
            \<lparr>rbr_Files = mg_FileRebootRequirements merged, rbr_Units = mg_UnitRebootRequirements merged\<rparr>
      in \<lparr>rmc_Name = RMCName poolName hash,
          rmc_Labels = [''mco.in-cloud.io/pool'' \<mapsto> poolName],
          rmc_CreationTimestamp = zero_time,
          rmc_OwnerPool = None,
          rmc_Spec =
            \<lparr>rmcs_PoolName = poolName, rmcs_Revision = hash_Short hash, rmcs_ConfigHash = configHash,
             rmcs_Config = config, rmcs_Sources = sources,
             rmcs_RebootRequirements = rebootRequirements, rmcs_Reboot = rebootSpec\<rparr>\<rparr>)"

text \<open>The two results of \<open>CheckExistingRMC\<close> are independent: a collision returns both.\<close>

definition CheckExistingRMC ::
  "'s client \<Rightarrow> RenderedMachineConfig \<Rightarrow> 's \<Rightarrow> (RenderedMachineConfig option \<times> go_error option) \<times> 's"
where
  "CheckExistingRMC c newRMC s =
     (case GetRMC c s (rmc_Name newRMC) of
        (Inl err, s1) \<Rightarrow>
          if \<not> IsNotFound err then ((None, Some (Wrap ''checking existing RMC'' err)), s1)
          else ((None, None), s1)
      | (Inr existing, s1) \<Rightarrow>
          if rmcs_ConfigHash (rmc_Spec existing) = rmcs_ConfigHash (rmc_Spec newRMC)
          then ((Some existing, None), s1)
          else ((Some existing,
                 Some (HashCollision (''name='' @ rmc_Name newRMC
                   @ '' existing_hash='' @ rmcs_ConfigHash (rmc_Spec existing)
                   @ '' new_hash='' @ rmcs_ConfigHash (rmc_Spec newRMC)))), s1))"

definition HandleCollision :: "RenderedMachineConfig \<Rightarrow> int \<Rightarrow> RenderedMachineConfig" where
  "HandleCollision rmc n = rmc\<lparr>rmc_Name := rmc_Name rmc @ ''-'' @ Itoa n\<rparr>"

definition validateMerged :: "MergedConfig option \<Rightarrow> go_error option" where
  "validateMerged merged =
     (case merged of
        None \<Rightarrow> Some (Err ''merged config is nil'')
      | Some m \<Rightarrow>
          (case range_validate ValidateFileSpec ''file'' 0 (mg_Files m) of
             Some err \<Rightarrow> Some err
           | None \<Rightarrow> range_validate ValidateUnitSpec ''unit'' 0 (mg_Units m)))"

definition Render ::
  "'s client \<Rightarrow> string \<Rightarrow> MachineConfig list \<Rightarrow> MachineConfigPool option \<Rightarrow> 's \<Rightarrow> RenderResult result \<times> 's"
where
  "Render c poolName configs pool s =
     (if poolName = [] then (Inl (Err ''poolName is required''), s)
      else let merged = Merge configs in
        (case validateMerged (Some merged) of
           Some err \<Rightarrow> (Inl (Wrap ''validation failed'' err), s)
         | None \<Rightarrow>
             (let rmc = BuildRMC poolName merged pool in
              (case CheckExistingRMC c rmc s of
                 ((existing, Some err), s1) \<Rightarrow>
                   if IsHashCollision err
                   then (Inr \<lparr>rr_RMC = HandleCollision rmc 1, rr_Collision = True, rr_Existing = False\<rparr>, s1)
                   else (Inl err, s1)
               | ((Some existing, None), s1) \<Rightarrow>
                   (Inr \<lparr>rr_RMC = existing, rr_Collision = False, rr_Existing = True\<rparr>, s1)
               | ((None, None), s1) \<Rightarrow>
                   (Inr \<lparr>rr_RMC = rmc, rr_Collision = False, rr_Existing = False\<rparr>, s1)))))"

lemmas render_defs [mco_eval] =
  BuildRMC_def CheckExistingRMC_def HandleCollision_def validateMerged_def Render_def

section \<open>Lemmas\<close>

text \<open>The files and units of a merge, checked as \<open>validateMerged\<close> checks them.\<close>

definition merged_ok :: "MergedConfig \<Rightarrow> bool" where
  "merged_ok m \<longleftrightarrow>
     list_all file_ok (mg_Files m) \<and> list_all (\<lambda>u. manageable_unit (unit_Name u)) (mg_Units m)"

lemma validateMerged_None: "validateMerged (Some m) = None \<longleftrightarrow> merged_ok m"
proof (cases "range_validate ValidateFileSpec ''file'' 0 (mg_Files m)")
  case None
  then have "list_all file_ok (mg_Files m)"
    by (simp add: range_validate_None ValidateFileSpec_None list_all_iff)
  then show ?thesis
    unfolding validateMerged_def option.case None merged_ok_def
    by (simp add: range_validate_None ValidateUnitSpec_None list_all_iff)
next
  case (Some e)
  then have "\<not> list_all file_ok (mg_Files m)"
    by (metis ValidateFileSpec_None list_all_iff option.distinct(1) range_validate_None)
  with Some show ?thesis by (simp add: validateMerged_def merged_ok_def)
qed

lemma BuildRMC_simps [simp]:
  "rmc_Name (BuildRMC n m p) = n @ ''-'' @ hash_Short (ComputeHash (Some m))"
  "rmcs_PoolName (rmc_Spec (BuildRMC n m p)) = n"
  "rmcs_ConfigHash (rmc_Spec (BuildRMC n m p)) = TrimPrefix (hash_Full (ComputeHash (Some m))) ''sha256:''"
  "rc_Files (rmcs_Config (rmc_Spec (BuildRMC n m p))) = mg_Files m"
  "systemd_Units (rc_Systemd (rmcs_Config (rmc_Spec (BuildRMC n m p)))) = mg_Units m"
  by (simp_all add: BuildRMC_def Let_def RMCName_def)

lemma HandleCollision_simps [simp]:
  "rmc_Spec (HandleCollision r n) = rmc_Spec r"
  "rmc_Name (HandleCollision r n) = rmc_Name r @ ''-'' @ Itoa n"
  by (simp_all add: HandleCollision_def)

text \<open>The full hash without its prefix: 64 hexadecimal digits.\<close>

lemma config_hash:
  "TrimPrefix (hash_Full (ComputeHash m)) ''sha256:'' = EncodeToString (Sum256 (projr (ToCanonicalJSON m)))"
  by (simp only: ComputeHash_full TrimPrefix_append)

section \<open>Claims\<close>

text \<open>
  Every branch of \<open>Render\<close>. When it returns a result, the pool has a name, the
  merged files and units passed validation, and the object returned carries the hash of
  exactly this merge: it is the cluster's object of that name when that object has the same
  hash, otherwise the freshly built one, under the name \<open>pool-hash\<close> when the name is
  free and under \<open>pool-hash-1\<close> on a collision. When it fails, the name was empty, the
  validation failed, or the lookup failed with an error other than \<open>NotFound\<close>.
\<close>

theorem Render_outcome:
  "case Render c poolName cs pool s of
     (Inr r, s') \<Rightarrow>
       poolName \<noteq> [] \<and> merged_ok (Merge cs)
       \<and> rmcs_ConfigHash (rmc_Spec (rr_RMC r)) = EncodeToString (Sum256 (projr (ToCanonicalJSON (Some (Merge cs)))))
       \<and> (if rr_Existing r
          then \<not> rr_Collision r
            \<and> GetRMC c s (RMCName poolName (ComputeHash (Some (Merge cs)))) = (Inr (rr_RMC r), s')
          else rr_RMC r = (BuildRMC poolName (Merge cs) pool)\<lparr>rmc_Name :=
            RMCName poolName (ComputeHash (Some (Merge cs))) @ (if rr_Collision r then ''-1'' else [])\<rparr>)
   | (Inl e, s') \<Rightarrow>
       poolName = [] \<or> \<not> merged_ok (Merge cs)
       \<or> (\<exists>err. GetRMC c s (RMCName poolName (ComputeHash (Some (Merge cs)))) = (Inl err, s')
            \<and> \<not> IsNotFound err \<and> e = Wrap ''checking existing RMC'' err)"
proof (cases "poolName = [] \<or> \<not> merged_ok (Merge cs)")
  case True
  then show ?thesis
    by (auto simp: Render_def Let_def validateMerged_None [symmetric])
next
  case False
  have one: "Itoa 1 = ''1''" by (simp add: mco_eval)
  have v: "validateMerged (Some (Merge cs)) = None"
    using False by (simp add: validateMerged_None)
  obtain g s1 where g: "GetRMC c s (RMCName poolName (ComputeHash (Some (Merge cs)))) = (g, s1)"
    by (cases "GetRMC c s (RMCName poolName (ComputeHash (Some (Merge cs))))")
  show ?thesis
    using False v g
    by (cases g)
       (auto simp: Render_def Let_def CheckExistingRMC_def RMCName_def config_hash one HandleCollision_def)
qed

definition ex_empty_cluster :: cluster where
  "ex_empty_cluster =
     \<lparr>cl_nodes = [], cl_pods = [], cl_blocked = [], cl_rmcs = [], cl_pools = [], cl_configs = [], cl_version = 0\<rparr>"

theorem Render_outcome_witness:
  "\<exists>r. Render mem_client ''worker'' [] None ex_empty_cluster = (Inr r, ex_empty_cluster)
     \<and> rmcs_ConfigHash (rmc_Spec (rr_RMC r)) = EncodeToString (Sum256 (projr (ToCanonicalJSON (Some (Merge [])))))
     \<and> merged_ok (Merge [])"
proof -
  have m: "validateMerged (Some (Merge [])) = None" by (simp add: validateMerged_def Merge_def)
  then obtain r where r: "Render mem_client ''worker'' [] None ex_empty_cluster = (Inr r, ex_empty_cluster)"
    by (simp add: Render_def Let_def CheckExistingRMC_def mem_defs ex_empty_cluster_def IsNotFound_def)
  show ?thesis
    using Render_outcome [where c = mem_client and poolName = "''worker''" and cs = "[]" and pool = None
        and s = ex_empty_cluster] r by auto
qed

end
