(* ===== verification/Cordon.thy ===== *)
theory Cordon
  imports In_Memory_API
begin

text \<open>
  \<open>internal/controller/cordon.go\<close>: cordoning, uncordoning and annotating a node. All four
  writers have the same closure under \<open>retry.RetryOnConflict\<close>: read the node, return when
  there is nothing to do, change it, send it back. \<open>read_modify_write\<close> is that closure;
  its argument maps the node read to the node to send, or to \<open>None\<close> for the early return.
\<close>

section \<open>Definitions\<close>

definition read_modify_write ::
  "'s client \<Rightarrow> string \<Rightarrow> (Node \<Rightarrow> Node option) \<Rightarrow> 's \<Rightarrow> go_error option \<times> 's"
where
  "read_modify_write c name f s =
     (case GetNode c s name of
        (Inl err, s1) \<Rightarrow> (Some err, s1)
      | (Inr current, s1) \<Rightarrow>
          (case f current of None \<Rightarrow> (None, s1) | Some changed \<Rightarrow> UpdateNode c s1 changed))"

definition cordon_change :: "Node \<Rightarrow> Node option" where
  "cordon_change current =
     (if node_Unschedulable current \<and> GetBoolAnnotation (node_Annotations current) Cordoned then None
      else Some (current\<lparr>node_Unschedulable := True,
                         node_Annotations := (node_Annotations current)(Cordoned \<mapsto> ValueTrue)\<rparr>))"

definition CordonNode :: "'s client \<Rightarrow> Node \<Rightarrow> 's \<Rightarrow> go_error option \<times> 's" where
  "CordonNode c node s =
     RetryOnConflict c (read_modify_write c (node_Name node) cordon_change) s"

definition uncordon_change :: "Node \<Rightarrow> Node option" where
  "uncordon_change current =
     (if \<not> node_Unschedulable current \<and> \<not> GetBoolAnnotation (node_Annotations current) Cordoned then None
      else Some (current\<lparr>node_Unschedulable := False,
                         node_Annotations := (node_Annotations current)
                           (Cordoned := None, DrainStartedAt := None, DrainRetryCount := None)\<rparr>))"

definition UncordonNode :: "'s client \<Rightarrow> Node \<Rightarrow> 's \<Rightarrow> go_error option \<times> 's" where
  "UncordonNode c node s =
     RetryOnConflict c (read_modify_write c (node_Name node) uncordon_change) s"

definition IsNodeCordoned :: "Node \<Rightarrow> bool" where
  "IsNodeCordoned node = GetBoolAnnotation (node_Annotations node) Cordoned"

definition ShouldUncordon :: "Node \<Rightarrow> string \<Rightarrow> bool" where
  "ShouldUncordon node targetRevision =
     (if \<not> IsNodeCordoned node then False
      else let current = GetAnnotation (node_Annotations node) CurrentRevision;
               state = GetAnnotation (node_Annotations node) AgentState
           in current = targetRevision \<and> state = StateDone)"

definition annotate_change :: "string \<Rightarrow> string \<Rightarrow> Node \<Rightarrow> Node option" where
  "annotate_change key v current =
     (if map_get (node_Annotations current) key = v then None
      else Some (current\<lparr>node_Annotations := (node_Annotations current)(key \<mapsto> v)\<rparr>))"

definition SetNodeAnnotation :: "'s client \<Rightarrow> Node \<Rightarrow> string \<Rightarrow> string \<Rightarrow> 's \<Rightarrow> go_error option \<times> 's" where
  "SetNodeAnnotation c node key v s =
     RetryOnConflict c (read_modify_write c (node_Name node) (annotate_change key v)) s"

definition unannotate_change :: "string \<Rightarrow> Node \<Rightarrow> Node option" where
  "unannotate_change key current =
     (if map_get (node_Annotations current) key = [] then None
      else Some (current\<lparr>node_Annotations := (node_Annotations current)(key := None)\<rparr>))"

definition RemoveNodeAnnotation :: "'s client \<Rightarrow> Node \<Rightarrow> string \<Rightarrow> 's \<Rightarrow> go_error option \<times> 's" where
  "RemoveNodeAnnotation c node key s =
     RetryOnConflict c (read_modify_write c (node_Name node) (unannotate_change key)) s"

definition GetIntAnnotation :: "Node \<Rightarrow> string \<Rightarrow> int" where
  "GetIntAnnotation node key =
     (let val = GetAnnotation (node_Annotations node) key in if val = [] then 0 else Sscanf_d val)"

lemmas node_changes =
  cordon_change_def uncordon_change_def annotate_change_def unannotate_change_def

lemmas cordon_defs [mco_eval] =
  read_modify_write_def cordon_change_def CordonNode_def uncordon_change_def UncordonNode_def
  IsNodeCordoned_def ShouldUncordon_def annotate_change_def SetNodeAnnotation_def
  unannotate_change_def RemoveNodeAnnotation_def GetIntAnnotation_def

section \<open>What a writer promises\<close>

text \<open>
  The specification of a writer of node \<open>n\<close> with change \<open>f\<close>, on the server's view of the
  nodes: it fails and changes nothing; or it read a node that needs no change, and changes
  nothing (\<open>R\<close> says which nodes a read can return); or the server's current node is replaced
  by its change, under a new version. In particular no concurrent write is lost: what is
  changed is what the server had.
\<close>

inductive node_write ::
  "(Node \<Rightarrow> bool) \<Rightarrow> (string \<rightharpoonup> Node) \<Rightarrow> string \<Rightarrow> (Node \<Rightarrow> Node option) \<Rightarrow> go_error option
     \<Rightarrow> (string \<rightharpoonup> Node) \<Rightarrow> bool"
  for R m n f
where
  failed: "node_write R m n f (Some e) m"
| unchanged: "R cur \<Longrightarrow> f cur = None \<Longrightarrow> node_write R m n f None m"
| written:
    "m n = Some cur \<Longrightarrow> f cur = Some new \<Longrightarrow>
     node_write R m n f None (m(n \<mapsto> new\<lparr>node_ResourceVersion := v\<rparr>))"

inductive_cases node_write_ok: "node_write R m n f None m'"
inductive_cases node_write_err: "node_write R m n f (Some e) m'"

lemma node_write_others: "node_write R m n f r m' \<Longrightarrow> k \<noteq> n \<Longrightarrow> m' k = m k"
  by (auto elim: node_write.cases)

lemma node_write_failed: "node_write R m n f (Some e) m' \<Longrightarrow> m' = m"
  by (auto elim: node_write_err)

text \<open>A change keeps the name and the version it was read with.\<close>

definition keeps_meta :: "(Node \<Rightarrow> Node option) \<Rightarrow> bool" where
  "keeps_meta f \<longleftrightarrow>
     (\<forall>cur new. f cur = Some new \<longrightarrow>
        node_Name new = node_Name cur \<and> node_ResourceVersion new = node_ResourceVersion cur)"

lemma keeps_meta_changes [simp, intro]:
  "keeps_meta cordon_change" "keeps_meta uncordon_change"
  "keeps_meta (annotate_change key v)" "keeps_meta (unannotate_change key)"
  by (auto simp: keeps_meta_def node_changes)

text \<open>The nodes that a read of \<open>n\<close> returns while the server's nodes are those of \<open>s\<close>.\<close>

definition node_reads :: "'s client \<Rightarrow> ('s \<Rightarrow> string \<rightharpoonup> Node) \<Rightarrow> 's \<Rightarrow> string \<Rightarrow> Node \<Rightarrow> bool" where
  "node_reads c nodes s n cur \<longleftrightarrow> (\<exists>t t1. nodes t = nodes s \<and> GetNode c t n = (Inr cur, t1))"

context node_api
begin

lemma reads_state: "nodes t = nodes s \<Longrightarrow> node_reads c nodes t n = node_reads c nodes s n"
  by (simp add: node_reads_def fun_eq_iff)

lemma rmw_write:
  assumes "keeps_meta f" and res: "read_modify_write c n f s = (r, s')"
  shows "node_write (node_reads c nodes s n) (nodes s) n f r (nodes s')"
proof -
  obtain g s1 where g: "GetNode c s n = (g, s1)" by (cases "GetNode c s n")
  have n1: "nodes s1 = nodes s" using get_frame [OF g] .
  show ?thesis
  proof (cases g)
    case (Inl err)
    then show ?thesis using res n1 by (auto simp: read_modify_write_def g intro: node_write.failed)
  next
    case (Inr cur)
    have nm: "node_Name cur = n" using g Inr get_name by blast
    have rd: "node_reads c nodes s n cur" using g Inr unfolding node_reads_def by blast
    show ?thesis
    proof (cases "f cur")
      case None
      then show ?thesis
        using res n1 rd by (auto simp: read_modify_write_def g Inr intro: node_write.unchanged)
    next
      case (Some new)
      have u: "UpdateNode c s1 new = (r, s')" using res by (simp add: read_modify_write_def g Inr Some)
      have meta: "node_Name new = n" "node_ResourceVersion new = node_ResourceVersion cur"
        using assms Some nm by (auto simp: keeps_meta_def)
      show ?thesis
      proof (cases r)
        case None
        then obtain old v where old: "nodes s n = Some old" "node_ResourceVersion old = node_ResourceVersion cur"
          "nodes s' = (nodes s)(n \<mapsto> new\<lparr>node_ResourceVersion := v\<rparr>)"
          using u update_ok [of s1 new s'] meta n1 by auto
        have "old = cur" using get_version g Inr old(1,2) by blast
        then show ?thesis using old Some None by (auto intro: node_write.written)
      next
        case (Some e)
        then show ?thesis
          using u update_failed [of s1 new e s'] n1 by (auto intro: node_write.failed)
      qed
    qed
  qed
qed

lemma retry_write:
  assumes f: "keeps_meta f" and res: "RetryOnConflict c (read_modify_write c n f) s = (r, s')"
  shows "node_write (node_reads c nodes s n) (nodes s) n f r (nodes s')"
proof -
  let ?Q = "\<lambda>(r, s'). node_write (node_reads c nodes s n) (nodes s) n f r (nodes s')"
  have "?Q (RetryOnConflict c (read_modify_write c n f) s)"
  proof (rule attempts_rule [OF retry_attempts, where I = "\<lambda>t. nodes t = nodes s"])
    show "nodes t1 = nodes s" if "nodes t = nodes s" "read_modify_write c n f t = (Some e, t1)" for t e t1
      using rmw_write [OF f that(2)] that(1) by (simp add: node_write_failed)
    show "?Q (read_modify_write c n f t)" if "nodes t = nodes s" for t
      using rmw_write [OF f, of n t] that reads_state [of t s] by (auto split: prod.splits)
  qed simp
  then show ?thesis by (simp add: res)
qed

lemma CordonNode_write:
  "CordonNode c node s = (r, s') \<Longrightarrow> node_write (node_reads c nodes s (node_Name node)) (nodes s) (node_Name node) cordon_change r (nodes s')"
  unfolding CordonNode_def by (rule retry_write) simp

lemma UncordonNode_write:
  "UncordonNode c node s = (r, s') \<Longrightarrow> node_write (node_reads c nodes s (node_Name node)) (nodes s) (node_Name node) uncordon_change r (nodes s')"
  unfolding UncordonNode_def by (rule retry_write) simp

lemma SetNodeAnnotation_write:
  "SetNodeAnnotation c node key v s = (r, s') \<Longrightarrow>
     node_write (node_reads c nodes s (node_Name node)) (nodes s) (node_Name node) (annotate_change key v) r (nodes s')"
  unfolding SetNodeAnnotation_def by (rule retry_write) simp

lemma RemoveNodeAnnotation_write:
  "RemoveNodeAnnotation c node key s = (r, s') \<Longrightarrow>
     node_write (node_reads c nodes s (node_Name node)) (nodes s) (node_Name node) (unannotate_change key) r (nodes s')"
  unfolding RemoveNodeAnnotation_def by (rule retry_write) simp

end

section \<open>Fresh reads\<close>

text \<open>Where reads are current, a writer that returns without error has done its work.\<close>

locale fresh_node_api = node_api +
  assumes get_fresh: "GetNode c s n = (Inr nd, s') \<Longrightarrow> nodes s n = Some nd"
begin

lemma write_done:
  assumes "node_write (node_reads c nodes s n) (nodes s) n f None (nodes s')"
  shows "\<exists>cur new v. nodes s n = Some cur
    \<and> (f cur = None \<and> nodes s' = nodes s
       \<or> f cur = Some new \<and> nodes s' = (nodes s)(n \<mapsto> new\<lparr>node_ResourceVersion := v\<rparr>))"
  using assms
proof (cases rule: node_write.cases)
  case (unchanged cur)
  then have "nodes s n = Some cur" using get_fresh unfolding node_reads_def by metis
  with unchanged show ?thesis by blast
qed auto

lemma cordon_done:
  assumes "CordonNode c node s = (None, s')"
  shows "\<exists>cur v. nodes s (node_Name node) = Some cur
    \<and> nodes s' = (nodes s)(node_Name node \<mapsto>
        cur\<lparr>node_Unschedulable := True,
            node_Annotations := (node_Annotations cur)(Cordoned \<mapsto> ValueTrue),
            node_ResourceVersion := v\<rparr>)"
proof -
  let ?n = "node_Name node"
  obtain cur new v where c: "nodes s ?n = Some cur"
    "cordon_change cur = None \<and> nodes s' = nodes s
     \<or> cordon_change cur = Some new \<and> nodes s' = (nodes s)(?n \<mapsto> new\<lparr>node_ResourceVersion := v\<rparr>)"
    using write_done [OF CordonNode_write [OF assms]] by blast
  from c(2) show ?thesis
  proof
    assume n: "cordon_change cur = None \<and> nodes s' = nodes s"
    then have "node_Unschedulable cur" "node_Annotations cur Cordoned = Some ValueTrue"
      by (auto simp: cordon_change_def GetBoolAnnotation_def GetAnnotation_def map_get_def
          split: if_splits option.splits)
    then have "cur\<lparr>node_Unschedulable := True,
        node_Annotations := (node_Annotations cur)(Cordoned \<mapsto> ValueTrue),
        node_ResourceVersion := node_ResourceVersion cur\<rparr> = cur"
      by (intro Node.equality) (auto simp: map_upd_triv)
    then show ?thesis using c(1) n by (metis fun_upd_triv)
  next
    assume "cordon_change cur = Some new \<and> nodes s' = (nodes s)(?n \<mapsto> new\<lparr>node_ResourceVersion := v\<rparr>)"
    then show ?thesis using c(1) by (auto simp: cordon_change_def split: if_splits)
  qed
qed

lemma uncordon_done:
  assumes "UncordonNode c node s = (None, s')" and "nodes s (node_Name node) = Some cur"
    and "IsNodeCordoned cur"
  shows "\<exists>v. nodes s' = (nodes s)(node_Name node \<mapsto>
        cur\<lparr>node_Unschedulable := False,
            node_Annotations := (node_Annotations cur)
              (Cordoned := None, DrainStartedAt := None, DrainRetryCount := None),
            node_ResourceVersion := v\<rparr>)"
  using write_done [OF UncordonNode_write [OF assms(1)]] assms(2,3)
  by (auto simp: uncordon_change_def IsNodeCordoned_def split: if_splits)

end

interpretation mem: fresh_node_api mem_client mem_nodes
  by unfold_locales (auto simp: mem_client_def mem_GetNode_def split: option.splits)

section \<open>An example cluster\<close>

definition ex_node :: "string \<Rightarrow> annots \<Rightarrow> bool \<Rightarrow> Node" where
  "ex_node n ann u =
     \<lparr>node_Name = n, node_Labels = Map.empty, node_Annotations = ann, node_CreationTimestamp = 0,
      node_Unschedulable = u, node_ResourceVersion = 7\<rparr>"

definition ex_cluster :: "Node list \<Rightarrow> Pod list \<Rightarrow> cluster" where
  "ex_cluster ns ps =
     \<lparr>cl_nodes = map (\<lambda>n. (node_Name n, n)) ns, cl_pods = map (\<lambda>p. (pod_key p, p)) ps, cl_blocked = [],
      cl_rmcs = [], cl_pools = [], cl_configs = [], cl_version = 7\<rparr>"

lemmas ex_cluster_defs = ex_node_def ex_cluster_def

lemma retry_3 [simp]:
  "retry_upto 3 f s =
     (case f s of (Some e, s1) \<Rightarrow> if IsConflict e then retry_upto 2 f s1 else (Some e, s1)
                | (None, s1) \<Rightarrow> (None, s1))"
  by (subst numeral_3_eq_3, subst retry_upto.simps(2), simp only: numeral_2_eq_2)

section \<open>Claims\<close>

text \<open>
  C23: no write to a node is lost. On every server with optimistic concurrency, reads stale
  or not, each of the four writers either fails and leaves the nodes as they are, or finds
  in the node it read that there is nothing to do, or replaces the server's current node by
  that node with the writer's change and a new version; no other node is touched.
\<close>

theorem node_writers_lose_no_update:
  assumes "node_api c nodes"
  shows "(case CordonNode c node s of (r, s') \<Rightarrow>
            node_write (node_reads c nodes s (node_Name node)) (nodes s) (node_Name node) cordon_change r (nodes s'))
    \<and> (case UncordonNode c node s of (r, s') \<Rightarrow>
            node_write (node_reads c nodes s (node_Name node)) (nodes s) (node_Name node) uncordon_change r (nodes s'))
    \<and> (case SetNodeAnnotation c node key v s of (r, s') \<Rightarrow>
            node_write (node_reads c nodes s (node_Name node)) (nodes s) (node_Name node) (annotate_change key v) r (nodes s'))
    \<and> (case RemoveNodeAnnotation c node key s of (r, s') \<Rightarrow>
            node_write (node_reads c nodes s (node_Name node)) (nodes s) (node_Name node) (unannotate_change key) r (nodes s'))"
  by (auto split: prod.splits intro: node_api.CordonNode_write [OF assms]
      node_api.UncordonNode_write [OF assms] node_api.SetNodeAnnotation_write [OF assms]
      node_api.RemoveNodeAnnotation_write [OF assms])

theorem node_writers_lose_no_update_witness:
  "let s = ex_cluster [ex_node ''w1'' Map.empty False] [] in
   \<exists>s'. CordonNode mem_client (ex_node ''w1'' Map.empty False) s = (None, s')
      \<and> node_write (node_reads mem_client mem_nodes s ''w1'') (mem_nodes s) ''w1'' cordon_change None (mem_nodes s')"
proof -
  let ?s = "ex_cluster [ex_node ''w1'' Map.empty False] []"
  obtain s' where "CordonNode mem_client (ex_node ''w1'' Map.empty False) ?s = (None, s')"
    by (simp add: ex_cluster_defs mem_defs cordon_defs)
  then show ?thesis
    using node_writers_lose_no_update
      [OF mem.node_api_axioms, where node = "ex_node ''w1'' Map.empty False" and s = ?s]
    by (simp add: ex_node_def Let_def)
qed

text \<open>
  with current reads, cordoning and then uncordoning a node gives it back schedulable
  and without the operator's cordon and drain marks; in between it is unschedulable and
  marked; every other annotation, its labels and every other node are as before.
\<close>

theorem cordon_uncordon_roundtrip:
  assumes "fresh_node_api c nodes"
    and "CordonNode c node s = (None, s1)" and "UncordonNode c node s1 = (None, s2)"
  shows "\<exists>before during after.
      nodes s (node_Name node) = Some before
    \<and> nodes s1 (node_Name node) = Some during \<and> node_Unschedulable during \<and> IsNodeCordoned during
    \<and> nodes s2 = (nodes s)(node_Name node \<mapsto> after)
    \<and> \<not> node_Unschedulable after \<and> node_Labels after = node_Labels before
    \<and> node_Annotations after
        = (node_Annotations before)(Cordoned := None, DrainStartedAt := None, DrainRetryCount := None)"
proof -
  let ?n = "node_Name node"
  obtain cur v where 1: "nodes s ?n = Some cur"
    "nodes s1 = (nodes s)(?n \<mapsto>
        cur\<lparr>node_Unschedulable := True,
            node_Annotations := (node_Annotations cur)(Cordoned \<mapsto> ValueTrue),
            node_ResourceVersion := v\<rparr>)" (is "_ = (nodes s)(?n \<mapsto> ?mid)")
    using fresh_node_api.cordon_done [OF assms(1,2)] by blast
  have mid: "nodes s1 ?n = Some ?mid" "IsNodeCordoned ?mid" by (simp_all add: 1 IsNodeCordoned_def)
  then obtain w where 2: "nodes s2 = (nodes s1)(?n \<mapsto>
        ?mid\<lparr>node_Unschedulable := False,
            node_Annotations := (node_Annotations ?mid)
              (Cordoned := None, DrainStartedAt := None, DrainRetryCount := None),
            node_ResourceVersion := w\<rparr>)" (is "_ = (nodes s1)(?n \<mapsto> ?after)")
    using fresh_node_api.uncordon_done [OF assms(1,3)] by blast
  have "nodes s2 = (nodes s)(?n \<mapsto> ?after)" by (simp add: 2 1)
  moreover have "node_Annotations ?after
      = (node_Annotations cur)(Cordoned := None, DrainStartedAt := None, DrainRetryCount := None)"
    by (simp add: fun_eq_iff)
  ultimately show ?thesis using 1(1) mid by fastforce
qed

theorem cordon_uncordon_roundtrip_witness:
  "let n = ex_node ''w1'' [''k'' \<mapsto> ''v''] False; s = ex_cluster [n] [];
       s1 = snd (CordonNode mem_client n s); s2 = snd (UncordonNode mem_client n s1)
   in \<exists>after. mem_nodes s2 ''w1'' = Some after \<and> \<not> node_Unschedulable after
        \<and> node_Annotations after = [''k'' \<mapsto> ''v'']"
proof -
  let ?n = "ex_node ''w1'' [''k'' \<mapsto> ''v''] False"
  let ?s = "ex_cluster [?n] []"
  let ?s1 = "snd (CordonNode mem_client ?n ?s)"
  let ?s2 = "snd (UncordonNode mem_client ?n ?s1)"
  have 1: "fst (CordonNode mem_client ?n ?s) = None"
    by (simp add: ex_cluster_defs mem_defs cordon_defs)
  have 2: "fst (UncordonNode mem_client ?n (snd (CordonNode mem_client ?n ?s))) = None"
    by (simp add: ex_cluster_defs mem_defs cordon_defs)
  have k: "[''k'' \<mapsto> ''v''](Cordoned := None, DrainStartedAt := None, DrainRetryCount := None) = [''k'' \<mapsto> ''v'']"
    by (auto simp: fun_eq_iff key_defs Prefix_def)
  have e1: "CordonNode mem_client ?n ?s = (None, ?s1)"
    and e2: "UncordonNode mem_client ?n ?s1 = (None, ?s2)"
    using 1 2 by (simp_all add: prod_eq_iff)
  have b: "mem_nodes ?s (node_Name ?n) = Some before \<Longrightarrow> node_Annotations before = [''k'' \<mapsto> ''v'']" for before
    by (auto simp: ex_cluster_defs mem_nodes_def)
  obtain after where "mem_nodes ?s2 (node_Name ?n) = Some after" "\<not> node_Unschedulable after"
    "node_Annotations after = [''k'' \<mapsto> ''v'']"
    using cordon_uncordon_roundtrip [OF mem.fresh_node_api_axioms e1 e2] b k by fastforce
  moreover have "node_Name ?n = ''w1''" by (simp add: ex_node_def)
  ultimately show ?thesis by (simp only: Let_def) blast
qed

end
