(* ===== verification/Drain.thy ===== *)
theory Drain
  imports Cordon
begin

text \<open>
  \<open>internal/controller/drain.go\<close>: evicting the pods of a node and deciding when to try
  again. \<open>now\<close> is what \<open>time.Now()\<close> returns during the call; the node is the caller's
  snapshot, which the writes to the server do not change. Times are printed in UTC, the
  zone of the controller's container.
\<close>

section \<open>Definitions\<close>

record DrainConfig =
  dc_GracePeriod :: int
  dc_IgnoreDS :: bool
  dc_DeleteOrphans :: bool

record DrainRetryResult =
  dr_RequeueAfter :: duration
  dr_SetDrainStuck :: bool

definition DefaultDrainTimeoutSeconds :: int where "DefaultDrainTimeoutSeconds = 3600"
definition DefaultDrainRetrySeconds :: int where "DefaultDrainRetrySeconds = 30"
definition MCONamespace :: string where "MCONamespace = ''machine-config-system''"
definition LabelAppName :: string where "LabelAppName = ''app.kubernetes.io/name''"
definition LabelControlPlane :: string where "LabelControlPlane = ''control-plane''"
definition MCOAppName :: string where "MCOAppName = ''machine-config''"
definition MCOControllerManager :: string where "MCOControllerManager = ''controller-manager''"

definition IsDaemonSetPod :: "Pod \<Rightarrow> bool" where
  "IsDaemonSetPod pod = list_ex (\<lambda>ref. ref_Kind ref = ''DaemonSet'') (pod_OwnerReferences pod)"

definition HasController :: "Pod \<Rightarrow> bool" where
  "HasController pod = list_ex (\<lambda>ref. ref_Controller ref = Some True) (pod_OwnerReferences pod)"

definition isMCOPod :: "Pod \<Rightarrow> bool" where
  "isMCOPod pod =
     (if pod_Namespace pod = MCONamespace then True
      else map_get (pod_Labels pod) LabelAppName = MCOAppName
           \<and> map_get (pod_Labels pod) LabelControlPlane = MCOControllerManager)"

text \<open>The body of the loop of \<open>FilterEvictablePods\<close>: every \<open>continue\<close> is a \<open>False\<close>.\<close>

definition evictable :: "DrainConfig \<Rightarrow> Pod \<Rightarrow> bool" where
  "evictable config pod =
     (if pod_DeletionTimestamp pod \<noteq> None then False
      else if pod_Phase pod = PodSucceeded \<or> pod_Phase pod = PodFailed then False
      else if pod_Annotations pod ''kubernetes.io/config.mirror'' \<noteq> None then False
      else if dc_IgnoreDS config \<and> IsDaemonSetPod pod then False
      else if isMCOPod pod then False
      else if \<not> dc_DeleteOrphans config \<and> \<not> HasController pod then False
      else True)"

definition FilterEvictablePods :: "Pod list \<Rightarrow> DrainConfig \<Rightarrow> Pod list" where
  "FilterEvictablePods pods config = filter (evictable config) pods"

definition EvictPod :: "'s client \<Rightarrow> Pod \<Rightarrow> int \<Rightarrow> 's \<Rightarrow> go_error option \<times> 's" where
  "EvictPod c pod gracePeriod s =
     (case CreateEviction c s pod (if gracePeriod \<ge> 0 then Some gracePeriod else None) of
        (None, s1) \<Rightarrow> (None, s1)
      | (Some err, s1) \<Rightarrow>
          if IsTooManyRequests err then (Some (PDBBlocked (pod_Name pod) err), s1)
          else if IsNotFound err then (None, s1)
          else (Some err, s1))"

text \<open>The eviction loop of \<open>DrainNode\<close>, with the errors it collects.\<close>

fun evict_all :: "'s client \<Rightarrow> int \<Rightarrow> Pod list \<Rightarrow> 's \<Rightarrow> go_error list \<times> 's" where
  "evict_all c g [] s = ([], s)"
| "evict_all c g (pod # pods) s =
     (case EvictPod c pod g s of
        (r, s1) \<Rightarrow>
          (case evict_all c g pods s1 of
             (errs, s2) \<Rightarrow>
               ((case r of
                   None \<Rightarrow> errs
                 | Some err \<Rightarrow> Wrap (''pod '' @ pod_Namespace pod @ ''/'' @ pod_Name pod) err # errs), s2)))"

definition DrainNode :: "'s client \<Rightarrow> Node \<Rightarrow> DrainConfig \<Rightarrow> time \<Rightarrow> 's \<Rightarrow> go_error option \<times> 's" where
  "DrainNode c node config now s =
     (case (if GetAnnotation (node_Annotations node) DrainStartedAt = []
            then SetNodeAnnotation c node DrainStartedAt (Format_RFC3339 now) s
            else (None, s)) of
        (Some err, s1) \<Rightarrow> (Some err, s1)
      | (None, s1) \<Rightarrow>
          (case ListPods c s1 (node_Name node) of
             (Inl err, s2) \<Rightarrow> (Some (Wrap (''failed to list pods on node '' @ node_Name node) err), s2)
           | (Inr podList, s2) \<Rightarrow>
               (let pods = FilterEvictablePods podList config in
                if pods = [] then (None, s2)
                else (case evict_all c (dc_GracePeriod config) pods s2 of
                        ([], s3) \<Rightarrow> (None, s3)
                      | (e # errs, s3) \<Rightarrow>
                          (Some (Err (''drain incomplete: '' @ Itoa (int (length (e # errs))) @ ''/''
                             @ Itoa (int (length pods)) @ '' pods failed: '' @ error_text e)), s3)))))"

definition IsDrainComplete :: "'s client \<Rightarrow> Node \<Rightarrow> DrainConfig \<Rightarrow> 's \<Rightarrow> bool result \<times> 's" where
  "IsDrainComplete c node config s =
     (case ListPods c s (node_Name node) of
        (Inl err, s1) \<Rightarrow> (Inl err, s1)
      | (Inr podList, s1) \<Rightarrow> (Inr (length (FilterEvictablePods podList config) = 0), s1))"

definition calculateRetryInterval :: "int \<Rightarrow> int \<Rightarrow> duration" where
  "calculateRetryInterval drainTimeoutSeconds drainRetrySeconds =
     (if drainRetrySeconds > 0 then Seconds drainRetrySeconds
      else
        let t = (if drainTimeoutSeconds \<le> 0 then DefaultDrainTimeoutSeconds else drainTimeoutSeconds);
            calculated = t div 12;
            calculated' = (if calculated < DefaultDrainRetrySeconds then DefaultDrainRetrySeconds else calculated)
        in Seconds calculated')"

definition HandleDrainRetry ::
  "'s client \<Rightarrow> Node \<Rightarrow> int \<Rightarrow> int \<Rightarrow> time \<Rightarrow> 's \<Rightarrow> DrainRetryResult \<times> 's"
where
  "HandleDrainRetry c node drainTimeoutSeconds drainRetrySeconds now s =
     (let drainStartStr = GetAnnotation (node_Annotations node) DrainStartedAt in
      if drainStartStr = [] then
        (\<lparr>dr_RequeueAfter = calculateRetryInterval drainTimeoutSeconds drainRetrySeconds,
          dr_SetDrainStuck = False\<rparr>, s)
      else
        (case Parse_RFC3339 drainStartStr of
           None \<Rightarrow>
             (\<lparr>dr_RequeueAfter = calculateRetryInterval drainTimeoutSeconds drainRetrySeconds,
               dr_SetDrainStuck = False\<rparr>, s)
         | Some drainStart \<Rightarrow>
             (let elapsed = Sub now drainStart;
                  retryCount = wrap64 (GetIntAnnotation node DrainRetryCount + 1);
                  s1 = snd (SetNodeAnnotation c node DrainRetryCount (Itoa retryCount) s);
                  t = (if drainTimeoutSeconds \<le> 0 then DefaultDrainTimeoutSeconds else drainTimeoutSeconds);
                  drainTimeout = Seconds t;
                  retryInterval = calculateRetryInterval t drainRetrySeconds
              in if elapsed \<ge> drainTimeout
                 then (\<lparr>dr_RequeueAfter = retryInterval, dr_SetDrainStuck = True\<rparr>, s1)
                 else
                   let remaining = wrap64 (drainTimeout - elapsed);
                       requeue = (if remaining < retryInterval then remaining else retryInterval);
                       requeue' = (if requeue < Seconds 10 then Seconds 10 else requeue)
                   in (\<lparr>dr_RequeueAfter = requeue', dr_SetDrainStuck = False\<rparr>, s1))))"

definition ClearDrainAnnotations :: "'s client \<Rightarrow> Node \<Rightarrow> 's \<Rightarrow> go_error option \<times> 's" where
  "ClearDrainAnnotations c node s =
     (case RemoveNodeAnnotation c node DrainStartedAt s of
        (Some err, s1) \<Rightarrow> (Some err, s1)
      | (None, s1) \<Rightarrow> RemoveNodeAnnotation c node DrainRetryCount s1)"

lemmas drain_defs [mco_eval] =
  DefaultDrainTimeoutSeconds_def DefaultDrainRetrySeconds_def MCONamespace_def LabelAppName_def
  LabelControlPlane_def MCOAppName_def MCOControllerManager_def IsDaemonSetPod_def HasController_def
  isMCOPod_def evictable_def FilterEvictablePods_def EvictPod_def DrainNode_def IsDrainComplete_def
  calculateRetryInterval_def HandleDrainRetry_def ClearDrainAnnotations_def

section \<open>Frames\<close>

context pod_api
begin

lemma rmw_pods: "pods (snd (read_modify_write c n f s)) = pods s"
proof -
  obtain g s1 where g: "GetNode c s n = (g, s1)" by (cases "GetNode c s n")
  then have 1: "pods s1 = pods s" by (rule node_pods_frame)
  show ?thesis
  proof (cases g)
    case (Inr cur)
    then show ?thesis
      using 1 node_pods_frame(2) [of s1 "the (f cur)"]
      by (cases "f cur"; cases "UpdateNode c s1 (the (f cur))") (auto simp: read_modify_write_def g)
  qed (use 1 in \<open>simp add: read_modify_write_def g\<close>)
qed

lemma SetNodeAnnotation_pods: "pods (snd (SetNodeAnnotation c node key v s)) = pods s"
  unfolding SetNodeAnnotation_def
proof (rule attempts_rule [OF retry_attempts, where I = "\<lambda>t. pods t = pods s"])
  show "pods t1 = pods s"
    if "pods t = pods s" "read_modify_write c (node_Name node) (annotate_change key v) t = (Some e, t1)" for t e t1
    using rmw_pods [of "node_Name node" "annotate_change key v" t] that by simp
qed (simp_all add: rmw_pods)

lemma EvictPod_frame:
  "EvictPod c p g s = (r, s') \<Longrightarrow> nodes s' = nodes s \<and> (\<forall>k. k \<noteq> pod_key p \<longrightarrow> pods s' k = pods s k)"
  using evict_frame [of s p "if g \<ge> 0 then Some g else None"]
  by (auto simp: EvictPod_def split: prod.splits option.splits if_splits)

lemma evict_all_frame:
  "evict_all c g ps s = (errs, s') \<Longrightarrow>
     nodes s' = nodes s \<and> (\<forall>k. k \<notin> pod_key ` set ps \<longrightarrow> pods s' k = pods s k)"
proof (induction ps arbitrary: s errs s')
  case (Cons p ps)
  obtain r s1 where e: "EvictPod c p g s = (r, s1)" by (cases "EvictPod c p g s")
  obtain errs1 s2 where a: "evict_all c g ps s1 = (errs1, s2)" by (cases "evict_all c g ps s1")
  have "s' = s2" using Cons.prems by (simp add: e a)
  then show ?case using EvictPod_frame [OF e] Cons.IH [OF a] by auto
qed simp

lemma DrainNode_pods:
  assumes "DrainNode c node cfg now s = (r, s')" and "pods s k = Some p"
    and "\<not> (evictable cfg p \<and> pod_NodeName p = node_Name node)"
  shows "pods s' k = Some p"
proof -
  define a where "a = (if GetAnnotation (node_Annotations node) DrainStartedAt = []
    then SetNodeAnnotation c node DrainStartedAt (Format_RFC3339 now) s else (None, s))"
  obtain r1 s1 where a1: "a = (r1, s1)" by (cases a)
  have p1: "pods s1 = pods s"
    using a1 SetNodeAnnotation_pods [of node DrainStartedAt "Format_RFC3339 now" s]
    by (auto simp: a_def split: if_splits)
  obtain l s2 where l: "ListPods c s1 (node_Name node) = (l, s2)" by (cases "ListPods c s1 (node_Name node)")
  have p2: "pods s2 = pods s" using list_frame [OF l] p1 by simp
  show ?thesis
  proof (cases "r1 = None \<and> (\<exists>ps. l = Inr ps \<and> FilterEvictablePods ps cfg \<noteq> [])")
    case False
    then have "s' = s1 \<or> s' = s2"
      using assms(1) unfolding DrainNode_def a_def [symmetric] a1 l
      by (auto simp: l Let_def split: option.splits sum.splits if_splits)
    then show ?thesis using p1 p2 assms(2) by auto
  next
    case True
    then obtain ps where ps: "r1 = None" "l = Inr ps" "FilterEvictablePods ps cfg \<noteq> []" by blast
    obtain errs s3 where e: "evict_all c (dc_GracePeriod cfg) (FilterEvictablePods ps cfg) s2 = (errs, s3)"
      by (cases "evict_all c (dc_GracePeriod cfg) (FilterEvictablePods ps cfg) s2")
    have s': "s' = s3"
      using assms(1) unfolding DrainNode_def a_def [symmetric] a1 ps(1)
      by (cases errs) (auto simp: l ps Let_def e)
    have "k \<notin> pod_key ` set (FilterEvictablePods ps cfg)"
    proof
      assume "k \<in> pod_key ` set (FilterEvictablePods ps cfg)"
      then obtain q where q: "k = pod_key q" "q \<in> set ps" "evictable cfg q"
        by (auto simp: FilterEvictablePods_def)
      then have "pods s1 k = Some q" "pod_NodeName q = node_Name node"
        using list_pods l ps(2) by auto
      then show False using assms(2,3) p1 q(3) by simp
    qed
    then show ?thesis using evict_all_frame [OF e] p2 assms(2) s' by (simp del: split_paired_All)
  qed
qed

lemma IsDrainComplete_iff:
  assumes "IsDrainComplete c node cfg s = (Inr done, s')"
  shows "done \<longleftrightarrow> (\<forall>k p. pods s k = Some p \<longrightarrow> pod_NodeName p = node_Name node \<longrightarrow> \<not> evictable cfg p)"
proof -
  obtain ps where l: "ListPods c s (node_Name node) = (Inr ps, s')"
    and d: "done \<longleftrightarrow> filter (evictable cfg) ps = []"
    using assms by (auto simp: IsDrainComplete_def FilterEvictablePods_def split: prod.splits sum.splits)
  show ?thesis
    using list_pods [OF l] list_complete [OF l] unfolding d filter_empty_conv by blast
qed

lemma IsDrainComplete_none_left:
  "IsDrainComplete c node cfg s = (Inr True, s') \<Longrightarrow> pods s k = Some p \<Longrightarrow>
     pod_NodeName p = node_Name node \<Longrightarrow> \<not> evictable cfg p"
  using IsDrainComplete_iff by blast

end

section \<open>An example node with pods\<close>

definition ex_pod :: "string \<Rightarrow> string \<Rightarrow> Pod" where
  "ex_pod ns n =
     \<lparr>pod_Name = n, pod_Namespace = ns, pod_Labels = Map.empty, pod_Annotations = Map.empty,
      pod_DeletionTimestamp = None, pod_Phase = PodRunning, pod_OwnerReferences = [], pod_NodeName = ''w1''\<rparr>"

definition ex_drain :: DrainConfig where
  "ex_drain = \<lparr>dc_GracePeriod = -1, dc_IgnoreDS = True, dc_DeleteOrphans = True\<rparr>"

definition ex_pod_cluster :: cluster where
  "ex_pod_cluster =
     ex_cluster [ex_node ''w1'' Map.empty False] [ex_pod ''default'' ''web'', ex_pod MCONamespace ''ctl'']"

lemmas ex_pods = ex_pod_def ex_drain_def ex_pod_cluster_def

section \<open>Claims\<close>

text \<open>
  C27: draining a node evicts nothing it must not. Whatever \<open>DrainNode\<close> returns, a pod of
  another node, a terminating or finished pod, a mirror pod, a DaemonSet pod (where they are
  ignored), a pod of the operator itself and an orphan (where orphans are kept) is in the
  cluster afterwards as it was before.
\<close>

theorem DrainNode_spares_protected_pods:
  assumes "pod_api c nodes pods"
    and "DrainNode c node cfg now s = (r, s')" and "pods s k = Some p"
    and "pod_NodeName p \<noteq> node_Name node \<or> pod_DeletionTimestamp p \<noteq> None
      \<or> pod_Phase p \<in> {PodSucceeded, PodFailed}
      \<or> pod_Annotations p ''kubernetes.io/config.mirror'' \<noteq> None
      \<or> (dc_IgnoreDS cfg \<and> IsDaemonSetPod p) \<or> isMCOPod p
      \<or> (\<not> dc_DeleteOrphans cfg \<and> \<not> HasController p)"
  shows "pods s' k = Some p"
proof -
  have "\<not> (evictable cfg p \<and> pod_NodeName p = node_Name node)"
    using assms(4) by (auto simp: evictable_def)
  then show ?thesis by (rule pod_api.DrainNode_pods [OF assms(1-3)])
qed

lemma ex_drain_run:
  "fst (DrainNode mem_client (ex_node ''w1'' [DrainStartedAt \<mapsto> ''x''] False) ex_drain 0 ex_pod_cluster) = None"
  "mem_pods (snd (DrainNode mem_client (ex_node ''w1'' [DrainStartedAt \<mapsto> ''x''] False) ex_drain 0 ex_pod_cluster))
     (''default'', ''web'') = None"
  by (simp_all add: ex_pods ex_cluster_defs mem_defs drain_defs GetAnnotation_def Let_def)

theorem DrainNode_spares_protected_pods_witness:
  "let s' = snd (DrainNode mem_client (ex_node ''w1'' [DrainStartedAt \<mapsto> ''x''] False) ex_drain 0 ex_pod_cluster)
   in mem_pods s' (MCONamespace, ''ctl'') = Some (ex_pod MCONamespace ''ctl'')
      \<and> mem_pods s' (''default'', ''web'') = None"
proof -
  let ?d = "DrainNode mem_client (ex_node ''w1'' [DrainStartedAt \<mapsto> ''x''] False) ex_drain 0 ex_pod_cluster"
  have d: "?d = (fst ?d, snd ?d)" by simp
  have "mem_pods ex_pod_cluster (MCONamespace, ''ctl'') = Some (ex_pod MCONamespace ''ctl'')"
    by (simp add: ex_pods ex_cluster_defs mem_pods_def MCONamespace_def)
  moreover have "isMCOPod (ex_pod MCONamespace ''ctl'')" by (simp add: isMCOPod_def ex_pod_def)
  ultimately show ?thesis
    using DrainNode_spares_protected_pods [OF mem.pod_api_axioms d] ex_drain_run(2) by (simp add: Let_def)
qed

text \<open>
  a drain is reported complete exactly when no pod that may be evicted is left on the
  node.
\<close>

theorem IsDrainComplete_correct:
  assumes "pod_api c nodes pods" and "IsDrainComplete c node cfg s = (Inr complete, s')"
  shows "complete \<longleftrightarrow>
    (\<forall>k p. pods s k = Some p \<longrightarrow> pod_NodeName p = node_Name node \<longrightarrow> \<not> evictable cfg p)"
  using pod_api.IsDrainComplete_iff [OF assms] .

theorem IsDrainComplete_correct_witness:
  "fst (IsDrainComplete mem_client (ex_node ''w1'' Map.empty False) ex_drain ex_pod_cluster) = Inr False
   \<and> (\<exists>k p. mem_pods ex_pod_cluster k = Some p \<and> pod_NodeName p = ''w1'' \<and> evictable ex_drain p)"
proof -
  let ?d = "IsDrainComplete mem_client (ex_node ''w1'' Map.empty False) ex_drain ex_pod_cluster"
  have f: "fst ?d = Inr False"
    by (simp add: ex_pods ex_cluster_defs mem_defs drain_defs)
  then have d: "?d = (Inr False, snd ?d)" by (simp add: prod_eq_iff)
  show ?thesis
    using IsDrainComplete_correct [OF mem.pod_api_axioms d] f by (simp add: ex_node_def)
qed

text \<open>
  C36: The timing of drain retries. With the drain started at a recorded time \<open>st\<close>, a timeout
  of \<open>T\<close> seconds (3600 where none is set) and neither the timeout nor the retry interval above
  9223372036 seconds, the largest that fits a \<open>Duration\<close>, the drain is declared stuck exactly
  when the timeout has passed; the next attempt is at least a second away, and as long as the
  drain is not stuck it is no later than the end of the timeout, or ten seconds from now
  where that is later: the attempt may overshoot the end of the timeout by up to ten seconds.
\<close>

theorem HandleDrainRetry_timing:
  assumes "GetAnnotation (node_Annotations node) DrainStartedAt = str" and "str \<noteq> []"
    and "Parse_RFC3339 str = Some st" and "st \<le> now" and "in_int64 (now - st)"
    and "timeout \<le> 9223372036" and "retry \<le> 9223372036"
    and "T = (if timeout \<le> 0 then 3600 else timeout) * 1000000000"
    and "HandleDrainRetry c node timeout retry now s = (res, s')"
  shows "(dr_SetDrainStuck res \<longleftrightarrow> st + T \<le> now)
    \<and> 1000000000 \<le> dr_RequeueAfter res
    \<and> (dr_SetDrainStuck res \<or> now + dr_RequeueAfter res \<le> max (st + T) (now + 10000000000))
    \<and> s' = snd (SetNodeAnnotation c node DrainRetryCount
              (Itoa (wrap64 (GetIntAnnotation node DrainRetryCount + 1))) s)"
proof -
  let ?t = "if timeout \<le> 0 then 3600 else timeout"
  let ?i = "calculateRetryInterval ?t retry"
  have t: "0 < ?t" "?t \<le> 9223372036" using assms(6) by auto
  have T: "Seconds ?t = T" using Seconds_exact [of ?t] t assms(8) by simp
  have i: "1000000000 \<le> ?i"
  proof (cases "retry > 0")
    case True
    then show ?thesis using assms(7) Seconds_exact [of retry] by (simp add: calculateRetryInterval_def)
  next
    case False
    let ?x = "if ?t div 12 < 30 then 30 else ?t div 12"
    have "30 \<le> ?x" "?x \<le> 9223372036" using t by auto
    then have "Seconds ?x = ?x * 1000000000" by (intro Seconds_exact) auto
    then show ?thesis
      using False t by (auto simp: calculateRetryInterval_def DefaultDrainRetrySeconds_def Let_def)
  qed
  have sub: "Sub now st = now - st" using assms(5) by (rule Sub_exact)
  have "0 < T" using t assms(8) by simp
  have "T \<le> 9223372036 * 1000000000" using t(2) assms(8) by simp
  then have w: "wrap64 (T - (now - st)) = T - (now - st)" if "now - st < T"
    using that assms(4) by (intro wrap64_id) (simp add: in_int64_def)
  have ten: "Seconds 10 = 10000000000" by (simp add: Seconds_exact)
  have res: "(res, s') =
      (if T \<le> now - st then \<lparr>dr_RequeueAfter = ?i, dr_SetDrainStuck = True\<rparr>
       else \<lparr>dr_RequeueAfter =
              (let q = (if wrap64 (T - (now - st)) < ?i then wrap64 (T - (now - st)) else ?i)
               in if q < 10000000000 then 10000000000 else q), dr_SetDrainStuck = False\<rparr>,
       snd (SetNodeAnnotation c node DrainRetryCount
              (Itoa (wrap64 (GetIntAnnotation node DrainRetryCount + 1))) s))"
    using assms(9) assms(1-3) T sub ten
    by (simp add: HandleDrainRetry_def Let_def DefaultDrainTimeoutSeconds_def split: if_splits)
  show ?thesis
  proof (cases "T \<le> now - st")
    case True
    with res i show ?thesis by auto
  next
    case False
    with res w show ?thesis by (auto simp: Let_def)
  qed
qed

theorem HandleDrainRetry_timing_witness:
  "let n = ex_node ''w1'' [DrainStartedAt \<mapsto> ''2024-01-01T00:00:00Z''] False;
       t0 = 1704067200 * 1000000000;
       r = HandleDrainRetry mem_client n 0 0 (t0 + 3595 * 1000000000) ex_pod_cluster
   in dr_SetDrainStuck (fst r) = False \<and> dr_RequeueAfter (fst r) \<le> 10000000000"
proof -
  let ?n = "ex_node ''w1'' [DrainStartedAt \<mapsto> ''2024-01-01T00:00:00Z''] False"
  let ?r = "HandleDrainRetry mem_client ?n 0 0 (1704067200 * 1000000000 + 3595 * 1000000000) ex_pod_cluster"
  have g: "GetAnnotation (node_Annotations ?n) DrainStartedAt = ''2024-01-01T00:00:00Z''" by (simp add: ex_node_def)
  have p: "Parse_RFC3339 ''2024-01-01T00:00:00Z'' = Some (1704067200 * 1000000000)" by code_simp
  have r: "?r = (fst ?r, snd ?r)" by simp
  show ?thesis
    using HandleDrainRetry_timing [OF g _ p _ _ _ _ refl r] by (auto simp: in_int64_def Let_def)
qed

end
