(* ===== verification/Rollout.thy ===== *)
theory Rollout
  imports Cordon
begin

text \<open>
  \<open>internal/controller/rollout.go\<close>: which nodes a reconciliation may start updating. The
  percentage is the integer ceiling of \<open>nodeCount * pct / 100\<close>; the source computes it in
  \<open>float64\<close>, which gives the same integer while the product is below 2^46.
\<close>

section \<open>Definitions\<close>

definition zoneLabel :: string where "zoneLabel = ''topology.kubernetes.io/zone''"

definition ceil_percent :: "int \<Rightarrow> int \<Rightarrow> int" where
  "ceil_percent n pct = - ((- (n * pct)) div 100)"

definition CalculateMaxUnavailable :: "IntOrString option \<Rightarrow> int \<Rightarrow> int" where
  "CalculateMaxUnavailable maxUnavailable nodeCount =
     (case maxUnavailable of
        None \<Rightarrow> 1
      | Some (IntVal i) \<Rightarrow> (if i < 1 then 1 else i)
      | Some (StrVal str) \<Rightarrow>
          (case Atoi (TrimSuffix str ''%'') of
             None \<Rightarrow> 1
           | Some pct \<Rightarrow>
               let effective = ceil_percent nodeCount pct
               in if effective < 1 then 1 else effective))"

text \<open>The \<open>less\<close> closure of \<open>SortNodesForUpdate\<close>.\<close>

definition node_less :: "Node \<Rightarrow> Node \<Rightarrow> bool" where
  "node_less a b =
     (let zoneI = map_get (node_Labels a) zoneLabel; zoneJ = map_get (node_Labels b) zoneLabel in
      if zoneI = [] \<and> zoneJ \<noteq> [] then False
      else if zoneI \<noteq> [] \<and> zoneJ = [] then True
      else if zoneI \<noteq> zoneJ then zoneI < zoneJ
      else if node_CreationTimestamp a \<noteq> node_CreationTimestamp b
      then node_CreationTimestamp a < node_CreationTimestamp b
      else node_Name a < node_Name b)"

definition SortNodesForUpdate :: "Node list \<Rightarrow> Node list" where
  "SortNodesForUpdate nodes = sort_slice node_less nodes"

definition IsNodeUnavailable :: "Node \<Rightarrow> bool" where
  "IsNodeUnavailable node =
     (let ann = node_Annotations node in
      if IsNodePaused ann then False
      else if node_Unschedulable node then True
      else if map_get ann Cordoned = ValueTrue then True
      else if map_get ann DrainStartedAt \<noteq> [] then True
      else let state = map_get ann AgentState in
        if state = ''applying'' \<or> state = ''rebooting'' then True
        else let current = map_get ann CurrentRevision; desired = map_get ann DesiredRevision in
          desired \<noteq> [] \<and> current \<noteq> desired)"

definition needs_update :: "string \<Rightarrow> Node \<Rightarrow> bool" where
  "needs_update targetRevision node =
     (let ann = node_Annotations node in
      if IsNodePaused ann then False
      else map_get ann CurrentRevision \<noteq> targetRevision \<and> \<not> IsNodeUnavailable node)"

definition SelectNodesForUpdate :: "MachineConfigPool \<Rightarrow> Node list \<Rightarrow> string \<Rightarrow> Node list" where
  "SelectNodesForUpdate pool allNodes targetRevision =
     (let needsUpdate = filter (needs_update targetRevision) allNodes in
      if needsUpdate = [] then []
      else
        let sorted = SortNodesForUpdate needsUpdate;
            unavailableCount = int (length (filter IsNodeUnavailable allNodes));
            maxUnavailable =
              CalculateMaxUnavailable (ro_MaxUnavailable (ps_Rollout (pool_Spec pool))) (int (length allNodes));
            canUpdateCount = maxUnavailable - unavailableCount
        in if canUpdateCount \<le> 0 then []
           else
             let count = (if canUpdateCount > int (length sorted) then int (length sorted) else canUpdateCount)
             in take (nat count) sorted)"

definition collectNodesInProgress :: "Node list \<Rightarrow> string \<Rightarrow> Node list" where
  "collectNodesInProgress allNodes targetRevision =
     filter (\<lambda>node.
       let ann = node_Annotations node in
       if IsNodePaused ann then False
       else IsNodeUnavailable node
            \<and> (map_get ann CurrentRevision \<noteq> targetRevision \<or> ShouldUncordon node targetRevision)) allNodes"

lemmas rollout_defs [mco_eval] =
  zoneLabel_def ceil_percent_def CalculateMaxUnavailable_def node_less_def SortNodesForUpdate_def
  IsNodeUnavailable_def needs_update_def SelectNodesForUpdate_def collectNodesInProgress_def

section \<open>The order of the nodes\<close>

text \<open>Zones in order, nodes without a zone last; older nodes first, then by name.\<close>

definition node_key :: "Node \<Rightarrow> bool \<times> string \<times> int \<times> string" where
  "node_key n =
     (let z = map_get (node_Labels n) zoneLabel in (z = [], z, node_CreationTimestamp n, node_Name n))"

lemma node_less_key: "node_less a b \<longleftrightarrow> node_key a < node_key b"
  by (auto simp: node_less_def node_key_def Let_def less_prod_def)

lemma sorted_SortNodesForUpdate: "sorted (map node_key (SortNodesForUpdate ns))"
  unfolding SortNodesForUpdate_def by (rule sorted_sort_slice) (rule node_less_key)

lemma SortNodesForUpdate_props [simp]:
  "set (SortNodesForUpdate ns) = set ns" "length (SortNodesForUpdate ns) = length ns"
  "distinct (SortNodesForUpdate ns) = distinct ns" "mset (SortNodesForUpdate ns) = mset ns"
  by (simp_all add: SortNodesForUpdate_def)

section \<open>The budget\<close>

abbreviation budget :: "MachineConfigPool \<Rightarrow> Node list \<Rightarrow> int" where
  "budget pool allNodes \<equiv>
     CalculateMaxUnavailable (ro_MaxUnavailable (ps_Rollout (pool_Spec pool))) (int (length allNodes))"

definition unavailable :: "Node list \<Rightarrow> nat" where
  "unavailable ns = length (filter IsNodeUnavailable ns)"

definition candidates :: "string \<Rightarrow> Node list \<Rightarrow> Node list" where
  "candidates target ns = SortNodesForUpdate (filter (needs_update target) ns)"

lemma ceil_percent_le_iff: "ceil_percent n p \<le> e \<longleftrightarrow> n * p \<le> 100 * e"
  unfolding ceil_percent_def by linarith

lemma SelectNodesForUpdate_take:
  "SelectNodesForUpdate pool ns target =
     take (nat (budget pool ns - int (unavailable ns))) (candidates target ns)"
proof (cases "filter (needs_update target) ns = []")
  case True
  then show ?thesis
    by (simp add: SelectNodesForUpdate_def candidates_def SortNodesForUpdate_def)
next
  case False
  then show ?thesis
    by (auto simp: SelectNodesForUpdate_def candidates_def unavailable_def Let_def)
qed

lemma in_candidates:
  "n \<in> set (candidates target ns) \<longleftrightarrow>
     n \<in> set ns \<and> \<not> IsNodePaused (node_Annotations n)
     \<and> map_get (node_Annotations n) CurrentRevision \<noteq> target \<and> \<not> IsNodeUnavailable n"
  by (auto simp: candidates_def needs_update_def Let_def)

text \<open>What the server's node looks like after a successful cordon.\<close>

definition after_cordon :: "Node \<Rightarrow> Node" where
  "after_cordon n = (case cordon_change n of None \<Rightarrow> n | Some n' \<Rightarrow> n')"

lemma after_cordon_unavailable:
  "\<not> IsNodePaused (node_Annotations n) \<Longrightarrow> IsNodeUnavailable (after_cordon n)"
  by (auto simp: after_cordon_def cordon_change_def IsNodeUnavailable_def IsNodePaused_def Let_def
      split: if_splits)

lemma unavailable_after:
  assumes "distinct ns" "distinct sel" "set sel \<subseteq> set ns"
    and "\<And>n. n \<in> set sel \<Longrightarrow> \<not> IsNodeUnavailable n \<and> IsNodeUnavailable (f n)"
  shows "unavailable (map (\<lambda>n. if n \<in> set sel then f n else n) ns) = unavailable ns + length sel"
proof -
  let ?g = "\<lambda>n. if n \<in> set sel then f n else n"
  have u: "unavailable xs = card {x \<in> set xs. IsNodeUnavailable x}" if "distinct xs" for xs
    using that by (simp add: unavailable_def distinct_card [symmetric])
  have "unavailable (map ?g ns) = length (filter (\<lambda>n. IsNodeUnavailable (?g n)) ns)"
    by (simp add: unavailable_def filter_map comp_def)
  also have "\<dots> = card {n \<in> set ns. IsNodeUnavailable (?g n)}"
    using assms(1) by (simp add: distinct_card [symmetric])
  also have "{n \<in> set ns. IsNodeUnavailable (?g n)} = {n \<in> set ns. IsNodeUnavailable n} \<union> set sel"
    using assms(3,4) by auto
  also have "card \<dots> = card {n \<in> set ns. IsNodeUnavailable n} + card (set sel)"
    using assms(4) by (intro card_Un_disjoint) auto
  finally show ?thesis using assms(1,2) u by (simp add: distinct_card)
qed

lemma selected_props:
  assumes "n \<in> set (SelectNodesForUpdate pool ns target)"
  shows "n \<in> set ns" "\<not> IsNodePaused (node_Annotations n)"
    "map_get (node_Annotations n) CurrentRevision \<noteq> target" "\<not> IsNodeUnavailable n"
  using assms in_set_takeD in_candidates by (metis SelectNodesForUpdate_take)+

lemma distinct_selected: "distinct ns \<Longrightarrow> distinct (SelectNodesForUpdate pool ns target)"
  by (simp add: SelectNodesForUpdate_take candidates_def)

section \<open>An example pool\<close>

definition ex_pool :: "IntOrString option \<Rightarrow> MachineConfigPool" where
  "ex_pool mu =
     \<lparr>pool_Name = ''worker'',
      pool_Spec = \<lparr>ps_NodeSelector = None, ps_MachineConfigSelector = None,
        ps_Rollout = \<lparr>ro_DebounceSeconds = 30, ro_ApplyTimeoutSeconds = 600, ro_MaxUnavailable = mu,
          ro_DrainTimeoutSeconds = 3600, ro_DrainRetrySeconds = 0\<rparr>,
        ps_Reboot = \<lparr>rp_Strategy = ''Never'', rp_MinIntervalSeconds = 1800\<rparr>,
        ps_RevisionHistory = \<lparr>rh_Limit = 5\<rparr>, ps_Paused = False\<rparr>,
      pool_Status = \<lparr>pst_TargetRevision = [], pst_CurrentRevision = [], pst_LastSuccessfulRevision = [],
        pst_MachineCount = 0, pst_ReadyMachineCount = 0, pst_UpdatedMachineCount = 0,
        pst_UpdatingMachineCount = 0, pst_DegradedMachineCount = 0, pst_UnavailableMachineCount = 0,
        pst_PendingRebootCount = 0, pst_CordonedMachineCount = 0, pst_DrainingMachineCount = 0,
        pst_Conditions = []\<rparr>\<rparr>"

definition ex_nodes :: "Node list" where
  "ex_nodes = [ex_node ''b'' Map.empty False, ex_node ''a'' Map.empty False, ex_node ''c'' Map.empty True]"

lemmas ex_rollout = ex_pool_def ex_nodes_def ex_node_def

section \<open>Claims\<close>

text \<open>
  C6: the rollout respects \<open>maxUnavailable\<close>. Only nodes of the pool that are not paused,
  not at the target and not already unavailable are selected; and when all of them are
  cordoned, the number of unavailable nodes is at most the budget, or does not grow when the
  budget was already exhausted.
\<close>

theorem rollout_respects_max_unavailable:
  assumes "distinct ns"
  shows "list_all (\<lambda>n. n \<in> set ns \<and> \<not> IsNodePaused (node_Annotations n) \<and> \<not> IsNodeUnavailable n
        \<and> map_get (node_Annotations n) CurrentRevision \<noteq> target) (SelectNodesForUpdate pool ns target)
    \<and> int (unavailable (map (\<lambda>n. if n \<in> set (SelectNodesForUpdate pool ns target) then after_cordon n else n) ns))
        \<le> max (int (unavailable ns)) (budget pool ns)"
proof -
  let ?sel = "SelectNodesForUpdate pool ns target"
  have "unavailable (map (\<lambda>n. if n \<in> set ?sel then after_cordon n else n) ns) = unavailable ns + length ?sel"
    using assms selected_props [of _ pool ns target] distinct_selected
    by (intro unavailable_after) (auto intro: after_cordon_unavailable)
  moreover have "int (length ?sel) \<le> max 0 (budget pool ns - int (unavailable ns))"
    by (simp add: SelectNodesForUpdate_take)
  ultimately show ?thesis
    using selected_props [of _ pool ns target] by (auto simp: list_all_iff)
qed

theorem rollout_respects_max_unavailable_witness:
  "map node_Name (SelectNodesForUpdate (ex_pool (Some (IntVal 2))) ex_nodes ''r2'') = [''a'']
   \<and> int (unavailable (map (\<lambda>n. if n \<in> set (SelectNodesForUpdate (ex_pool (Some (IntVal 2))) ex_nodes ''r2'')
        then after_cordon n else n) ex_nodes)) \<le> 2"
proof -
  have d: "distinct ex_nodes" by (simp add: ex_rollout)
  have u: "unavailable ex_nodes = 1" by (simp add: unavailable_def ex_rollout mco_eval)
  have b: "budget (ex_pool (Some (IntVal 2))) ex_nodes = 2"
    by (simp add: ex_pool_def CalculateMaxUnavailable_def)
  have "map node_Name (SelectNodesForUpdate (ex_pool (Some (IntVal 2))) ex_nodes ''r2'') = [''a'']"
    by (simp add: SelectNodesForUpdate_take u b candidates_def) (simp add: ex_rollout mco_eval)
  then show ?thesis
    using rollout_respects_max_unavailable [OF d, where pool = "ex_pool (Some (IntVal 2))" and target = "''r2''"] u b by simp
qed

text \<open>
  C25: the rollout uses its budget. While fewer nodes are unavailable than the budget allows
  and some node still has to be updated, at least one node is selected; the selected nodes
  come in update order (zone, age, name), and a node is left out only when the budget is
  used up, and then no selected node comes after it.
\<close>

theorem rollout_makes_progress:
  assumes "int (unavailable ns) < budget pool ns"
    and "n \<in> set ns" and "needs_update target n"
  shows "SelectNodesForUpdate pool ns target \<noteq> []
    \<and> sorted (map node_key (SelectNodesForUpdate pool ns target))
    \<and> (n \<in> set (SelectNodesForUpdate pool ns target)
       \<or> int (length (SelectNodesForUpdate pool ns target)) = budget pool ns - int (unavailable ns)
         \<and> list_all (\<lambda>m. node_key m \<le> node_key n) (SelectNodesForUpdate pool ns target))"
proof -
  let ?c = "candidates target ns" and ?k = "nat (budget pool ns - int (unavailable ns))"
  have sel: "SelectNodesForUpdate pool ns target = take ?k ?c" by (rule SelectNodesForUpdate_take)
  have n: "n \<in> set ?c" using assms(2,3) by (simp add: candidates_def)
  have sc: "sorted (map node_key ?c)" by (simp add: candidates_def sorted_SortNodesForUpdate)
  then have st: "sorted (map node_key (take ?k ?c))" by (simp add: take_map [symmetric] sorted_wrt_take)
  have ne: "take ?k ?c \<noteq> []" using assms(1) n by auto
  have "n \<in> set (take ?k ?c) \<or> int (length (take ?k ?c)) = budget pool ns - int (unavailable ns)
      \<and> list_all (\<lambda>m. node_key m \<le> node_key n) (take ?k ?c)"
  proof (cases "n \<in> set (take ?k ?c)")
    case False
    then have d: "n \<in> set (drop ?k ?c)" using n by (metis UnE append_take_drop_id set_append)
    then have "?k < length ?c" by (metis drop_all empty_iff leI list.set(1))
    moreover have "sorted (map node_key (take ?k ?c) @ map node_key (drop ?k ?c))"
      using sc by (simp flip: map_append)
    then have "\<forall>m \<in> set (take ?k ?c). node_key m \<le> node_key n"
      using d by (simp add: sorted_append)
    ultimately show ?thesis using assms(1) by (simp add: list_all_iff)
  qed simp
  then show ?thesis using ne st by (simp add: sel)
qed

theorem rollout_makes_progress_witness:
  "SelectNodesForUpdate (ex_pool (Some (IntVal 2))) ex_nodes ''r2'' \<noteq> []
   \<and> sorted (map node_key (SelectNodesForUpdate (ex_pool (Some (IntVal 2))) ex_nodes ''r2''))"
proof -
  have "int (unavailable ex_nodes) < budget (ex_pool (Some (IntVal 2))) ex_nodes"
    by (simp add: unavailable_def ex_rollout mco_eval)
  moreover have "ex_node ''a'' Map.empty False \<in> set ex_nodes"
    "needs_update ''r2'' (ex_node ''a'' Map.empty False)"
    by (simp_all add: ex_rollout mco_eval)
  ultimately show ?thesis using rollout_makes_progress by blast
qed

text \<open>
  no node of a pool is forgotten and none is handled twice. The nodes in progress and the
  candidates for a new update are disjoint, and together they are exactly the nodes that are
  not paused and either not at the target or waiting to be uncordoned.
\<close>

theorem rollout_partition:
  "set (collectNodesInProgress ns target) \<inter> set (candidates target ns) = {}
   \<and> set (collectNodesInProgress ns target) \<union> set (candidates target ns)
     = {n \<in> set ns. \<not> IsNodePaused (node_Annotations n)
          \<and> (map_get (node_Annotations n) CurrentRevision \<noteq> target \<or> ShouldUncordon n target)}"
proof -
  have "ShouldUncordon n target \<Longrightarrow> \<not> IsNodePaused (node_Annotations n) \<Longrightarrow> IsNodeUnavailable n" for n
    by (auto simp: ShouldUncordon_def IsNodeCordoned_def IsNodeUnavailable_def GetBoolAnnotation_def
        GetAnnotation_def Let_def split: if_splits)
  then show ?thesis
    by (auto simp: in_candidates collectNodesInProgress_def Let_def split: if_splits)
qed

theorem rollout_partition_witness:
  "map node_Name (collectNodesInProgress ex_nodes ''r2'') = [''c'']
   \<and> set (collectNodesInProgress ex_nodes ''r2'') \<inter> set (candidates ''r2'' ex_nodes) = {}"
proof -
  have "map node_Name (collectNodesInProgress ex_nodes ''r2'') = [''c'']"
    by (simp add: ex_rollout mco_eval)
  then show ?thesis using rollout_partition [where ns = ex_nodes and target = "''r2''"] by simp
qed

text \<open>
  A percentage is rounded up and never to zero. For every percentage \<open>p\<close> up to 100 of
  \<open>n\<close> nodes the budget is between 1 and \<open>n\<close>, it covers \<open>p\<close> percent of the nodes,
  and it is the smallest such number.
\<close>

theorem CalculateMaxUnavailable_percent:
  assumes "0 \<le> p" and "p \<le> 100" and "1 \<le> n"
  shows "1 \<le> CalculateMaxUnavailable (Some (StrVal (Itoa p @ ''%''))) n
    \<and> CalculateMaxUnavailable (Some (StrVal (Itoa p @ ''%''))) n \<le> n
    \<and> n * p \<le> 100 * CalculateMaxUnavailable (Some (StrVal (Itoa p @ ''%''))) n
    \<and> (CalculateMaxUnavailable (Some (StrVal (Itoa p @ ''%''))) n = 1
       \<or> 100 * (CalculateMaxUnavailable (Some (StrVal (Itoa p @ ''%''))) n - 1) < n * p)"
proof -
  have "TrimSuffix (Itoa p @ ''%'') ''%'' = Itoa p" by (simp add: TrimSuffix_def HasSuffix_def)
  moreover have "in_int64 p" using assms by (simp add: in_int64_def)
  ultimately have e: "CalculateMaxUnavailable (Some (StrVal (Itoa p @ ''%''))) n = max 1 (ceil_percent n p)"
    by (simp add: CalculateMaxUnavailable_def Atoi_Itoa Let_def)
  have "n * p \<le> 100 * n" using assms by (simp add: mult.commute mult_right_mono)
  then have "ceil_percent n p \<le> n" by (simp add: ceil_percent_le_iff)
  moreover have "n * p \<le> 100 * ceil_percent n p" by (simp flip: ceil_percent_le_iff)
  moreover have "100 * (ceil_percent n p - 1) < n * p"
    using ceil_percent_le_iff [of n p "ceil_percent n p - 1"] by simp
  ultimately show ?thesis using assms(3) by (auto simp: e max_def)
qed

theorem CalculateMaxUnavailable_percent_witness:
  "CalculateMaxUnavailable (Some (StrVal (Itoa 30 @ ''%''))) 5 \<le> 5
   \<and> CalculateMaxUnavailable (Some (StrVal (Itoa 30 @ ''%''))) 5 = 2"
proof -
  let ?e = "CalculateMaxUnavailable (Some (StrVal (Itoa 30 @ ''%''))) 5"
  have "1 \<le> ?e \<and> ?e \<le> 5 \<and> 5 * 30 \<le> 100 * ?e \<and> (?e = 1 \<or> 100 * (?e - 1) < 5 * 30)"
    by (rule CalculateMaxUnavailable_percent) simp_all
  then show ?thesis by presburger
qed

end
