(* ===== verification/Node_Update.thy ===== *)
theory Node_Update
  imports Drain Rollout
begin

text \<open>
  \<open>internal/controller/node_update.go\<close>, \<open>ProcessNodeUpdate\<close>: one reconciliation step of
  the life cycle of a node, cordon, drain, set the desired revision, wait for the agent,
  uncordon. The handler reads the node from the snapshot its caller listed and writes
  through the client. \<open>now\<close> stands for the calls of \<open>time.Now()\<close>; logging and the two
  Prometheus records are left out.
\<close>

section \<open>Definitions\<close>

record NodeUpdateResult =
  nu_RequeueAfter :: duration
  nu_DrainStuck :: bool
  nu_DrainStuckMsg :: string
  nu_Cordoned :: bool
  nu_DrainStarted :: bool
  nu_DrainComplete :: bool
  nu_Uncordoned :: bool
  nu_DrainFailed :: bool
  nu_DrainFailedMsg :: string

text \<open>A result with only \<open>RequeueAfter\<close> set.\<close>

definition requeue :: "duration \<Rightarrow> NodeUpdateResult" where
  "requeue d =
     \<lparr>nu_RequeueAfter = d, nu_DrainStuck = False, nu_DrainStuckMsg = [], nu_Cordoned = False,
      nu_DrainStarted = False, nu_DrainComplete = False, nu_Uncordoned = False,
      nu_DrainFailed = False, nu_DrainFailedMsg = []\<rparr>"

definition isNewNode :: "Node \<Rightarrow> bool" where
  "isNewNode node =
     (GetAnnotation (node_Annotations node) CurrentRevision = []
      \<and> GetAnnotation (node_Annotations node) Pool = []
      \<and> \<not> GetBoolAnnotation (node_Annotations node) Cordoned
      \<and> \<not> node_Unschedulable node)"

definition drainConfig :: DrainConfig where
  "drainConfig = \<lparr>dc_GracePeriod = -1, dc_IgnoreDS = True, dc_DeleteOrphans = True\<rparr>"

text \<open>
  Setting the desired revision, the time it was set and the pool; only the first failure
  ends the handler, the other two are logged. The result is the first error.
\<close>

definition set_desired ::
  "'s client \<Rightarrow> MachineConfigPool \<Rightarrow> Node \<Rightarrow> string \<Rightarrow> time \<Rightarrow> 's \<Rightarrow> go_error option \<times> 's"
where
  "set_desired c pool node targetRevision now s =
     (case SetNodeAnnotation c node DesiredRevision targetRevision s of
        (Some err, s1) \<Rightarrow> (Some err, s1)
      | (None, s1) \<Rightarrow>
          (let s2 = snd (SetNodeAnnotation c node DesiredRevisionSetAt (Format_RFC3339 now) s1);
               s3 = snd (SetNodeAnnotation c node Pool (pool_Name pool) s2)
           in (None, s3)))"

definition ProcessNodeUpdate ::
  "'s client \<Rightarrow> MachineConfigPool \<Rightarrow> Node \<Rightarrow> string \<Rightarrow> int \<Rightarrow> int \<Rightarrow> time \<Rightarrow> 's \<Rightarrow> NodeUpdateResult \<times> 's"
where
  "ProcessNodeUpdate c pool node targetRevision drainTimeoutSeconds drainRetrySeconds now s =
     (if isNewNode node \<and> pst_LastSuccessfulRevision (pool_Status pool) \<noteq> [] then
        (case set_desired c pool node targetRevision now s of
           (Some err, s1) \<Rightarrow> (requeue (Seconds 5), s1)
         | (None, s1) \<Rightarrow> (requeue (Seconds 10), s1))
      else
        let drainWasStarted = GetAnnotation (node_Annotations node) DrainStartedAt \<noteq> [] in
        if \<not> IsNodeCordoned node then
          (case CordonNode c node s of
             (Some err, s1) \<Rightarrow> (requeue (Seconds 5), s1)
           | (None, s1) \<Rightarrow> ((requeue (Seconds 1))\<lparr>nu_Cordoned := True\<rparr>, s1))
        else
          (case IsDrainComplete c node drainConfig s of
             (Inl err, s1) \<Rightarrow> (requeue (Seconds 5), s1)
           | (Inr complete, s1) \<Rightarrow>
               if \<not> complete then
                 (case DrainNode c node drainConfig now s1 of
                    (Some err, s2) \<Rightarrow>
                      (case HandleDrainRetry c node drainTimeoutSeconds drainRetrySeconds now s2 of
                         (retry, s3) \<Rightarrow>
                           ((requeue (dr_RequeueAfter retry))
                              \<lparr>nu_DrainStuck := dr_SetDrainStuck retry,
                               nu_DrainFailed := True,
                               nu_DrainFailedMsg := error_text err,
                               nu_DrainStuckMsg :=
                                 (if dr_SetDrainStuck retry
                                  then ''Node '' @ node_Name node @ '' drain timeout: '' @ error_text err else []),
                               nu_DrainStarted := \<not> drainWasStarted\<rparr>, s3))
                  | (None, s2) \<Rightarrow> ((requeue (Seconds 5))\<lparr>nu_DrainStarted := \<not> drainWasStarted\<rparr>, s2))
               else if GetAnnotation (node_Annotations node) DesiredRevision \<noteq> targetRevision then
                 (case set_desired c pool node targetRevision now s1 of
                    (Some err, s2) \<Rightarrow> (requeue (Seconds 5), s2)
                  | (None, s2) \<Rightarrow>
                      ((requeue (Seconds 1))\<lparr>nu_DrainComplete := drainWasStarted \<and> complete\<rparr>, s2))
               else if ShouldUncordon node targetRevision then
                 (case UncordonNode c node s1 of
                    (Some err, s2) \<Rightarrow> (requeue (Seconds 5), s2)
                  | (None, s2) \<Rightarrow> ((requeue 0)\<lparr>nu_Uncordoned := True\<rparr>, s2))
               else (requeue (Seconds 10), s1)))"

lemmas node_update_defs [mco_eval] =
  requeue_def isNewNode_def drainConfig_def set_desired_def ProcessNodeUpdate_def

section \<open>The steps of the handler\<close>

text \<open>Which calls a run makes and under which conditions, with the state it ends in.\<close>

lemma ProcessNodeUpdate_drained:
  assumes run: "ProcessNodeUpdate c pool node target t r now s = (res, s')"
    and crd: "IsNodeCordoned node" and d: "IsDrainComplete c node drainConfig s = (Inr True, s1)"
  obtains (newNode) e where "isNewNode node" "pst_LastSuccessfulRevision (pool_Status pool) \<noteq> []"
      "set_desired c pool node target now s = (e, s')"
  | (desire) e where "GetAnnotation (node_Annotations node) DesiredRevision \<noteq> target"
      "set_desired c pool node target now s1 = (e, s')"
  | (uncordon) e where "GetAnnotation (node_Annotations node) DesiredRevision = target"
      "ShouldUncordon node target" "UncordonNode c node s1 = (e, s')"
  | (await) "GetAnnotation (node_Annotations node) DesiredRevision = target" "\<not> ShouldUncordon node target" "s' = s1"
  using run crd unfolding ProcessNodeUpdate_def Let_def d prod.case
  by (auto split: prod.splits option.splits if_splits)

lemma ProcessNodeUpdate_cases:
  assumes "ProcessNodeUpdate c pool node target t r now s = (res, s')"
  obtains
    (newNode) e where "isNewNode node" "pst_LastSuccessfulRevision (pool_Status pool) \<noteq> []"
      "set_desired c pool node target now s = (e, s')"
  | (cordon) e where "\<not> IsNodeCordoned node" "CordonNode c node s = (e, s')"
      "\<not> (isNewNode node \<and> pst_LastSuccessfulRevision (pool_Status pool) \<noteq> [])"
  | (unknown) err where "IsNodeCordoned node" "IsDrainComplete c node drainConfig s = (Inl err, s')"
  | (drain) s1 e s2 where "IsNodeCordoned node" "IsDrainComplete c node drainConfig s = (Inr False, s1)"
      "DrainNode c node drainConfig now s1 = (e, s2)"
      "s' = s2 \<or> s' = snd (HandleDrainRetry c node t r now s2)"
  | (desire) s1 e where "IsNodeCordoned node" "IsDrainComplete c node drainConfig s = (Inr True, s1)"
      "GetAnnotation (node_Annotations node) DesiredRevision \<noteq> target"
      "set_desired c pool node target now s1 = (e, s')"
  | (uncordon) s1 e where "IsNodeCordoned node" "IsDrainComplete c node drainConfig s = (Inr True, s1)"
      "GetAnnotation (node_Annotations node) DesiredRevision = target"
      "ShouldUncordon node target" "UncordonNode c node s1 = (e, s')"
  | (await) "IsNodeCordoned node" "IsDrainComplete c node drainConfig s = (Inr True, s')"
      "GetAnnotation (node_Annotations node) DesiredRevision = target" "\<not> ShouldUncordon node target"
proof (cases "isNewNode node \<and> pst_LastSuccessfulRevision (pool_Status pool) \<noteq> []")
  case True
  then show thesis
    using assms newNode by (auto simp: ProcessNodeUpdate_def split: prod.splits option.splits)
next
  case old: False
  show thesis
  proof (cases "IsNodeCordoned node")
    case False
    then show thesis
      using assms cordon old
      by (auto simp: ProcessNodeUpdate_def Let_def split: prod.splits option.splits)
  next
    case crd: True
    obtain d s1 where d: "IsDrainComplete c node drainConfig s = (d, s1)"
      by (cases "IsDrainComplete c node drainConfig s")
    note run = assms [unfolded ProcessNodeUpdate_def if_not_P [OF old] Let_def d prod.case]
    consider (err) err where "d = Inl err" | (no) "d = Inr False" | (yes) "d = Inr True"
      by (cases d) auto
    then show thesis
    proof cases
      case err
      then show thesis using run unknown crd d by simp
    next
      case no
      obtain e s2 where e: "DrainNode c node drainConfig now s1 = (e, s2)"
        by (cases "DrainNode c node drainConfig now s1")
      have "s' = s2 \<or> s' = snd (HandleDrainRetry c node t r now s2)"
        using run no crd by (cases e; cases "HandleDrainRetry c node t r now s2") (auto simp: e)
      then show thesis using drain [OF crd d [unfolded no] e] by blast
    next
      case yes
      from assms crd d [unfolded yes] show thesis
        by (rule ProcessNodeUpdate_drained)
          (use newNode old desire [OF crd d [unfolded yes]] uncordon [OF crd d [unfolded yes]]
            await [OF crd] d [unfolded yes] in blast)+
    qed
  qed
qed

section \<open>Observations a write leaves alone\<close>

text \<open>
  \<open>obs\<close> reads something of a node other than its version. A write whose change keeps the
  observation keeps it for every node.
\<close>

definition observes :: "(Node \<Rightarrow> 'a) \<Rightarrow> bool" where
  "observes obs \<longleftrightarrow> (\<forall>nd v. obs (nd\<lparr>node_ResourceVersion := v\<rparr>) = obs nd)"

definition keeps :: "(Node \<Rightarrow> 'a) \<Rightarrow> (Node \<Rightarrow> Node option) \<Rightarrow> bool" where
  "keeps obs f \<longleftrightarrow> (\<forall>cur new. f cur = Some new \<longrightarrow> obs new = obs cur)"

definition view :: "(Node \<Rightarrow> 'a) \<Rightarrow> (string \<rightharpoonup> Node) \<Rightarrow> string \<rightharpoonup> 'a" where
  "view obs m k = map_option obs (m k)"

lemma node_write_view:
  assumes "node_write R m n f r m'" "observes obs" "keeps obs f"
  shows "view obs m' = view obs m"
  using assms by (cases rule: node_write.cases) (auto simp: view_def fun_eq_iff observes_def keeps_def)

definition desired_of :: "Node \<Rightarrow> string" where
  "desired_of nd = GetAnnotation (node_Annotations nd) DesiredRevision"

lemma observes_fields [simp, mco_frame]:
  "observes desired_of" "observes node_Unschedulable"
  "observes (\<lambda>nd. GetAnnotation (node_Annotations nd) k)"
  by (simp_all add: observes_def desired_of_def)

lemma keeps_desired [simp, mco_frame]:
  "keeps desired_of cordon_change" "keeps desired_of uncordon_change"
  "key \<noteq> DesiredRevision \<Longrightarrow> keeps desired_of (annotate_change key v)"
  by (auto simp: keeps_def desired_of_def node_changes split: if_splits)

lemma keeps_unschedulable [simp, mco_frame]: "keeps node_Unschedulable (annotate_change key v)"
  by (auto simp: keeps_def annotate_change_def split: if_splits)

text \<open>The annotations that draining writes.\<close>

definition keeps_drain :: "(Node \<Rightarrow> 'a) \<Rightarrow> bool" where
  "keeps_drain obs \<longleftrightarrow>
     observes obs \<and> (\<forall>v. keeps obs (annotate_change DrainStartedAt v))
     \<and> (\<forall>v. keeps obs (annotate_change DrainRetryCount v))"

lemma keeps_drain_fields [simp, mco_frame]: "keeps_drain desired_of" "keeps_drain node_Unschedulable"
  by (simp_all add: keeps_drain_def)

context pod_api
begin

lemma SetNodeAnnotation_view:
  assumes "observes obs" "keeps obs (annotate_change key v)"
  shows "view obs (nodes (snd (SetNodeAnnotation c node key v s))) = view obs (nodes s)"
  using SetNodeAnnotation_write [of node key v s] node_write_view [OF _ assms]
  by (metis prod.collapse)

lemma ListPods_view: "ListPods c s n = (r, s') \<Longrightarrow> nodes s' = nodes s"
  using list_frame by blast

lemma IsDrainComplete_view: "IsDrainComplete c node cfg s = (r, s') \<Longrightarrow> nodes s' = nodes s"
  by (auto simp: IsDrainComplete_def split: prod.splits sum.splits dest: ListPods_view)

lemma DrainNode_view:
  assumes obs: "keeps_drain obs" and d: "DrainNode c node cfg now s = (r, s')"
  shows "view obs (nodes s') = view obs (nodes s)"
proof -
  define a where "a = (if GetAnnotation (node_Annotations node) DrainStartedAt = []
    then SetNodeAnnotation c node DrainStartedAt (Format_RFC3339 now) s else (None, s))"
  obtain r1 s1 where a1: "a = (r1, s1)" by (cases a)
  have 1: "view obs (nodes s1) = view obs (nodes s)"
    using a1 obs SetNodeAnnotation_view [of obs DrainStartedAt "Format_RFC3339 now" node s]
    by (auto simp: a_def keeps_drain_def split: if_splits)
  have "nodes s' = nodes s1"
    using d unfolding DrainNode_def a_def [symmetric] a1
    by (auto simp: Let_def split: option.splits prod.splits sum.splits if_splits list.splits
        dest!: ListPods_view evict_all_frame)
  then show ?thesis using 1 by simp
qed

lemma HandleDrainRetry_view:
  assumes "keeps_drain obs" and "HandleDrainRetry c node t r now s = (res, s')"
  shows "view obs (nodes s') = view obs (nodes s)"
proof -
  have "s' = s \<or> s' = snd (SetNodeAnnotation c node DrainRetryCount
      (Itoa (wrap64 (GetIntAnnotation node DrainRetryCount + 1))) s)"
    using assms(2) by (auto simp: HandleDrainRetry_def Let_def split: option.splits if_splits)
  then show ?thesis using assms(1) by (auto simp: keeps_drain_def SetNodeAnnotation_view)
qed

lemma CordonNode_view:
  "observes obs \<Longrightarrow> keeps obs cordon_change \<Longrightarrow> CordonNode c node s = (r, s') \<Longrightarrow>
     view obs (nodes s') = view obs (nodes s)"
  using CordonNode_write node_write_view by blast

lemma UncordonNode_view:
  "observes obs \<Longrightarrow> keeps obs uncordon_change \<Longrightarrow> UncordonNode c node s = (r, s') \<Longrightarrow>
     view obs (nodes s') = view obs (nodes s)"
  using UncordonNode_write node_write_view by blast

text \<open>Setting the desired revision: on the target node only, and to the target.\<close>

lemma set_desired_view:
  assumes "set_desired c pool node target now s = (r, s')"
    and "view desired_of (nodes s') k \<noteq> view desired_of (nodes s) k"
  shows "k = node_Name node \<and> view desired_of (nodes s') k = Some target"
proof -
  obtain r1 s1 where 1: "SetNodeAnnotation c node DesiredRevision target s = (r1, s1)"
    by (cases "SetNodeAnnotation c node DesiredRevision target s")
  have s': "view desired_of (nodes s') = view desired_of (nodes s1)"
    using assms(1) by (auto simp: set_desired_def 1 Let_def SetNodeAnnotation_view split: option.splits)
  show ?thesis
    using SetNodeAnnotation_write [OF 1] assms(2)
    unfolding s'
    by (cases rule: node_write.cases)
       (auto simp: view_def annotate_change_def desired_of_def split: if_splits)
qed

lemma set_desired_keeps:
  assumes "set_desired c pool node target now s = (r, s')" and "observes obs"
    and "\<And>key v. keeps obs (annotate_change key v)"
  shows "view obs (nodes s') = view obs (nodes s)"
  using assms SetNodeAnnotation_view [OF assms(2,3)]
  by (auto simp: set_desired_def Let_def split: option.splits prod.splits)
     (metis prod.collapse prod.inject)+

text \<open>
  The two decisions of the handler, seen from the server: which steps can change a desired
  revision, and which steps can change whether a node is schedulable.
\<close>

lemma ProcessNodeUpdate_desired:
  assumes run: "ProcessNodeUpdate c pool node target t r now s = (res, s')"
    and diff: "view desired_of (nodes s') k \<noteq> view desired_of (nodes s) k"
  shows "k = node_Name node \<and> view desired_of (nodes s') k = Some target
    \<and> (isNewNode node \<and> pst_LastSuccessfulRevision (pool_Status pool) \<noteq> []
       \<or> IsNodeCordoned node \<and> (\<exists>s1. IsDrainComplete c node drainConfig s = (Inr True, s1)))"
  using run
proof (cases rule: ProcessNodeUpdate_cases)
  case (newNode e)
  then show ?thesis using set_desired_view [OF newNode(3) diff] by blast
next
  case (cordon e)
  then show ?thesis using diff CordonNode_view [OF _ _ cordon(2), of desired_of] by simp
next
  case (unknown err)
  then show ?thesis using diff IsDrainComplete_view by auto
next
  case (drain s1 e s2)
  then have "view desired_of (nodes s') = view desired_of (nodes s)"
    using DrainNode_view [OF _ drain(3), of desired_of] HandleDrainRetry_view [of desired_of node t r now s2]
      IsDrainComplete_view [OF drain(2)] by (auto simp: prod_eq_iff)
  then show ?thesis using diff by simp
next
  case (desire s1 e)
  then show ?thesis
    using set_desired_view [OF desire(4)] diff IsDrainComplete_view [OF desire(2)] by auto
next
  case (uncordon s1 e)
  then show ?thesis
    using diff UncordonNode_view [OF _ _ uncordon(5), of desired_of] IsDrainComplete_view [OF uncordon(2)] by simp
next
  case await
  then show ?thesis using diff IsDrainComplete_view by auto
qed

lemma ProcessNodeUpdate_schedulable:
  assumes run: "ProcessNodeUpdate c pool node target t r now s = (res, s')"
    and diff: "view node_Unschedulable (nodes s') k \<noteq> view node_Unschedulable (nodes s) k"
  shows "k = node_Name node
    \<and> (if IsNodeCordoned node
       then view node_Unschedulable (nodes s') k = Some False \<and> ShouldUncordon node target
         \<and> GetAnnotation (node_Annotations node) DesiredRevision = target
         \<and> (\<exists>s1. IsDrainComplete c node drainConfig s = (Inr True, s1))
       else view node_Unschedulable (nodes s') k = Some True)"
  using run
proof (cases rule: ProcessNodeUpdate_cases)
  case (newNode e)
  then show ?thesis
    using diff set_desired_keeps [OF newNode(3), of node_Unschedulable] by simp
next
  case (cordon e)
  from CordonNode_write [OF cordon(2)] show ?thesis
    using diff cordon(1)
    by (cases rule: node_write.cases) (auto simp: view_def cordon_change_def split: if_splits)
next
  case (unknown err)
  then show ?thesis using diff IsDrainComplete_view by auto
next
  case (drain s1 e s2)
  then have "view node_Unschedulable (nodes s') = view node_Unschedulable (nodes s)"
    using DrainNode_view [OF _ drain(3), of node_Unschedulable]
      HandleDrainRetry_view [of node_Unschedulable node t r now s2]
      IsDrainComplete_view [OF drain(2)] by (auto simp: prod_eq_iff)
  then show ?thesis using diff by simp
next
  case (desire s1 e)
  then show ?thesis
    using diff set_desired_keeps [OF desire(4), of node_Unschedulable] IsDrainComplete_view [OF desire(2)] by simp
next
  case (uncordon s1 e)
  from UncordonNode_write [OF uncordon(5)] show ?thesis
    using diff uncordon(1-4) IsDrainComplete_view [OF uncordon(2)]
    by (cases rule: node_write.cases) (auto simp: view_def uncordon_change_def split: if_splits)
next
  case await
  then show ?thesis using diff IsDrainComplete_view by auto
qed

end

section \<open>Claims\<close>

text \<open>
  C5: no node gets a new revision while its workload is running. If a step of the handler
  changes the desired revision of any node on the server, it is the node handled, the new
  value is the target, and either the node is new to a pool that has been rolled out before,
  or the node was cordoned by the operator and no pod that may be evicted was left on it.
\<close>

theorem desired_revision_only_after_drain:
  assumes "pod_api c nodes pods"
    and "ProcessNodeUpdate c pool node target t r now s = (res, s')"
    and "view desired_of (nodes s') k \<noteq> view desired_of (nodes s) k"
  shows "k = node_Name node \<and> view desired_of (nodes s') k = Some target
    \<and> (isNewNode node \<and> pst_LastSuccessfulRevision (pool_Status pool) \<noteq> []
       \<or> IsNodeCordoned node
         \<and> (\<forall>q p. pods s q = Some p \<longrightarrow> pod_NodeName p = node_Name node \<longrightarrow> \<not> evictable drainConfig p))"
  using pod_api.ProcessNodeUpdate_desired [OF assms] pod_api.IsDrainComplete_iff [OF assms(1)]
  by blast

definition ex_cordoned :: Node where
  "ex_cordoned = ex_node ''w1'' [Cordoned \<mapsto> ValueTrue] True"

lemma ex_set_desired_run:
  "view desired_of (mem_nodes (snd (ProcessNodeUpdate mem_client (ex_pool None) ex_cordoned ''r2'' 0 0 0
      (ex_cluster [ex_cordoned] [])))) ''w1'' = Some ''r2''"
  "view desired_of (mem_nodes (ex_cluster [ex_cordoned] [])) ''w1'' = Some []"
  by (simp_all add: ex_cordoned_def ex_rollout ex_cluster_def mem_defs node_update_defs drain_defs cordon_defs
      desired_of_def view_def annotation_defs map_get_def Let_def)

theorem desired_revision_only_after_drain_witness:
  "view desired_of (mem_nodes (snd (ProcessNodeUpdate mem_client (ex_pool None) ex_cordoned ''r2'' 0 0 0
      (ex_cluster [ex_cordoned] [])))) ''w1'' = Some ''r2''
   \<and> (isNewNode ex_cordoned \<and> pst_LastSuccessfulRevision (pool_Status (ex_pool None)) \<noteq> []
      \<or> IsNodeCordoned ex_cordoned
        \<and> (\<forall>q p. mem_pods (ex_cluster [ex_cordoned] []) q = Some p \<longrightarrow> pod_NodeName p = node_Name ex_cordoned
             \<longrightarrow> \<not> evictable drainConfig p))"
proof -
  let ?s = "ex_cluster [ex_cordoned] []"
  let ?p = "ProcessNodeUpdate mem_client (ex_pool None) ex_cordoned ''r2'' 0 0 0 ?s"
  have run: "?p = (fst ?p, snd ?p)" by simp
  have diff: "view desired_of (mem_nodes (snd ?p)) ''w1'' \<noteq> view desired_of (mem_nodes ?s) ''w1''"
    by (simp add: ex_set_desired_run)
  show ?thesis
    using desired_revision_only_after_drain [OF mem.pod_api_axioms run diff] by blast
qed

text \<open>
  C7: nodes are taken out of service and given back only as the life cycle says. If a step
  changes whether some node is schedulable, it is the node handled; a node without the
  operator's mark can only become unschedulable, and a marked node becomes schedulable only
  when the agent has reported the target revision as current and done, the node's desired
  revision is the target, and the drain is complete.
\<close>

theorem schedulability_follows_life_cycle:
  assumes "pod_api c nodes pods"
    and "ProcessNodeUpdate c pool node target t r now s = (res, s')"
    and "view node_Unschedulable (nodes s') k \<noteq> view node_Unschedulable (nodes s) k"
  shows "k = node_Name node
    \<and> (if IsNodeCordoned node
       then view node_Unschedulable (nodes s') k = Some False
         \<and> GetAnnotation (node_Annotations node) CurrentRevision = target
         \<and> GetAnnotation (node_Annotations node) AgentState = StateDone
         \<and> GetAnnotation (node_Annotations node) DesiredRevision = target
         \<and> (\<forall>q p. pods s q = Some p \<longrightarrow> pod_NodeName p = node_Name node \<longrightarrow> \<not> evictable drainConfig p)
       else view node_Unschedulable (nodes s') k = Some True)"
proof -
  have "ShouldUncordon node target \<Longrightarrow>
      GetAnnotation (node_Annotations node) CurrentRevision = target
      \<and> GetAnnotation (node_Annotations node) AgentState = StateDone"
    by (simp add: ShouldUncordon_def Let_def split: if_splits)
  then show ?thesis
    using pod_api.ProcessNodeUpdate_schedulable [OF assms]
    by (auto split: if_splits dest: pod_api.IsDrainComplete_none_left [OF assms(1)])
qed

definition ex_finished :: Node where
  "ex_finished = ex_node ''w1'' [Cordoned \<mapsto> ValueTrue, DesiredRevision \<mapsto> ''r2'', CurrentRevision \<mapsto> ''r2'',
     AgentState \<mapsto> StateDone, DrainStartedAt \<mapsto> ''2024-01-01T00:00:00Z''] True"

lemma ex_uncordon_run:
  "view node_Unschedulable (mem_nodes (snd (ProcessNodeUpdate mem_client (ex_pool None) ex_finished ''r2'' 0 0 0
      (ex_cluster [ex_finished] [])))) ''w1'' = Some False"
  "view node_Unschedulable (mem_nodes (ex_cluster [ex_finished] [])) ''w1'' = Some True"
  by (simp_all add: ex_finished_def ex_rollout ex_cluster_def mem_defs node_update_defs drain_defs cordon_defs
      view_def annotation_defs Let_def)

theorem schedulability_follows_life_cycle_witness:
  "view node_Unschedulable (mem_nodes (snd (ProcessNodeUpdate mem_client (ex_pool None) ex_finished ''r2'' 0 0 0
      (ex_cluster [ex_finished] [])))) ''w1'' = Some False
   \<and> GetAnnotation (node_Annotations ex_finished) CurrentRevision = ''r2''"
proof -
  let ?s = "ex_cluster [ex_finished] []"
  let ?p = "ProcessNodeUpdate mem_client (ex_pool None) ex_finished ''r2'' 0 0 0 ?s"
  have run: "?p = (fst ?p, snd ?p)" by simp
  have diff: "view node_Unschedulable (mem_nodes (snd ?p)) ''w1'' \<noteq> view node_Unschedulable (mem_nodes ?s) ''w1''"
    by (simp add: ex_uncordon_run)
  have "IsNodeCordoned ex_finished" by (simp add: ex_finished_def ex_node_def IsNodeCordoned_def)
  then show ?thesis
    using schedulability_follows_life_cycle [OF mem.pod_api_axioms run diff] ex_uncordon_run(1) by simp
qed

end
