(* ===== verification/Pool_Selection.thy ===== *)
theory Pool_Selection
  imports Kube_Client
begin

text \<open>
  \<open>internal/controller/selector.go\<close> and \<open>internal/controller/overlap.go\<close>: which nodes and
  configs belong to a pool, and which nodes are claimed by several pools.
  \<open>metav1.LabelSelectorAsSelector\<close> belongs to Kubernetes: it is the parameter
  \<open>asSelector\<close>, which turns a label selector into its match function or fails. A selector
  that is absent matches everything.
\<close>

section \<open>Selectors\<close>

type_synonym as_selector = "LabelSelector \<Rightarrow> (labels \<Rightarrow> bool) result"

definition selectorFromLabelSelector :: "as_selector \<Rightarrow> LabelSelector option \<Rightarrow> (labels \<Rightarrow> bool) result" where
  "selectorFromLabelSelector asSelector ls =
     (case ls of None \<Rightarrow> Inr (\<lambda>_. True)
      | Some l \<Rightarrow> (case asSelector l of Inl err \<Rightarrow> Inl err | Inr sel \<Rightarrow> Inr sel))"

definition SelectNodes :: "'s client \<Rightarrow> as_selector \<Rightarrow> MachineConfigPool \<Rightarrow> 's \<Rightarrow> Node list result \<times> 's" where
  "SelectNodes c asSelector pool s =
     (case selectorFromLabelSelector asSelector (ps_NodeSelector (pool_Spec pool)) of
        Inl err \<Rightarrow> (Inl (Wrap ''invalid nodeSelector'' err), s)
      | Inr selector \<Rightarrow>
          (case ListNodes c s selector of
             (Inl err, s1) \<Rightarrow> (Inl (Wrap ''failed to list nodes'' err), s1)
           | (Inr items, s1) \<Rightarrow> (Inr items, s1)))"

definition SelectMachineConfigs ::
  "'s client \<Rightarrow> as_selector \<Rightarrow> MachineConfigPool \<Rightarrow> 's \<Rightarrow> MachineConfig list result \<times> 's"
where
  "SelectMachineConfigs c asSelector pool s =
     (case selectorFromLabelSelector asSelector (ps_MachineConfigSelector (pool_Spec pool)) of
        Inl err \<Rightarrow> (Inl (Wrap ''invalid machineConfigSelector'' err), s)
      | Inr selector \<Rightarrow>
          (case ListMachineConfigs c s selector of
             (Inl err, s1) \<Rightarrow> (Inl (Wrap ''failed to list MachineConfigs'' err), s1)
           | (Inr items, s1) \<Rightarrow> (Inr items, s1)))"

definition NodesForPool :: "'s client \<Rightarrow> as_selector \<Rightarrow> MachineConfigPool \<Rightarrow> 's \<Rightarrow> Node list result \<times> 's" where
  "NodesForPool = SelectNodes"

definition MachineConfigsForPool ::
  "'s client \<Rightarrow> as_selector \<Rightarrow> MachineConfigPool \<Rightarrow> 's \<Rightarrow> MachineConfig list result \<times> 's"
where
  "MachineConfigsForPool = SelectMachineConfigs"

definition NodeMatchesPool :: "as_selector \<Rightarrow> Node \<Rightarrow> MachineConfigPool \<Rightarrow> bool result" where
  "NodeMatchesPool asSelector node pool =
     (case selectorFromLabelSelector asSelector (ps_NodeSelector (pool_Spec pool)) of
        Inl err \<Rightarrow> Inl (Wrap ''invalid nodeSelector'' err)
      | Inr selector \<Rightarrow> Inr (selector (node_Labels node)))"

definition MachineConfigMatchesPool :: "as_selector \<Rightarrow> MachineConfig \<Rightarrow> MachineConfigPool \<Rightarrow> bool result" where
  "MachineConfigMatchesPool asSelector mc pool =
     (case selectorFromLabelSelector asSelector (ps_MachineConfigSelector (pool_Spec pool)) of
        Inl err \<Rightarrow> Inl (Wrap ''invalid machineConfigSelector'' err)
      | Inr selector \<Rightarrow> Inr (selector (mc_Labels mc)))"

section \<open>Overlap\<close>

text \<open>The map from node names to the pools that claim them, iterated over by the code.\<close>

record OverlapResult =
  ov_ConflictingNodes :: "(string \<times> string list) list"

definition NewOverlapResult :: OverlapResult where
  "NewOverlapResult = \<lparr>ov_ConflictingNodes = []\<rparr>"

definition HasConflicts :: "OverlapResult \<Rightarrow> bool" where
  "HasConflicts r \<longleftrightarrow> length (ov_ConflictingNodes r) > 0"

definition ConflictCount :: "OverlapResult \<Rightarrow> nat" where
  "ConflictCount r = length (ov_ConflictingNodes r)"

definition GetConflictsForPool :: "OverlapResult \<Rightarrow> string \<Rightarrow> string list" where
  "GetConflictsForPool r poolName =
     sort_strings (map fst (filter (\<lambda>(nodeName, pools). poolName \<in> set pools) (ov_ConflictingNodes r)))"

definition GetPoolsForNode :: "OverlapResult \<Rightarrow> string \<Rightarrow> string list" where
  "GetPoolsForNode r nodeName =
     (case map_of (ov_ConflictingNodes r) nodeName of None \<Rightarrow> [] | Some pools \<Rightarrow> pools)"

definition IsNodeConflicting :: "OverlapResult \<Rightarrow> string \<Rightarrow> bool" where
  "IsNodeConflicting r nodeName \<longleftrightarrow> map_of (ov_ConflictingNodes r) nodeName \<noteq> None"

definition GetAllConflictingPools :: "OverlapResult \<Rightarrow> string list" where
  "GetAllConflictingPools r = sort_strings (remdups (concat (map snd (ov_ConflictingNodes r))))"

definition nodeMatchesPoolSelector :: "as_selector \<Rightarrow> Node \<Rightarrow> MachineConfigPool \<Rightarrow> bool result" where
  "nodeMatchesPoolSelector asSelector node pool =
     (case ps_NodeSelector (pool_Spec pool) of
        None \<Rightarrow> Inr True
      | Some ls \<Rightarrow>
          (case asSelector ls of Inl err \<Rightarrow> Inl err | Inr selector \<Rightarrow> Inr (selector (node_Labels node))))"

definition note_pool :: "(string \<times> string list) list \<Rightarrow> Node \<Rightarrow> MachineConfigPool \<Rightarrow> (string \<times> string list) list" where
  "note_pool m node pool =
     AList.update (node_Name node)
       ((case map_of m (node_Name node) of None \<Rightarrow> [] | Some ps \<Rightarrow> ps) @ [pool_Name pool]) m"

text \<open>The inner loop over the pools; a pool with an invalid selector is skipped.\<close>

definition scan_pools ::
  "as_selector \<Rightarrow> MachineConfigPool list \<Rightarrow> (string \<times> string list) list \<Rightarrow> Node \<Rightarrow> (string \<times> string list) list"
where
  "scan_pools asSelector pools m node =
     foldl (\<lambda>m pool.
       case nodeMatchesPoolSelector asSelector node pool of
         Inl err \<Rightarrow> m
       | Inr matches \<Rightarrow> if matches then note_pool m node pool else m) m pools"

definition DetectPoolOverlapFromLists :: "as_selector \<Rightarrow> MachineConfigPool list \<Rightarrow> Node list \<Rightarrow> OverlapResult" where
  "DetectPoolOverlapFromLists asSelector pools nodes =
     (let nodeToPool = foldl (scan_pools asSelector pools) [] nodes in
      NewOverlapResult\<lparr>ov_ConflictingNodes :=
        map (\<lambda>(nodeName, poolNames). (nodeName, sort_strings poolNames))
          (filter (\<lambda>(nodeName, poolNames). length poolNames > 1) nodeToPool)\<rparr>)"

definition DetectPoolOverlap :: "'s client \<Rightarrow> as_selector \<Rightarrow> 's \<Rightarrow> OverlapResult result \<times> 's" where
  "DetectPoolOverlap c asSelector s =
     (case ListPools c s of
        (Inl err, s1) \<Rightarrow> (Inl err, s1)
      | (Inr pools, s1) \<Rightarrow>
          (case ListNodes c s1 (\<lambda>_. True) of
             (Inl err, s2) \<Rightarrow> (Inl err, s2)
           | (Inr nodes, s2) \<Rightarrow> (Inr (DetectPoolOverlapFromLists asSelector pools nodes), s2)))"

definition FilterNonConflictingNodes :: "Node list \<Rightarrow> OverlapResult option \<Rightarrow> Node list" where
  "FilterNonConflictingNodes nodes overlap =
     (case overlap of
        None \<Rightarrow> nodes
      | Some r \<Rightarrow>
          if \<not> HasConflicts r then nodes
          else filter (\<lambda>node. \<not> IsNodeConflicting r (node_Name node)) nodes)"

lemmas selection_defs [mco_eval] =
  selectorFromLabelSelector_def SelectNodes_def SelectMachineConfigs_def NodesForPool_def
  MachineConfigsForPool_def NodeMatchesPool_def MachineConfigMatchesPool_def NewOverlapResult_def
  HasConflicts_def ConflictCount_def GetConflictsForPool_def GetPoolsForNode_def IsNodeConflicting_def
  GetAllConflictingPools_def nodeMatchesPoolSelector_def note_pool_def scan_pools_def
  DetectPoolOverlapFromLists_def DetectPoolOverlap_def FilterNonConflictingNodes_def sort_strings_def

section \<open>Which pools claim a node\<close>

definition claims :: "as_selector \<Rightarrow> Node \<Rightarrow> MachineConfigPool \<Rightarrow> bool" where
  "claims asSelector node pool \<longleftrightarrow> NodeMatchesPool asSelector node pool = Inr True"

text \<open>The two copies of the matching rule in the sources agree.\<close>

lemma nodeMatchesPoolSelector_claims:
  "nodeMatchesPoolSelector asSelector node pool = Inr True \<longleftrightarrow> claims asSelector node pool"
  by (auto simp: nodeMatchesPoolSelector_def claims_def NodeMatchesPool_def selectorFromLabelSelector_def
      split: option.splits sum.splits)

definition claiming :: "as_selector \<Rightarrow> MachineConfigPool list \<Rightarrow> Node \<Rightarrow> string list" where
  "claiming asSelector pools node = map pool_Name (filter (claims asSelector node) pools)"

lemma scan_pools_map:
  "map_of (scan_pools asSelector pools m node) =
     (if claiming asSelector pools node = [] then map_of m
      else (map_of m)(node_Name node \<mapsto>
        (case map_of m (node_Name node) of None \<Rightarrow> [] | Some ps \<Rightarrow> ps) @ claiming asSelector pools node))"
proof (induction pools arbitrary: m)
  case Nil
  then show ?case by (simp add: scan_pools_def claiming_def)
next
  case (Cons pool pools)
  have step: "scan_pools asSelector (pool # pools) m node =
      scan_pools asSelector pools (if claims asSelector node pool then note_pool m node pool else m) node"
    using nodeMatchesPoolSelector_claims [of asSelector node pool]
    by (auto simp: scan_pools_def split: sum.splits)
  show ?case
    by (auto simp: step Cons.IH note_pool_def update_conv' claiming_def fun_eq_iff)
qed

lemma scan_pools_distinct: "distinct (map fst m) \<Longrightarrow> distinct (map fst (scan_pools asSelector pools m node))"
proof (induction pools arbitrary: m)
  case (Cons pool pools)
  then show ?case
    by (auto simp: scan_pools_def note_pool_def distinct_update split: sum.splits)
qed (simp add: scan_pools_def)

lemma scan_nodes_map:
  assumes "distinct (map node_Name nodes)"
  shows "map_of (foldl (scan_pools asSelector pools) m nodes) k =
    (case find (\<lambda>n. node_Name n = k) nodes of
       None \<Rightarrow> map_of m k
     | Some n \<Rightarrow> if claiming asSelector pools n = [] then map_of m k
        else Some ((case map_of m k of None \<Rightarrow> [] | Some ps \<Rightarrow> ps) @ claiming asSelector pools n))"
  using assms
proof (induction nodes arbitrary: m)
  case (Cons n nodes)
  have none: "find (\<lambda>x. node_Name x = node_Name n) nodes = None"
    unfolding find_None_iff using Cons.prems by (auto simp: rev_image_eqI)
  show ?case
    using Cons none by (auto simp: scan_pools_map split: option.splits)
qed simp

lemma scan_nodes_distinct:
  "distinct (map fst m) \<Longrightarrow> distinct (map fst (foldl (scan_pools asSelector pools) m nodes))"
  by (induction nodes arbitrary: m) (auto simp: scan_pools_distinct)

lemma map_of_filter_map:
  "distinct (map fst m) \<Longrightarrow>
     map_of (map (\<lambda>(k, v). (k, f v)) (filter (\<lambda>(k, v). P v) m)) k
       = (case map_of m k of Some v \<Rightarrow> if P v then Some (f v) else None | None \<Rightarrow> None)"
proof (induction m)
  case (Cons kv m)
  then have "map_of m (fst kv) = None" by (simp add: map_of_eq_None_iff)
  with Cons show ?case by (cases kv) (auto split: option.splits)
qed simp

lemma find_node:
  assumes "distinct (map node_Name nodes)" "n \<in> set nodes"
  shows "find (\<lambda>m. node_Name m = node_Name n) nodes = Some n"
  using assms by (induction nodes) (auto simp: image_iff)

lemma overlap_of_node:
  assumes "distinct (map node_Name nodes)" "n \<in> set nodes"
  shows "map_of (ov_ConflictingNodes (DetectPoolOverlapFromLists asSelector pools nodes)) (node_Name n)
    = (if length (claiming asSelector pools n) > 1
       then Some (sort_strings (claiming asSelector pools n)) else None)"
proof -
  let ?m = "foldl (scan_pools asSelector pools) [] nodes"
  have "distinct (map fst ?m)" by (rule scan_nodes_distinct) simp
  then show ?thesis
    using scan_nodes_map [OF assms(1), of asSelector pools "[]" "node_Name n"] find_node [OF assms]
    by (auto simp: DetectPoolOverlapFromLists_def Let_def map_of_filter_map NewOverlapResult_def)
qed

lemma filter_non_conflicting:
  assumes "distinct (map node_Name nodes)" "set ns \<subseteq> set nodes"
  shows "set (FilterNonConflictingNodes ns (Some (DetectPoolOverlapFromLists asSelector pools nodes)))
    = {n \<in> set ns. length (claiming asSelector pools n) \<le> 1}"
proof -
  let ?o = "DetectPoolOverlapFromLists asSelector pools nodes"
  have c: "IsNodeConflicting ?o (node_Name n) \<longleftrightarrow> length (claiming asSelector pools n) > 1" if "n \<in> set ns" for n
  proof -
    have "n \<in> set nodes" using that assms(2) by blast
    then show ?thesis by (simp add: IsNodeConflicting_def overlap_of_node [OF assms(1)])
  qed
  have "\<not> HasConflicts ?o \<Longrightarrow> \<not> IsNodeConflicting ?o k" for k
    by (simp add: HasConflicts_def IsNodeConflicting_def)
  then show ?thesis using c by (auto simp: FilterNonConflictingNodes_def not_less)
qed

lemma two_claims:
  assumes "p \<in> set pools" "q \<in> set pools" "p \<noteq> q" "claims asSelector n p" "claims asSelector n q"
  shows "length (claiming asSelector pools n) > 1"
proof -
  have "{p, q} \<subseteq> set (filter (claims asSelector n) pools)" using assms by auto
  then have "card {p, q} \<le> length (filter (claims asSelector n) pools)"
    by (meson List.finite_set card_length card_mono le_trans)
  then show ?thesis using assms(3) by (simp add: claiming_def)
qed

section \<open>Claims\<close>

definition ex_selector :: as_selector where
  "ex_selector ls = Inr (\<lambda>l. \<forall>(k, v) \<in> set (sel_MatchLabels ls). l k = Some v)"

definition ex_select_pool :: "string \<Rightarrow> LabelSelector option \<Rightarrow> MachineConfigPool" where
  "ex_select_pool n sel =
     \<lparr>pool_Name = n,
      pool_Spec = \<lparr>ps_NodeSelector = sel, ps_MachineConfigSelector = None,
        ps_Rollout = \<lparr>ro_DebounceSeconds = 0, ro_ApplyTimeoutSeconds = 0, ro_MaxUnavailable = None,
          ro_DrainTimeoutSeconds = 0, ro_DrainRetrySeconds = 0\<rparr>,
        ps_Reboot = \<lparr>rp_Strategy = ''Never'', rp_MinIntervalSeconds = 0\<rparr>,
        ps_RevisionHistory = \<lparr>rh_Limit = 5\<rparr>, ps_Paused = False\<rparr>,
      pool_Status = \<lparr>pst_TargetRevision = [], pst_CurrentRevision = [], pst_LastSuccessfulRevision = [],
        pst_MachineCount = 0, pst_ReadyMachineCount = 0, pst_UpdatedMachineCount = 0,
        pst_UpdatingMachineCount = 0, pst_DegradedMachineCount = 0, pst_UnavailableMachineCount = 0,
        pst_PendingRebootCount = 0, pst_CordonedMachineCount = 0, pst_DrainingMachineCount = 0,
        pst_Conditions = []\<rparr>\<rparr>"

definition ex_labelled :: "string \<Rightarrow> labels \<Rightarrow> Node" where
  "ex_labelled n l =
     \<lparr>node_Name = n, node_Labels = l, node_Annotations = Map.empty, node_CreationTimestamp = 0,
      node_Unschedulable = False, node_ResourceVersion = 1\<rparr>"

definition ex_pools :: "MachineConfigPool list" where
  "ex_pools =
     [ex_select_pool ''all'' None,
      ex_select_pool ''gpu'' (Some \<lparr>sel_MatchLabels = [(''gpu'', ''yes'')], sel_MatchExpressions = []\<rparr>)]"

definition ex_labelled_nodes :: "Node list" where
  "ex_labelled_nodes = [ex_labelled ''n1'' Map.empty, ex_labelled ''n2'' [''gpu'' \<mapsto> ''yes'']]"

lemmas ex_overlap = ex_selector_def ex_select_pool_def ex_labelled_def ex_pools_def ex_labelled_nodes_def

text \<open>
  C8: no node is managed by two pools. Of the nodes that survive
  \<open>FilterNonConflictingNodes\<close> with the overlap computed from the cluster's pools and nodes,
  none is claimed by two different pools; and no node claimed by one pool only is dropped.
\<close>

theorem no_node_in_two_pools:
  assumes "distinct (map node_Name nodes)" and "set ns \<subseteq> set nodes"
  shows "(\<forall>n \<in> set (FilterNonConflictingNodes ns (Some (DetectPoolOverlapFromLists asSelector pools nodes))).
            \<forall>p \<in> set pools. \<forall>q \<in> set pools.
              claims asSelector n p \<longrightarrow> claims asSelector n q \<longrightarrow> p = q)
    \<and> (\<forall>n \<in> set ns. length (claiming asSelector pools n) \<le> 1
          \<longrightarrow> n \<in> set (FilterNonConflictingNodes ns (Some (DetectPoolOverlapFromLists asSelector pools nodes))))"
  unfolding filter_non_conflicting [OF assms] using two_claims by fastforce

theorem no_node_in_two_pools_witness:
  "map node_Name (FilterNonConflictingNodes ex_labelled_nodes
      (Some (DetectPoolOverlapFromLists ex_selector ex_pools ex_labelled_nodes))) = [''n1'']
   \<and> \<not> (claims ex_selector (ex_labelled ''n1'' Map.empty) (ex_pools ! 0)
        \<and> claims ex_selector (ex_labelled ''n1'' Map.empty) (ex_pools ! 1))"
proof -
  have "distinct (map node_Name ex_labelled_nodes)" by (simp add: ex_overlap)
  note t = no_node_in_two_pools [OF this subset_refl, of ex_selector ex_pools]
  have f: "FilterNonConflictingNodes ex_labelled_nodes
      (Some (DetectPoolOverlapFromLists ex_selector ex_pools ex_labelled_nodes)) = [ex_labelled ''n1'' Map.empty]"
    by (simp add: ex_overlap mco_eval)
  have "ex_pools ! 0 \<in> set ex_pools" "ex_pools ! 1 \<in> set ex_pools" "ex_pools ! 0 \<noteq> ex_pools ! 1"
    by (simp_all add: ex_pools_def ex_select_pool_def)
  then show ?thesis using t unfolding f by (auto simp: ex_labelled_def)
qed

text \<open>
  overlap detection is exact. For every node of the cluster the result lists, in order,
  all the pools whose selector matches the node when there are at least two of them, and
  nothing otherwise; and a node is among the conflicts of a pool exactly when that pool and
  another one claim it.
\<close>

theorem DetectPoolOverlap_exact:
  assumes "distinct (map node_Name nodes)" and "n \<in> set nodes"
  shows "GetPoolsForNode (DetectPoolOverlapFromLists asSelector pools nodes) (node_Name n)
      = (if length (claiming asSelector pools n) > 1 then sort_strings (claiming asSelector pools n) else [])
    \<and> (node_Name n \<in> set (GetConflictsForPool (DetectPoolOverlapFromLists asSelector pools nodes) pool)
        \<longleftrightarrow> length (claiming asSelector pools n) > 1 \<and> pool \<in> set (claiming asSelector pools n))"
proof -
  let ?o = "DetectPoolOverlapFromLists asSelector pools nodes"
  note o = overlap_of_node [OF assms, of asSelector pools]
  have d: "distinct (map fst (ov_ConflictingNodes ?o))"
  proof -
    let ?m = "foldl (scan_pools asSelector pools) [] nodes"
    have "distinct (map fst ?m)" by (rule scan_nodes_distinct) simp
    then have "distinct (map fst (filter (\<lambda>(k, v). length v > 1) ?m))" by (rule distinct_map_filter)
    then show ?thesis
      by (simp add: DetectPoolOverlapFromLists_def Let_def NewOverlapResult_def comp_def split_def)
  qed
  have "node_Name n \<in> set (GetConflictsForPool ?o pool)
      \<longleftrightarrow> (\<exists>ps. (node_Name n, ps) \<in> set (ov_ConflictingNodes ?o) \<and> pool \<in> set ps)"
    by (force simp: GetConflictsForPool_def)
  also have "\<dots> \<longleftrightarrow> (\<exists>ps. map_of (ov_ConflictingNodes ?o) (node_Name n) = Some ps \<and> pool \<in> set ps)"
    using d by simp
  finally show ?thesis using o by (auto simp: GetPoolsForNode_def)
qed

theorem DetectPoolOverlap_exact_witness:
  "GetPoolsForNode (DetectPoolOverlapFromLists ex_selector ex_pools ex_labelled_nodes) ''n2'' = [''all'', ''gpu'']
   \<and> ''n2'' \<in> set (GetConflictsForPool (DetectPoolOverlapFromLists ex_selector ex_pools ex_labelled_nodes) ''gpu'')"
proof -
  let ?n = "ex_labelled ''n2'' [''gpu'' \<mapsto> ''yes'']"
  have 1: "distinct (map node_Name ex_labelled_nodes)" "?n \<in> set ex_labelled_nodes" by (simp_all add: ex_overlap)
  have 2: "claiming ex_selector ex_pools ?n = [''all'', ''gpu'']"
    by (simp add: claiming_def claims_def ex_overlap mco_eval)
  show ?thesis
    using DetectPoolOverlap_exact [OF 1, where asSelector = ex_selector and pools = ex_pools and pool = "''gpu''"]
    by (simp add: 2) (simp add: ex_labelled_def mco_eval)
qed

end
