(* ===== verification/Pool_Status.thy ===== *)
theory Pool_Status
  imports Pool_Selection
begin

text \<open>
  \<open>internal/controller/status.go\<close> and the condition setters of
  \<open>internal/controller/node_update.go\<close>: the status of a pool computed from its nodes, and
  its conditions. \<open>now\<close> is what \<open>metav1.Now()\<close> and \<open>time.Since\<close> read.
\<close>

section \<open>Aggregation\<close>

definition DefaultApplyTimeoutSeconds :: int where "DefaultApplyTimeoutSeconds = 600"
definition ReasonRenderFailed :: string where "ReasonRenderFailed = ''RenderFailed''"

record AggregatedStatus =
  ag_TargetRevision :: string
  ag_CurrentRevision :: string
  ag_MachineCount :: nat
  ag_ReadyMachineCount :: nat
  ag_UpdatedMachineCount :: nat
  ag_UpdatingMachineCount :: nat
  ag_DegradedMachineCount :: nat
  ag_UnavailableMachineCount :: nat
  ag_PendingRebootCount :: nat
  ag_CordonedMachineCount :: nat
  ag_DrainingMachineCount :: nat
  ag_TimedOutNodes :: "string list"
  ag_Conditions :: "Condition list"

definition isApplyTimedOut :: "annots \<Rightarrow> duration \<Rightarrow> time \<Rightarrow> bool" where
  "isApplyTimedOut nodeAnnotations timeout now =
     (let setAtStr = GetAnnotation nodeAnnotations DesiredRevisionSetAt in
      if setAtStr = [] then False
      else (case Parse_RFC3339 setAtStr of None \<Rightarrow> False | Some setAt \<Rightarrow> Sub now setAt > timeout))"

text \<open>\<open>revisionCounts[current]++\<close>.\<close>

definition count_revision :: "(string \<times> nat) list \<Rightarrow> string \<Rightarrow> (string \<times> nat) list" where
  "count_revision counts current =
     AList.update current ((case map_of counts current of None \<Rightarrow> 0 | Some n \<Rightarrow> n) + 1) counts"

text \<open>The \<open>switch\<close> over the agent's state.\<close>

definition aggregate_state ::
  "bool \<Rightarrow> duration \<Rightarrow> time \<Rightarrow> Node \<Rightarrow> AggregatedStatus \<Rightarrow> AggregatedStatus"
where
  "aggregate_state isUpdated timeout now node status =
     (let state = GetAnnotation (node_Annotations node) AgentState in
      if state = StateDone \<or> state = StateIdle then
        (if isUpdated then status\<lparr>ag_ReadyMachineCount := ag_ReadyMachineCount status + 1\<rparr> else status)
      else if state = StateApplying then
        (if isApplyTimedOut (node_Annotations node) timeout now
         then status\<lparr>ag_DegradedMachineCount := ag_DegradedMachineCount status + 1,
                     ag_TimedOutNodes := ag_TimedOutNodes status @ [node_Name node],
                     ag_UnavailableMachineCount := ag_UnavailableMachineCount status + 1\<rparr>
         else status\<lparr>ag_UpdatingMachineCount := ag_UpdatingMachineCount status + 1,
                     ag_UnavailableMachineCount := ag_UnavailableMachineCount status + 1\<rparr>)
      else if state = StateError then
        status\<lparr>ag_DegradedMachineCount := ag_DegradedMachineCount status + 1,
               ag_UnavailableMachineCount := ag_UnavailableMachineCount status + 1\<rparr>
      else status\<lparr>ag_UnavailableMachineCount := ag_UnavailableMachineCount status + 1\<rparr>)"

text \<open>One turn of the loop over the nodes.\<close>

definition aggregate_node ::
  "string \<Rightarrow> duration \<Rightarrow> time \<Rightarrow> AggregatedStatus \<times> (string \<times> nat) list \<Rightarrow> Node
     \<Rightarrow> AggregatedStatus \<times> (string \<times> nat) list"
where
  "aggregate_node target timeout now acc node =
     (let ann = node_Annotations node;
          current = GetAnnotation ann CurrentRevision;
          counts = (if current \<noteq> [] then count_revision (snd acc) current else snd acc);
          isUpdated = (current = target);
          s1 = (if isUpdated then (fst acc)\<lparr>ag_UpdatedMachineCount := ag_UpdatedMachineCount (fst acc) + 1\<rparr> else fst acc);
          s2 = aggregate_state isUpdated timeout now node s1;
          s3 = (if GetBoolAnnotation ann RebootPending
                then s2\<lparr>ag_PendingRebootCount := ag_PendingRebootCount s2 + 1\<rparr> else s2);
          s4 = (if GetBoolAnnotation ann Cordoned \<or> node_Unschedulable node
                then s3\<lparr>ag_CordonedMachineCount := ag_CordonedMachineCount s3 + 1\<rparr> else s3);
          s5 = (if GetAnnotation ann DrainStartedAt \<noteq> []
                then s4\<lparr>ag_DrainingMachineCount := ag_DrainingMachineCount s4 + 1\<rparr> else s4)
      in (s5, counts))"

definition computeCurrentRevision :: "(string \<times> nat) list \<Rightarrow> string \<Rightarrow> string" where
  "computeCurrentRevision counts target =
     (if length counts = 0 then target
      else
        let maxCount = foldl (\<lambda>m (r, count). if count > m then count else m) 0 counts;
            candidates = map fst (filter (\<lambda>(r, count). count = maxCount) counts)
        in if target \<in> set candidates then target else sort_strings candidates ! 0)"

definition mk_condition :: "string \<Rightarrow> string \<Rightarrow> string \<Rightarrow> string \<Rightarrow> time \<Rightarrow> Condition" where
  "mk_condition type status reason message now =
     \<lparr>cond_Type = type, cond_Status = status, cond_Reason = reason, cond_Message = message,
      cond_LastTransitionTime = now\<rparr>"

definition nat_text :: "nat \<Rightarrow> string" where "nat_text n = Itoa (int n)"

definition ready_condition :: "AggregatedStatus \<Rightarrow> time \<Rightarrow> Condition" where
  "ready_condition status now =
     (if ag_MachineCount status > 0 \<and> ag_UpdatedMachineCount status = ag_MachineCount status
         \<and> ag_DegradedMachineCount status = 0 then
        mk_condition ConditionReady ConditionTrue ''AllNodesUpdated''
          (''All '' @ nat_text (ag_MachineCount status) @ '' nodes are at target revision'') now
      else if ag_DegradedMachineCount status > 0 then
        mk_condition ConditionReady ConditionFalse ''Degraded''
          (nat_text (ag_DegradedMachineCount status) @ '' nodes in error state'') now
      else if ag_UpdatingMachineCount status > 0 \<or> ag_DrainingMachineCount status > 0 then
        mk_condition ConditionReady ConditionFalse ''RolloutInProgress''
          (nat_text (ag_UpdatedMachineCount status) @ '' of '' @ nat_text (ag_MachineCount status) @ '' nodes updated'') now
      else
        mk_condition ConditionReady ConditionFalse ''NoMachineConfigs'' ''No MachineConfigs in pool or no nodes'' now)"

definition computeConditions :: "AggregatedStatus \<Rightarrow> time \<Rightarrow> Condition list" where
  "computeConditions status now =
     [ready_condition status now,
      (if ag_UpdatedMachineCount status < ag_MachineCount status
       then mk_condition ConditionUpdating ConditionTrue ''RolloutInProgress''
         (''Updating '' @ nat_text (ag_MachineCount status - ag_UpdatedMachineCount status) @ '' nodes'') now
       else mk_condition ConditionUpdating ConditionFalse ''RolloutComplete'' ''No rollout in progress'' now),
      (if ag_DegradedMachineCount status > 0
       then mk_condition ConditionDegraded ConditionTrue ''NodeErrors''
         (nat_text (ag_DegradedMachineCount status) @ '' nodes in error state'') now
       else mk_condition ConditionDegraded ConditionFalse ''NoErrors'' ''No nodes in error state'' now),
      (if ag_DrainingMachineCount status > 0
       then mk_condition ConditionDraining ConditionTrue ''DrainInProgress''
         (nat_text (ag_DrainingMachineCount status) @ '' nodes draining'') now
       else mk_condition ConditionDraining ConditionFalse ''NoDrainsActive'' ''No nodes draining'' now)]"

definition aggregate_init :: "string \<Rightarrow> nat \<Rightarrow> AggregatedStatus" where
  "aggregate_init target n =
     \<lparr>ag_TargetRevision = target, ag_CurrentRevision = [], ag_MachineCount = n, ag_ReadyMachineCount = 0,
      ag_UpdatedMachineCount = 0, ag_UpdatingMachineCount = 0, ag_DegradedMachineCount = 0,
      ag_UnavailableMachineCount = 0, ag_PendingRebootCount = 0, ag_CordonedMachineCount = 0,
      ag_DrainingMachineCount = 0, ag_TimedOutNodes = [], ag_Conditions = []\<rparr>"

definition AggregateStatus :: "string \<Rightarrow> Node list \<Rightarrow> int \<Rightarrow> time \<Rightarrow> AggregatedStatus" where
  "AggregateStatus target nodes applyTimeoutSeconds now =
     (let timeout = (if applyTimeoutSeconds \<le> 0 then DefaultApplyTimeoutSeconds else applyTimeoutSeconds);
          timeoutDuration = Seconds timeout;
          (status, revisionCounts) =
            foldl (aggregate_node target timeoutDuration now) (aggregate_init target (length nodes), []) nodes;
          s1 = status\<lparr>ag_CurrentRevision := computeCurrentRevision revisionCounts target\<rparr>
      in s1\<lparr>ag_Conditions := computeConditions s1 now\<rparr>)"

section \<open>Conditions\<close>

text \<open>The first loop of \<open>mergeConditions\<close>: the last condition of a type in \<open>existing\<close> counts.\<close>

definition carry_over :: "Condition list \<Rightarrow> Condition \<Rightarrow> Condition" where
  "carry_over existing newCondition =
     (case map_of (rev (map (\<lambda>c. (cond_Type c, c)) existing)) (cond_Type newCondition) of
        None \<Rightarrow> newCondition
      | Some existingCondition \<Rightarrow>
          if cond_Status existingCondition = cond_Status newCondition
          then newCondition\<lparr>cond_LastTransitionTime := cond_LastTransitionTime existingCondition\<rparr>
          else newCondition)"

definition mergeConditions :: "Condition list \<Rightarrow> Condition list \<Rightarrow> Condition list" where
  "mergeConditions existing new =
     map (carry_over existing) new @ filter (\<lambda>c. cond_Type c \<notin> cond_Type ` set new) existing"

abbreviation conditions_update :: "(Condition list \<Rightarrow> Condition list) \<Rightarrow> MachineConfigPool \<Rightarrow> MachineConfigPool" where
  "conditions_update f pool \<equiv>
     pool\<lparr>pool_Status := (pool_Status pool)\<lparr>pst_Conditions := f (pst_Conditions (pool_Status pool))\<rparr>\<rparr>"

definition ApplyStatusToPool :: "MachineConfigPool \<Rightarrow> AggregatedStatus \<Rightarrow> MachineConfigPool" where
  "ApplyStatusToPool pool status =
     (let st = pool_Status pool;
          st1 = st\<lparr>pst_TargetRevision := ag_TargetRevision status,
                   pst_CurrentRevision := ag_CurrentRevision status,
                   pst_MachineCount := ag_MachineCount status,
                   pst_ReadyMachineCount := ag_ReadyMachineCount status,
                   pst_UpdatedMachineCount := ag_UpdatedMachineCount status,
                   pst_UpdatingMachineCount := ag_UpdatingMachineCount status,
                   pst_DegradedMachineCount := ag_DegradedMachineCount status,
                   pst_UnavailableMachineCount := ag_UnavailableMachineCount status,
                   pst_PendingRebootCount := ag_PendingRebootCount status,
                   pst_CordonedMachineCount := ag_CordonedMachineCount status,
                   pst_DrainingMachineCount := ag_DrainingMachineCount status\<rparr>;
          st2 = (if ag_MachineCount status > 0 \<and> ag_UpdatedMachineCount status = ag_MachineCount status
                    \<and> ag_DegradedMachineCount status = 0 \<and> ag_PendingRebootCount status = 0
                 then st1\<lparr>pst_LastSuccessfulRevision := ag_TargetRevision status\<rparr> else st1)
      in pool\<lparr>pool_Status := st2\<lparr>pst_Conditions := mergeConditions (pst_Conditions st2) (ag_Conditions status)\<rparr>\<rparr>)"

text \<open>
  Setting a condition: the loop over the conditions replaces the first one of the same type,
  keeping its transition time when the status is the same; without one it is appended.
\<close>

fun set_in :: "Condition \<Rightarrow> Condition list \<Rightarrow> Condition list" where
  "set_in condition [] = [condition]"
| "set_in condition (c # cs) =
     (if cond_Type c = cond_Type condition
      then (if cond_Status c = cond_Status condition
            then condition\<lparr>cond_LastTransitionTime := cond_LastTransitionTime c\<rparr> else condition) # cs
      else c # set_in condition cs)"

definition setCondition :: "Condition \<Rightarrow> MachineConfigPool \<Rightarrow> MachineConfigPool" where
  "setCondition condition pool = conditions_update (set_in condition) pool"

text \<open>Raising \<open>Degraded\<close> without overriding a reason that is already there.\<close>

fun degrade_in :: "Condition \<Rightarrow> Condition list \<Rightarrow> Condition list" where
  "degrade_in degraded [] = [degraded]"
| "degrade_in degraded (c # cs) =
     (if cond_Type c = ConditionDegraded
      then (if cond_Status c \<noteq> ConditionTrue then degraded else c) # cs
      else c # degrade_in degraded cs)"

definition setDegradedForDrainStuck :: "time \<Rightarrow> MachineConfigPool \<Rightarrow> MachineConfigPool" where
  "setDegradedForDrainStuck now pool =
     conditions_update (degrade_in (mk_condition ConditionDegraded ConditionTrue ''DrainStuck''
       ''One or more nodes have drain stuck'' now)) pool"

definition SetDrainStuckCondition :: "string \<Rightarrow> time \<Rightarrow> MachineConfigPool \<Rightarrow> MachineConfigPool" where
  "SetDrainStuckCondition message now pool =
     setDegradedForDrainStuck now
       (conditions_update (set_in (mk_condition ConditionDrainStuck ConditionTrue ''DrainTimeout'' message now)) pool)"

definition ClearDrainStuckCondition :: "time \<Rightarrow> MachineConfigPool \<Rightarrow> MachineConfigPool" where
  "ClearDrainStuckCondition now pool =
     conditions_update (set_in (mk_condition ConditionDrainStuck ConditionFalse ''DrainComplete'' [] now)) pool"

definition SetDrainingCondition :: "string \<Rightarrow> string \<Rightarrow> time \<Rightarrow> MachineConfigPool \<Rightarrow> MachineConfigPool" where
  "SetDrainingCondition reason message now pool =
     conditions_update (set_in (mk_condition ConditionDraining ConditionTrue reason message now)) pool"

definition ClearDrainingCondition :: "time \<Rightarrow> MachineConfigPool \<Rightarrow> MachineConfigPool" where
  "ClearDrainingCondition now pool =
     conditions_update (set_in (mk_condition ConditionDraining ConditionFalse ''Complete'' [] now)) pool"

definition ComputeOverlapCondition :: "string \<Rightarrow> OverlapResult option \<Rightarrow> time \<Rightarrow> Condition" where
  "ComputeOverlapCondition poolName overlap now =
     (let none = mk_condition ConditionPoolOverlap ConditionFalse ''NoOverlap'' ''No overlapping nodes detected'' now in
      case overlap of
        None \<Rightarrow> none
      | Some r \<Rightarrow>
          if \<not> HasConflicts r then none
          else
            let conflictingNodes = GetConflictsForPool r poolName in
            if length conflictingNodes = 0 then none
            else
              let poolsInvolved = concat (map (GetPoolsForNode r) conflictingNodes);
                  otherPools = sort_strings (remdups (filter (\<lambda>p. p \<noteq> poolName) poolsInvolved));
                  message =
                    (if length conflictingNodes = 1
                     then ''Node '' @ conflictingNodes ! 0 @ '' also matches pools: '' @ fmt_slice otherPools
                     else ''Nodes '' @ fmt_slice conflictingNodes @ '' also match pools: '' @ fmt_slice otherPools)
              in mk_condition ConditionPoolOverlap ConditionTrue ''NodesInMultiplePools'' message now)"

definition setDegradedForOverlap :: "time \<Rightarrow> MachineConfigPool \<Rightarrow> MachineConfigPool" where
  "setDegradedForOverlap now pool =
     conditions_update (degrade_in (mk_condition ConditionDegraded ConditionTrue ''PoolOverlapDetected''
       ''Pool has nodes that match other pools'' now)) pool"

definition ApplyOverlapCondition :: "OverlapResult option \<Rightarrow> time \<Rightarrow> MachineConfigPool \<Rightarrow> MachineConfigPool" where
  "ApplyOverlapCondition overlap now pool =
     (let overlapCondition = ComputeOverlapCondition (pool_Name pool) overlap now;
          pool1 = conditions_update (set_in overlapCondition) pool
      in if cond_Status overlapCondition = ConditionTrue then setDegradedForOverlap now pool1 else pool1)"

definition SetRenderDegradedCondition :: "string \<Rightarrow> time \<Rightarrow> MachineConfigPool \<Rightarrow> MachineConfigPool" where
  "SetRenderDegradedCondition message now pool =
     setCondition (mk_condition ConditionDegraded ConditionTrue ReasonRenderFailed message now) pool"

fun clear_render_in :: "time \<Rightarrow> Condition list \<Rightarrow> Condition list" where
  "clear_render_in now [] = []"
| "clear_render_in now (c # cs) =
     (if cond_Type c = ConditionDegraded \<and> cond_Reason c = ReasonRenderFailed
      then mk_condition ConditionDegraded ConditionFalse ''RenderSuccess'' ''RMC created successfully'' now # cs
      else c # clear_render_in now cs)"

definition ClearRenderDegradedCondition :: "time \<Rightarrow> MachineConfigPool \<Rightarrow> MachineConfigPool" where
  "ClearRenderDegradedCondition now pool = conditions_update (clear_render_in now) pool"

text \<open>Returns the pool and whether something was removed; a nil pool removes nothing.\<close>

definition CleanupLegacyConditions :: "MachineConfigPool option \<Rightarrow> MachineConfigPool option \<times> bool" where
  "CleanupLegacyConditions pool =
     (case pool of
        None \<Rightarrow> (None, False)
      | Some p \<Rightarrow>
          if length (pst_Conditions (pool_Status p)) = 0 then (Some p, False)
          else
            let newConditions = filter (\<lambda>c. cond_Type c \<notin> {''Updated'', ''RenderDegraded''}) (pst_Conditions (pool_Status p));
                cleaned = list_ex (\<lambda>c. cond_Type c \<in> {''Updated'', ''RenderDegraded''}) (pst_Conditions (pool_Status p))
            in (Some (if cleaned then conditions_update (\<lambda>_. newConditions) p else p), cleaned))"

lemmas status_defs [mco_eval] =
  DefaultApplyTimeoutSeconds_def ReasonRenderFailed_def isApplyTimedOut_def count_revision_def
  aggregate_state_def aggregate_node_def computeCurrentRevision_def mk_condition_def nat_text_def
  ready_condition_def computeConditions_def aggregate_init_def AggregateStatus_def carry_over_def
  mergeConditions_def ApplyStatusToPool_def setCondition_def setDegradedForDrainStuck_def
  SetDrainStuckCondition_def ClearDrainStuckCondition_def SetDrainingCondition_def
  ClearDrainingCondition_def ComputeOverlapCondition_def setDegradedForOverlap_def
  ApplyOverlapCondition_def SetRenderDegradedCondition_def ClearRenderDegradedCondition_def
  CleanupLegacyConditions_def

section \<open>What the counters count\<close>

definition at_target :: "string \<Rightarrow> Node \<Rightarrow> bool" where
  "at_target target n \<longleftrightarrow> GetAnnotation (node_Annotations n) CurrentRevision = target"

definition agent_state :: "Node \<Rightarrow> string" where
  "agent_state n = GetAnnotation (node_Annotations n) AgentState"

definition settled :: "Node \<Rightarrow> bool" where
  "settled n \<longleftrightarrow> agent_state n = StateDone \<or> agent_state n = StateIdle"

definition timed_out :: "duration \<Rightarrow> time \<Rightarrow> Node \<Rightarrow> bool" where
  "timed_out timeout now n \<longleftrightarrow>
     agent_state n = StateApplying \<and> isApplyTimedOut (node_Annotations n) timeout now"

definition degraded :: "duration \<Rightarrow> time \<Rightarrow> Node \<Rightarrow> bool" where
  "degraded timeout now n \<longleftrightarrow> agent_state n = StateError \<or> timed_out timeout now n"

definition updating :: "duration \<Rightarrow> time \<Rightarrow> Node \<Rightarrow> bool" where
  "updating timeout now n \<longleftrightarrow> agent_state n = StateApplying \<and> \<not> timed_out timeout now n"

definition count_if :: "('a \<Rightarrow> bool) \<Rightarrow> 'a list \<Rightarrow> nat" where
  "count_if P xs = length (filter P xs)"

lemma count_if_simps [simp]:
  "count_if P [] = 0" "count_if P (x # xs) = (if P x then 1 else 0) + count_if P xs"
  by (simp_all add: count_if_def)

lemmas node_class_defs = at_target_def agent_state_def settled_def timed_out_def degraded_def updating_def

lemma aggregate_node_fields:
  fixes target timeout now acc n
  defines "r \<equiv> fst (aggregate_node target timeout now acc n)"
  shows "ag_MachineCount r = ag_MachineCount (fst acc)"
    "ag_TargetRevision r = ag_TargetRevision (fst acc)"
    "ag_UpdatedMachineCount r = ag_UpdatedMachineCount (fst acc) + (if at_target target n then 1 else 0)"
    "ag_ReadyMachineCount r = ag_ReadyMachineCount (fst acc) + (if at_target target n \<and> settled n then 1 else 0)"
    "ag_UpdatingMachineCount r = ag_UpdatingMachineCount (fst acc) + (if updating timeout now n then 1 else 0)"
    "ag_DegradedMachineCount r = ag_DegradedMachineCount (fst acc) + (if degraded timeout now n then 1 else 0)"
    "ag_UnavailableMachineCount r = ag_UnavailableMachineCount (fst acc) + (if settled n then 0 else 1)"
    "ag_PendingRebootCount r = ag_PendingRebootCount (fst acc)
       + (if GetBoolAnnotation (node_Annotations n) RebootPending then 1 else 0)"
    "ag_CordonedMachineCount r = ag_CordonedMachineCount (fst acc)
       + (if GetBoolAnnotation (node_Annotations n) Cordoned \<or> node_Unschedulable n then 1 else 0)"
    "ag_DrainingMachineCount r = ag_DrainingMachineCount (fst acc)
       + (if GetAnnotation (node_Annotations n) DrainStartedAt \<noteq> [] then 1 else 0)"
    "ag_TimedOutNodes r = ag_TimedOutNodes (fst acc) @ (if timed_out timeout now n then [node_Name n] else [])"
  unfolding r_def aggregate_node_def aggregate_state_def node_class_defs
  by (simp_all add: Let_def)

lemma aggregate_fold_fields:
  fixes target timeout now acc ns
  defines "r \<equiv> fst (foldl (aggregate_node target timeout now) acc ns)"
  shows "ag_MachineCount r = ag_MachineCount (fst acc)"
    "ag_TargetRevision r = ag_TargetRevision (fst acc)"
    "ag_UpdatedMachineCount r = ag_UpdatedMachineCount (fst acc) + count_if (at_target target) ns"
    "ag_ReadyMachineCount r = ag_ReadyMachineCount (fst acc) + count_if (\<lambda>n. at_target target n \<and> settled n) ns"
    "ag_UpdatingMachineCount r = ag_UpdatingMachineCount (fst acc) + count_if (updating timeout now) ns"
    "ag_DegradedMachineCount r = ag_DegradedMachineCount (fst acc) + count_if (degraded timeout now) ns"
    "ag_UnavailableMachineCount r = ag_UnavailableMachineCount (fst acc) + count_if (\<lambda>n. \<not> settled n) ns"
    "ag_PendingRebootCount r = ag_PendingRebootCount (fst acc)
       + count_if (\<lambda>n. GetBoolAnnotation (node_Annotations n) RebootPending) ns"
    "ag_CordonedMachineCount r = ag_CordonedMachineCount (fst acc)
       + count_if (\<lambda>n. GetBoolAnnotation (node_Annotations n) Cordoned \<or> node_Unschedulable n) ns"
    "ag_DrainingMachineCount r = ag_DrainingMachineCount (fst acc)
       + count_if (\<lambda>n. GetAnnotation (node_Annotations n) DrainStartedAt \<noteq> []) ns"
    "ag_TimedOutNodes r = ag_TimedOutNodes (fst acc) @ map node_Name (filter (timed_out timeout now) ns)"
  unfolding r_def by (induction ns arbitrary: acc) (simp_all add: aggregate_node_fields)

text \<open>The apply timeout in force.\<close>

definition apply_timeout :: "int \<Rightarrow> duration" where
  "apply_timeout t = Seconds (if t \<le> 0 then DefaultApplyTimeoutSeconds else t)"

lemma AggregateStatus_unfold:
  "AggregateStatus target ns t now =
     (let r = foldl (aggregate_node target (apply_timeout t) now) (aggregate_init target (length ns), []) ns;
          s1 = (fst r)\<lparr>ag_CurrentRevision := computeCurrentRevision (snd r) target\<rparr>
      in s1\<lparr>ag_Conditions := computeConditions s1 now\<rparr>)"
  by (simp add: AggregateStatus_def apply_timeout_def Let_def split_def)

lemma AggregateStatus_fields [simp]:
  "ag_MachineCount (AggregateStatus target ns t now) = length ns"
  "ag_TargetRevision (AggregateStatus target ns t now) = target"
  "ag_UpdatedMachineCount (AggregateStatus target ns t now) = count_if (at_target target) ns"
  "ag_ReadyMachineCount (AggregateStatus target ns t now) = count_if (\<lambda>n. at_target target n \<and> settled n) ns"
  "ag_UpdatingMachineCount (AggregateStatus target ns t now) = count_if (updating (apply_timeout t) now) ns"
  "ag_DegradedMachineCount (AggregateStatus target ns t now) = count_if (degraded (apply_timeout t) now) ns"
  "ag_UnavailableMachineCount (AggregateStatus target ns t now) = count_if (\<lambda>n. \<not> settled n) ns"
  "ag_PendingRebootCount (AggregateStatus target ns t now)
     = count_if (\<lambda>n. GetBoolAnnotation (node_Annotations n) RebootPending) ns"
  "ag_DrainingMachineCount (AggregateStatus target ns t now)
     = count_if (\<lambda>n. GetAnnotation (node_Annotations n) DrainStartedAt \<noteq> []) ns"
  "ag_CordonedMachineCount (AggregateStatus target ns t now)
     = count_if (\<lambda>n. GetBoolAnnotation (node_Annotations n) Cordoned \<or> node_Unschedulable n) ns"
  "ag_TimedOutNodes (AggregateStatus target ns t now) = map node_Name (filter (timed_out (apply_timeout t) now) ns)"
  by (simp_all add: AggregateStatus_unfold Let_def aggregate_fold_fields aggregate_init_def)

lemma count_if_le: "count_if P xs \<le> length xs"
  by (simp add: count_if_def)

lemma count_if_disjoint:
  "(\<And>x. x \<in> set xs \<Longrightarrow> P x \<Longrightarrow> \<not> Q x) \<Longrightarrow> (\<And>x. x \<in> set xs \<Longrightarrow> P x \<or> Q x \<Longrightarrow> R x) \<Longrightarrow>
     count_if P xs + count_if Q xs \<le> count_if R xs"
  by (induction xs) auto

lemma count_if_all: "count_if P xs = length xs \<longleftrightarrow> list_all P xs"
  unfolding count_if_def list_all_iff by (metis filter_True length_filter_less less_irrefl)

lemma count_if_none: "count_if P xs = 0 \<longleftrightarrow> list_all (\<lambda>x. \<not> P x) xs"
  by (simp add: count_if_def list_all_iff filter_empty_conv)

section \<open>Writers of conditions\<close>

definition get_condition :: "string \<Rightarrow> Condition list \<Rightarrow> Condition option" where
  "get_condition ty cs = find (\<lambda>c. cond_Type c = ty) cs"

abbreviation pool_condition :: "string \<Rightarrow> MachineConfigPool \<Rightarrow> Condition option" where
  "pool_condition ty pool \<equiv> get_condition ty (pst_Conditions (pool_Status pool))"

lemma get_condition_simps [simp]:
  "get_condition ty [] = None"
  "get_condition ty (c # cs) = (if cond_Type c = ty then Some c else get_condition ty cs)"
  by (simp_all add: get_condition_def)

lemma get_condition_append:
  "get_condition ty (xs @ ys) = (case get_condition ty xs of None \<Rightarrow> get_condition ty ys | Some c \<Rightarrow> Some c)"
  by (induction xs) auto

lemma get_condition_None: "get_condition ty cs = None \<longleftrightarrow> ty \<notin> cond_Type ` set cs"
  by (induction cs) auto

lemma get_condition_Some: "get_condition ty cs = Some c \<Longrightarrow> c \<in> set cs \<and> cond_Type c = ty"
  by (induction cs) (auto split: if_splits)

text \<open>
  What every writer of one condition type promises: the other conditions stay as they are
  and in their order, the types stay distinct, and afterwards there is a condition of the
  type.
\<close>

locale condition_writer =
  fixes f :: "Condition list \<Rightarrow> Condition list" and ty :: string
  assumes others: "filter (\<lambda>c. cond_Type c \<noteq> ty) (f cs) = filter (\<lambda>c. cond_Type c \<noteq> ty) cs"
    and unique: "distinct (map cond_Type cs) \<Longrightarrow> distinct (map cond_Type (f cs))"
    and present: "get_condition ty (f cs) \<noteq> None"
begin

lemma other_condition: "t \<noteq> ty \<Longrightarrow> get_condition t (f cs) = get_condition t cs"
proof -
  assume t: "t \<noteq> ty"
  have "get_condition t cs = get_condition t (filter (\<lambda>c. cond_Type c \<noteq> ty) cs)" for cs
    using t by (induction cs) auto
  then show ?thesis using others by metis
qed

end

lemma set_in_type: "cond_Type ` set (set_in c cs) = insert (cond_Type c) (cond_Type ` set cs)"
  by (induction cs) auto

lemma degrade_in_type:
  "cond_Type d = ConditionDegraded \<Longrightarrow>
     cond_Type ` set (degrade_in d cs) = insert ConditionDegraded (cond_Type ` set cs)"
  by (induction cs) auto

lemma set_in_writer: "condition_writer (set_in c) (cond_Type c)"
proof
  fix cs
  show "filter (\<lambda>x. cond_Type x \<noteq> cond_Type c) (set_in c cs) = filter (\<lambda>x. cond_Type x \<noteq> cond_Type c) cs"
    by (induction cs) auto
  show "distinct (map cond_Type cs) \<Longrightarrow> distinct (map cond_Type (set_in c cs))"
    by (induction cs) (auto simp: set_in_type)
  show "get_condition (cond_Type c) (set_in c cs) \<noteq> None"
    by (simp add: get_condition_None set_in_type)
qed

lemma degrade_in_writer: "cond_Type d = ConditionDegraded \<Longrightarrow> condition_writer (degrade_in d) ConditionDegraded"
proof
  fix cs
  assume d: "cond_Type d = ConditionDegraded"
  show "filter (\<lambda>x. cond_Type x \<noteq> ConditionDegraded) (degrade_in d cs) = filter (\<lambda>x. cond_Type x \<noteq> ConditionDegraded) cs"
    using d by (induction cs) auto
  show "distinct (map cond_Type cs) \<Longrightarrow> distinct (map cond_Type (degrade_in d cs))"
    using d degrade_in_type [OF d] by (induction cs) auto
  show "get_condition ConditionDegraded (degrade_in d cs) \<noteq> None"
    by (simp add: get_condition_None degrade_in_type [OF d])
qed

text \<open>The transition time moves exactly when the status does.\<close>

lemma set_in_get:
  "get_condition (cond_Type c) (set_in c cs) =
     Some (case get_condition (cond_Type c) cs of
             None \<Rightarrow> c
           | Some old \<Rightarrow> if cond_Status old = cond_Status c
                        then c\<lparr>cond_LastTransitionTime := cond_LastTransitionTime old\<rparr> else c)"
  by (induction cs) auto

lemma degrade_in_get:
  assumes "cond_Type d = ConditionDegraded"
  shows "get_condition ConditionDegraded (degrade_in d cs) =
     Some (case get_condition ConditionDegraded cs of
             None \<Rightarrow> d | Some old \<Rightarrow> if cond_Status old \<noteq> ConditionTrue then d else old)"
  using assms by (induction cs) auto

lemma mk_condition_simps [simp]:
  "cond_Type (mk_condition ty st rs msg t) = ty" "cond_Status (mk_condition ty st rs msg t) = st"
  "cond_Reason (mk_condition ty st rs msg t) = rs" "cond_LastTransitionTime (mk_condition ty st rs msg t) = t"
  by (simp_all add: mk_condition_def)

interpretation stuck: condition_writer "set_in (mk_condition ConditionDrainStuck st rs msg now)" ConditionDrainStuck
  for st rs msg now
  using set_in_writer [of "mk_condition ConditionDrainStuck st rs msg now"] by simp

interpretation draining: condition_writer "set_in (mk_condition ConditionDraining st rs msg now)" ConditionDraining
  for st rs msg now
  using set_in_writer [of "mk_condition ConditionDraining st rs msg now"] by simp

interpretation degrading: condition_writer "degrade_in (mk_condition ConditionDegraded st rs msg now)" ConditionDegraded
  for st rs msg now
  by (rule degrade_in_writer) simp

interpretation overlap_cond: condition_writer "set_in (ComputeOverlapCondition n r now)" ConditionPoolOverlap
  for n r now
proof -
  have "cond_Type (ComputeOverlapCondition n r now) = ConditionPoolOverlap"
    by (simp add: ComputeOverlapCondition_def Let_def split: option.splits)
  then show "condition_writer (set_in (ComputeOverlapCondition n r now)) ConditionPoolOverlap"
    using set_in_writer [of "ComputeOverlapCondition n r now"] by simp
qed

lemma condition_type_neq [simp]:
  "ConditionDrainStuck \<noteq> ConditionDegraded" "ConditionDegraded \<noteq> ConditionDrainStuck"
  "ConditionPoolOverlap \<noteq> ConditionDegraded" "ConditionDegraded \<noteq> ConditionPoolOverlap"
  "ConditionTrue \<noteq> ConditionFalse" "ConditionFalse \<noteq> ConditionTrue"
  by (simp_all add: condition_types)

section \<open>Merging conditions\<close>

lemma carry_over_simps [simp]:
  "cond_Type (carry_over cs c) = cond_Type c" "cond_Status (carry_over cs c) = cond_Status c"
  by (simp_all add: carry_over_def split: option.splits)

lemma map_of_rev_types:
  "distinct (map cond_Type cs) \<Longrightarrow> map_of (rev (map (\<lambda>c. (cond_Type c, c)) cs)) ty = get_condition ty cs"
proof (induction cs)
  case (Cons c cs)
  then have "get_condition (cond_Type c) cs = None" by (simp add: get_condition_None)
  with Cons show ?case by (auto simp: map_add_def split: option.splits)
qed simp

lemma mergeConditions_unique:
  "distinct (map cond_Type existing) \<Longrightarrow> distinct (map cond_Type new) \<Longrightarrow>
     distinct (map cond_Type (mergeConditions existing new))"
  by (auto simp: mergeConditions_def comp_def distinct_map_filter rev_image_eqI)

lemma get_condition_map:
  "(\<And>c. cond_Type (f c) = cond_Type c) \<Longrightarrow> get_condition ty (map f cs) = map_option f (get_condition ty cs)"
  by (induction cs) auto

lemma get_condition_filter:
  "P ty \<Longrightarrow> get_condition ty (filter (\<lambda>c. P (cond_Type c)) cs) = get_condition ty cs"
  by (induction cs) auto

lemma mergeConditions_get:
  "get_condition ty (mergeConditions existing new) =
     (case get_condition ty new of
        Some c \<Rightarrow> Some (carry_over existing c)
      | None \<Rightarrow> get_condition ty existing)"
proof (cases "get_condition ty new")
  case None
  then have "ty \<notin> cond_Type ` set new" by (simp add: get_condition_None)
  then show ?thesis
    using None get_condition_filter [of "\<lambda>t. t \<notin> cond_Type ` set new" ty existing]
    by (simp add: mergeConditions_def get_condition_append get_condition_map)
next
  case (Some c)
  then show ?thesis by (simp add: mergeConditions_def get_condition_append get_condition_map)
qed

section \<open>The most common revision\<close>

definition max_of :: "nat \<Rightarrow> (string \<times> nat) list \<Rightarrow> nat" where
  "max_of m0 counts = foldl (\<lambda>m (r, count). if count > m then count else m) m0 counts"

lemma max_of:
  "m0 \<le> max_of m0 counts \<and> (\<forall>(r, n) \<in> set counts. n \<le> max_of m0 counts)
     \<and> (max_of m0 counts = m0 \<or> (\<exists>r. (r, max_of m0 counts) \<in> set counts))"
proof (induction counts arbitrary: m0)
  case (Cons rc counts)
  obtain r x where rc: "rc = (r, x)" by (cases rc)
  show ?case using Cons [of "if x > m0 then x else m0"] by (auto simp: max_of_def rc split: if_splits)
qed (simp add: max_of_def)

lemma count_revision_map:
  "map_of (count_revision counts r) = (map_of counts)(r \<mapsto> (case map_of counts r of None \<Rightarrow> 0 | Some n \<Rightarrow> n) + 1)"
  by (simp add: count_revision_def update_conv')

lemma aggregate_node_counts:
  "snd (aggregate_node target timeout now acc n) =
     (let r = GetAnnotation (node_Annotations n) CurrentRevision
      in if r \<noteq> [] then count_revision (snd acc) r else snd acc)"
  by (simp add: aggregate_node_def Let_def)

lemma aggregate_fold_counts:
  "map_of (snd (foldl (aggregate_node target timeout now) acc ns)) r =
     (if r = [] \<or> count_if (at_target r) ns = 0 then map_of (snd acc) r
      else Some ((case map_of (snd acc) r of None \<Rightarrow> 0 | Some n \<Rightarrow> n) + count_if (at_target r) ns))"
proof (induction ns arbitrary: acc)
  case (Cons n ns)
  show ?case
    by (auto simp: Cons.IH aggregate_node_counts count_revision_map at_target_def [of _ n] Let_def
        split: option.splits)
qed simp

lemma aggregate_fold_distinct:
  "distinct (map fst (snd acc)) \<Longrightarrow>
     distinct (map fst (snd (foldl (aggregate_node target timeout now) acc ns)))"
  by (induction ns arbitrary: acc)
     (auto simp: aggregate_node_counts count_revision_def distinct_update Let_def)

lemma computeCurrentRevision_char:
  assumes d: "distinct (map fst counts)" and ne: "counts \<noteq> []"
    and pos: "\<And>r n. map_of counts r = Some n \<Longrightarrow> 0 < n"
  shows "\<exists>n. map_of counts (computeCurrentRevision counts target) = Some n
    \<and> (\<forall>r m. map_of counts r = Some m \<longrightarrow> m < n \<or> m = n
        \<and> (computeCurrentRevision counts target = target \<or> r \<noteq> target \<and> computeCurrentRevision counts target \<le> r))"
proof -
  let ?m = "max_of 0 counts"
  let ?c = "map fst (filter (\<lambda>(r, count). count = ?m) counts)"
  have in_c: "r \<in> set ?c \<longleftrightarrow> map_of counts r = Some ?m" for r
    using d by (force simp: map_of_eq_Some_iff)
  obtain r0 n0 where "(r0, n0) \<in> set counts" using ne by (metis list.set_intros(1) neq_Nil_conv surj_pair)
  then have "0 < ?m"
    using max_of [of 0 counts] pos d by (fastforce simp: map_of_eq_Some_iff)
  then obtain rm where "(rm, ?m) \<in> set counts" using max_of [of 0 counts] by auto
  then have "rm \<in> set ?c" using d in_c by (simp add: map_of_eq_Some_iff)
  then have ne_c: "sort_strings ?c \<noteq> []" by (metis empty_iff list.set(1) sort_strings_props(1))
  have le: "map_of counts r = Some m \<Longrightarrow> m \<le> ?m" for r m
    using max_of [of 0 counts] by (auto dest!: map_of_SomeD)
  have cr: "computeCurrentRevision counts target = (if target \<in> set ?c then target else sort_strings ?c ! 0)"
    using ne by (simp add: computeCurrentRevision_def Let_def max_of_def [symmetric] del: set_map)
  have first: "sort_strings ?c ! 0 \<in> set ?c" "\<And>r. r \<in> set ?c \<Longrightarrow> sort_strings ?c ! 0 \<le> r"
  proof -
    show "sort_strings ?c ! 0 \<in> set ?c" using ne_c by (metis length_greater_0_conv nth_mem sort_strings_props(1))
    show "sort_strings ?c ! 0 \<le> r" if "r \<in> set ?c" for r
      using that sort_strings_props(4) [of ?c] ne_c
      by (metis in_set_conv_nth le0 length_greater_0_conv sorted_nth_mono sort_strings_props(1))
  qed
  have "map_of counts (computeCurrentRevision counts target) = Some ?m"
    using cr in_c first(1) by (metis (no_types, lifting))
  moreover have "m < ?m \<or> m = ?m \<and> (computeCurrentRevision counts target = target
      \<or> r \<noteq> target \<and> computeCurrentRevision counts target \<le> r)" if r: "map_of counts r = Some m" for r m
  proof (cases "m = ?m")
    case True
    then have "r \<in> set ?c" using r in_c by simp
    then show ?thesis using True cr first(2) by (auto split: if_splits)
  next
    case False
    then show ?thesis using le [OF r] by simp
  qed
  ultimately show ?thesis by blast
qed

section \<open>Examples\<close>

definition ex_status_node :: "string \<Rightarrow> string \<Rightarrow> string \<Rightarrow> Node" where
  "ex_status_node n r st =
     (ex_labelled n Map.empty)\<lparr>node_Annotations := [CurrentRevision \<mapsto> r, AgentState \<mapsto> st]\<rparr>"

definition ex_status_nodes :: "Node list" where
  "ex_status_nodes =
     [ex_status_node ''n1'' ''r2'' StateDone, ex_status_node ''n2'' ''r1'' StateApplying,
      ex_status_node ''n3'' ''r1'' StateError]"

definition ex_stuck_pool :: MachineConfigPool where
  "ex_stuck_pool = conditions_update
     (\<lambda>_. [mk_condition ConditionDegraded ConditionTrue ''NodeErrors'' [] 5]) (ex_select_pool ''p'' None)"

lemmas ex_status = ex_status_node_def ex_status_nodes_def ex_stuck_pool_def ex_select_pool_def ex_labelled_def

section \<open>Claims\<close>

text \<open>
  the aggregated status tells the truth about the nodes. Every counter is the number of
  nodes with the property it names; nodes that are ready are updated and available, nodes
  that are updating or degraded are unavailable, and no node is counted as both.
\<close>

theorem AggregateStatus_counts:
  "ag_MachineCount (AggregateStatus target ns t now) = length ns
   \<and> ag_UpdatedMachineCount (AggregateStatus target ns t now) = count_if (at_target target) ns
   \<and> ag_ReadyMachineCount (AggregateStatus target ns t now) = count_if (\<lambda>n. at_target target n \<and> settled n) ns
   \<and> ag_UpdatingMachineCount (AggregateStatus target ns t now) = count_if (updating (apply_timeout t) now) ns
   \<and> ag_DegradedMachineCount (AggregateStatus target ns t now) = count_if (degraded (apply_timeout t) now) ns
   \<and> ag_UnavailableMachineCount (AggregateStatus target ns t now) = length ns - count_if settled ns
   \<and> ag_TimedOutNodes (AggregateStatus target ns t now) = map node_Name (filter (timed_out (apply_timeout t) now) ns)
   \<and> ag_ReadyMachineCount (AggregateStatus target ns t now)
        + ag_UnavailableMachineCount (AggregateStatus target ns t now) \<le> length ns
   \<and> ag_UpdatingMachineCount (AggregateStatus target ns t now) + ag_DegradedMachineCount (AggregateStatus target ns t now)
        \<le> ag_UnavailableMachineCount (AggregateStatus target ns t now)"
proof -
  have "count_if (\<lambda>n. \<not> settled n) ns + count_if settled ns = length ns"
    by (induction ns) auto
  moreover have "count_if (\<lambda>n. at_target target n \<and> settled n) ns \<le> count_if settled ns"
    by (induction ns) auto
  moreover have "count_if (updating (apply_timeout t) now) ns + count_if (degraded (apply_timeout t) now) ns
      \<le> count_if (\<lambda>n. \<not> settled n) ns"
    by (rule count_if_disjoint) (auto simp: node_class_defs)
  ultimately show ?thesis by auto
qed

text \<open>
  C19: the pool's status is declared good only when it is. After the status of a non-empty
  pool is applied, its Ready condition is True exactly when every node is at the target and
  none is degraded, Updating is False exactly when every node is at the target, and the last
  successful revision is set to the target only when moreover no reboot is pending;
  otherwise it is kept.
\<close>

theorem ApplyStatusToPool_truthful:
  assumes "ns \<noteq> []" and "p' = ApplyStatusToPool p (AggregateStatus target ns t now)"
  shows "map_option cond_Status (pool_condition ConditionReady p')
      = Some (if list_all (at_target target) ns \<and> list_all (\<lambda>n. \<not> degraded (apply_timeout t) now n) ns
              then ConditionTrue else ConditionFalse)
    \<and> map_option cond_Status (pool_condition ConditionUpdating p')
      = Some (if list_all (at_target target) ns then ConditionFalse else ConditionTrue)
    \<and> pst_LastSuccessfulRevision (pool_Status p')
      = (if list_all (at_target target) ns \<and> list_all (\<lambda>n. \<not> degraded (apply_timeout t) now n) ns
            \<and> list_all (\<lambda>n. \<not> GetBoolAnnotation (node_Annotations n) RebootPending) ns
         then target else pst_LastSuccessfulRevision (pool_Status p))"
proof -
  let ?s = "AggregateStatus target ns t now"
  have c: "ag_Conditions ?s = computeConditions ?s now"
    by (simp add: AggregateStatus_unfold Let_def computeConditions_def ready_condition_def)
  have conds: "pst_Conditions (pool_Status p') = mergeConditions (pst_Conditions (pool_Status p)) (computeConditions ?s now)"
    by (simp add: assms(2) ApplyStatusToPool_def Let_def c)
  have lt: "count_if (at_target target) ns < length ns \<longleftrightarrow> \<not> list_all (at_target target) ns"
    using count_if_le [of "at_target target" ns] count_if_all [of "at_target target" ns] by linarith
  have "map_option cond_Status (pool_condition ConditionReady p')
      = Some (cond_Status (ready_condition ?s now))"
    unfolding conds mergeConditions_get by (simp add: computeConditions_def ready_condition_def)
  moreover have "map_option cond_Status (pool_condition ConditionUpdating p')
      = Some (if list_all (at_target target) ns then ConditionFalse else ConditionTrue)"
    unfolding conds mergeConditions_get
    by (simp add: computeConditions_def ready_condition_def lt) (simp add: condition_types)
  moreover have "pst_LastSuccessfulRevision (pool_Status p')
      = (if ag_UpdatedMachineCount ?s = length ns \<and> ag_DegradedMachineCount ?s = 0 \<and> ag_PendingRebootCount ?s = 0
         then target else pst_LastSuccessfulRevision (pool_Status p))"
    using assms by (simp add: ApplyStatusToPool_def Let_def)
  moreover have "cond_Status (ready_condition ?s now)
      = (if list_all (at_target target) ns \<and> list_all (\<lambda>n. \<not> degraded (apply_timeout t) now n) ns
         then ConditionTrue else ConditionFalse)"
    using assms(1) by (simp add: ready_condition_def count_if_all count_if_none)
  ultimately show ?thesis by (simp only: AggregateStatus_fields count_if_all count_if_none)
qed

theorem ApplyStatusToPool_truthful_witness:
  "map_option cond_Status (pool_condition ConditionReady
      (ApplyStatusToPool ex_stuck_pool (AggregateStatus ''r2'' [ex_status_node ''n1'' ''r2'' StateDone] 0 9)))
     = Some ConditionTrue
   \<and> pst_LastSuccessfulRevision (pool_Status
      (ApplyStatusToPool ex_stuck_pool (AggregateStatus ''r2'' [ex_status_node ''n1'' ''r2'' StateDone] 0 9))) = ''r2''"
proof -
  let ?ns = "[ex_status_node ''n1'' ''r2'' StateDone]"
  have "?ns \<noteq> []" "list_all (at_target ''r2'') ?ns" "list_all (\<lambda>n. \<not> degraded (apply_timeout 0) 9 n) ?ns"
    "list_all (\<lambda>n. \<not> GetBoolAnnotation (node_Annotations n) RebootPending) ?ns"
    by (simp_all add: node_class_defs ex_status GetBoolAnnotation_def)
  then show ?thesis
    using ApplyStatusToPool_truthful [OF _ refl, where ns = ?ns and p = ex_stuck_pool and target = "''r2''" and t = 0 and now = 9]
    by simp
qed

text \<open>
  the current revision of a pool is well chosen and does not depend on the iteration
  order of the map. When some node reports a revision, the result is a revision that the
  largest number of nodes report; the target is preferred among the most common ones, and
  without it the smallest of them is taken.
\<close>

theorem current_revision_most_common:
  assumes "m \<in> set ns" and "GetAnnotation (node_Annotations m) CurrentRevision \<noteq> []"
    and "cr = ag_CurrentRevision (AggregateStatus target ns t now)"
  shows "cr \<noteq> [] \<and> 0 < count_if (at_target cr) ns
    \<and> (\<forall>r. r \<noteq> [] \<longrightarrow> count_if (at_target r) ns < count_if (at_target cr) ns
         \<or> count_if (at_target r) ns = count_if (at_target cr) ns \<and> (cr = target \<or> r \<noteq> target \<and> cr \<le> r))"
proof -
  let ?f = "foldl (aggregate_node target (apply_timeout t) now) (aggregate_init target (length ns), []) ns"
  let ?counts = "snd ?f"
  have cr: "cr = computeCurrentRevision ?counts target"
    by (simp add: assms(3) AggregateStatus_unfold Let_def)
  have map: "map_of ?counts r = (if r = [] \<or> count_if (at_target r) ns = 0 then None else Some (count_if (at_target r) ns))" for r
    by (simp add: aggregate_fold_counts)
  have d: "distinct (map fst ?counts)" by (rule aggregate_fold_distinct) simp
  let ?r0 = "GetAnnotation (node_Annotations m) CurrentRevision"
  have c0: "count_if (at_target ?r0) ns \<noteq> 0"
    using assms(1) by (auto simp: count_if_none list_all_iff at_target_def)
  then have "map_of ?counts ?r0 \<noteq> None" using assms(2) map by simp
  then have ne: "?counts \<noteq> []" by auto
  have pos: "map_of ?counts r = Some n \<Longrightarrow> 0 < n" for r n by (auto simp: map split: if_splits)
  have "\<exists>n. map_of ?counts cr = Some n \<and> (\<forall>r m. map_of ?counts r = Some m \<longrightarrow> m < n \<or> m = n
      \<and> (cr = target \<or> r \<noteq> target \<and> cr \<le> r))"
    unfolding cr by (rule computeCurrentRevision_char [OF d ne]) (rule pos)
  then obtain n where n: "map_of ?counts cr = Some n" "\<forall>r m. map_of ?counts r = Some m \<longrightarrow> m < n \<or> m = n
      \<and> (cr = target \<or> r \<noteq> target \<and> cr \<le> r)"
    by blast
  have crn: "cr \<noteq> []" "n = count_if (at_target cr) ns" "0 < n" using n(1) map by (auto split: if_splits)
  show ?thesis
  proof (intro conjI allI impI)
    fix r :: string
    assume "r \<noteq> []"
    then show "count_if (at_target r) ns < count_if (at_target cr) ns
         \<or> count_if (at_target r) ns = count_if (at_target cr) ns \<and> (cr = target \<or> r \<noteq> target \<and> cr \<le> r)"
      using n(2) map [of r] crn by (cases "count_if (at_target r) ns = 0") auto
  qed (use crn in auto)
qed

theorem current_revision_most_common_witness:
  "0 < count_if (at_target (ag_CurrentRevision (AggregateStatus ''r2'' ex_status_nodes 0 9))) ex_status_nodes
   \<and> ag_CurrentRevision (AggregateStatus ''r2'' ex_status_nodes 0 9) \<noteq> []"
proof -
  have "ex_status_node ''n1'' ''r2'' StateDone \<in> set ex_status_nodes"
    "GetAnnotation (node_Annotations (ex_status_node ''n1'' ''r2'' StateDone)) CurrentRevision \<noteq> []"
    by (simp_all add: ex_status)
  from current_revision_most_common [OF this refl] show ?thesis by blast
qed

text \<open>
  A stuck drain degrades the pool without hiding an older cause. After
  \<open>SetDrainStuckCondition\<close> both DrainStuck and Degraded are True; a Degraded condition
  that was already True is kept with its reason and time, and a DrainStuck condition that
  was already True keeps its transition time; every other condition is as before and no type
  occurs twice.
\<close>

theorem SetDrainStuckCondition_degrades:
  assumes "p' = SetDrainStuckCondition msg now p"
  shows "map_option cond_Status (pool_condition ConditionDrainStuck p') = Some ConditionTrue
    \<and> map_option cond_Status (pool_condition ConditionDegraded p') = Some ConditionTrue
    \<and> (\<forall>c. pool_condition ConditionDegraded p = Some c \<longrightarrow> cond_Status c = ConditionTrue
          \<longrightarrow> pool_condition ConditionDegraded p' = Some c)
    \<and> (\<forall>c. pool_condition ConditionDrainStuck p = Some c \<longrightarrow> cond_Status c = ConditionTrue
          \<longrightarrow> map_option cond_LastTransitionTime (pool_condition ConditionDrainStuck p') = Some (cond_LastTransitionTime c))
    \<and> (\<forall>ty. ty \<noteq> ConditionDrainStuck \<longrightarrow> ty \<noteq> ConditionDegraded \<longrightarrow> pool_condition ty p' = pool_condition ty p)
    \<and> (distinct (map cond_Type (pst_Conditions (pool_Status p)))
          \<longrightarrow> distinct (map cond_Type (pst_Conditions (pool_Status p'))))"
proof -
  let ?cs = "pst_Conditions (pool_Status p)"
  let ?s = "mk_condition ConditionDrainStuck ConditionTrue ''DrainTimeout'' msg now"
  let ?d = "mk_condition ConditionDegraded ConditionTrue ''DrainStuck'' ''One or more nodes have drain stuck'' now"
  have conds: "pst_Conditions (pool_Status p') = degrade_in ?d (set_in ?s ?cs)"
    by (simp add: assms SetDrainStuckCondition_def setDegradedForDrainStuck_def)
  have g: "get_condition ConditionDegraded (set_in ?s ?cs) = get_condition ConditionDegraded ?cs"
    by (simp add: stuck.other_condition)
  have st: "get_condition ConditionDrainStuck (degrade_in ?d (set_in ?s ?cs)) = get_condition ConditionDrainStuck (set_in ?s ?cs)"
    by (simp add: degrading.other_condition)
  have oth: "get_condition ty (degrade_in ?d (set_in ?s ?cs)) = get_condition ty ?cs"
    if "ty \<noteq> ConditionDrainStuck" "ty \<noteq> ConditionDegraded" for ty
    using that by (simp add: stuck.other_condition degrading.other_condition)
  show ?thesis
    unfolding conds st
    using set_in_get [of ?s ?cs] degrade_in_get [of ?d "set_in ?s ?cs"] g oth stuck.unique degrading.unique
    by (auto split: option.splits)
qed

theorem SetDrainStuckCondition_degrades_witness:
  "map_option cond_Status (pool_condition ConditionDrainStuck (SetDrainStuckCondition ''m'' 9 ex_stuck_pool)) = Some ConditionTrue
   \<and> map_option cond_Reason (pool_condition ConditionDegraded (SetDrainStuckCondition ''m'' 9 ex_stuck_pool)) = Some ''NodeErrors''"
  using SetDrainStuckCondition_degrades [OF refl, where msg = "''m''" and now = 9 and p = ex_stuck_pool]
  by (simp add: ex_stuck_pool_def ex_select_pool_def)

end
