(* ===== verification/Debounce.thy ===== *)
theory Debounce
  imports Renderer_Hash
begin

text \<open>
  The debounce state of the reconciler, \<open>internal/controller/debounce.go\<close>. Each operation
  holds the mutex for its whole body, so a history of calls is a sequence; the clock is an
  argument. The three maps are partial functions; a missing hash reads as the empty string
  and a missing time as the zero time.
\<close>

section \<open>debounce.go\<close>

record DebounceState =
  db_lastChangeTime :: "string \<rightharpoonup> time"
  db_lastHash :: "string \<rightharpoonup> string"
  db_poolSpecHash :: "string \<rightharpoonup> string"

definition NewDebounceState :: DebounceState where
  "NewDebounceState =
     \<lparr>db_lastChangeTime = Map.empty, db_lastHash = Map.empty, db_poolSpecHash = Map.empty\<rparr>"

definition GetLastHash :: "DebounceState \<Rightarrow> string \<Rightarrow> string" where
  "GetLastHash d pool = map_get (db_lastHash d) pool"

definition GetPoolSpecHash :: "DebounceState \<Rightarrow> string \<Rightarrow> string" where
  "GetPoolSpecHash d pool = map_get (db_poolSpecHash d) pool"

definition GetLastChangeTime :: "DebounceState \<Rightarrow> string \<Rightarrow> time" where
  "GetLastChangeTime d pool =
     (case db_lastChangeTime d pool of None \<Rightarrow> zero_time | Some t \<Rightarrow> t)"

definition CheckAndUpdate ::
  "time \<Rightarrow> string \<Rightarrow> string \<Rightarrow> string \<Rightarrow> int \<Rightarrow> DebounceState \<Rightarrow> (bool \<times> duration) \<times> DebounceState" where
  "CheckAndUpdate now pool configHash poolSpecHash debounceSeconds d =
     (let debounce = Seconds debounceSeconds;
          configChanged = (map_get (db_lastHash d) pool \<noteq> configHash);
          specChanged = (map_get (db_poolSpecHash d) pool \<noteq> poolSpecHash)
      in if configChanged \<or> specChanged then
           ((False, debounce),
            d\<lparr>db_lastChangeTime := (db_lastChangeTime d)(pool \<mapsto> now),
              db_lastHash := (db_lastHash d)(pool \<mapsto> configHash),
              db_poolSpecHash := (db_poolSpecHash d)(pool \<mapsto> poolSpecHash)\<rparr>)
         else
           let lastChange = GetLastChangeTime d pool in
           if lastChange = zero_time then
             ((False, debounce), d\<lparr>db_lastChangeTime := (db_lastChangeTime d)(pool \<mapsto> now)\<rparr>)
           else
             let elapsed = Sub now lastChange in
             if elapsed < debounce then ((False, wrap64 (debounce - elapsed)), d)
             else ((True, 0), d))"

definition Reset :: "string \<Rightarrow> DebounceState \<Rightarrow> DebounceState" where
  "Reset pool d =
     d\<lparr>db_lastChangeTime := (db_lastChangeTime d)(pool := None),
       db_lastHash := (db_lastHash d)(pool := None),
       db_poolSpecHash := (db_poolSpecHash d)(pool := None)\<rparr>"

record poolSpecData =
  psd_Strategy :: string
  psd_MinIntervalSeconds :: int

definition marshal_poolSpec :: "poolSpecData \<Rightarrow> string" where
  "marshal_poolSpec d =
     ''{'' @ q ''strategy'' @ '':'' @ json_string (psd_Strategy d)
     @ '','' @ q ''minIntervalSeconds'' @ '':'' @ Itoa (psd_MinIntervalSeconds d) @ ''}''"

definition ComputePoolSpecHash :: "MachineConfigPool \<Rightarrow> string" where
  "ComputePoolSpecHash pool =
     (let d = \<lparr>psd_Strategy = rp_Strategy (ps_Reboot (pool_Spec pool)),
               psd_MinIntervalSeconds = rp_MinIntervalSeconds (ps_Reboot (pool_Spec pool))\<rparr>
      in EncodeToString (take 8 (Sum256 (marshal_poolSpec d))))"

lemmas debounce_defs [mco_eval] =
  NewDebounceState_def GetLastHash_def GetPoolSpecHash_def GetLastChangeTime_def
  CheckAndUpdate_def Reset_def marshal_poolSpec_def ComputePoolSpecHash_def

lemma ComputePoolSpecHash_shape:
  "length (ComputePoolSpecHash pool) = 16"
  "set (ComputePoolSpecHash pool) \<subseteq> set ''0123456789abcdef''"
proof -
  have "list_all (\<lambda>b. b < 256) (take 8 (Sum256 s))" for s
    using Sum256_bytes [of s] unfolding list_all_iff by (blast dest: in_set_takeD)
  then show "set (ComputePoolSpecHash pool) \<subseteq> set ''0123456789abcdef''"
    unfolding ComputePoolSpecHash_def Let_def by (rule EncodeToString_hex)
  show "length (ComputePoolSpecHash pool) = 16"
    unfolding ComputePoolSpecHash_def Let_def by (simp only: length_EncodeToString length_take length_Sum256)
qed

text \<open>The text that is hashed determines the strategy and the interval.\<close>

lemma marshal_poolSpec_inj:
  assumes "valid_utf8 (psd_Strategy d)" and "valid_utf8 (psd_Strategy d')"
    and "marshal_poolSpec d = marshal_poolSpec d'"
  shows "d = d'"
proof -
  let ?rest = "\<lambda>e. '','' @ q ''minIntervalSeconds'' @ '':'' @ Itoa (psd_MinIntervalSeconds e) @ ''}''"
  have "json_string (psd_Strategy d) @ ?rest d = json_string (psd_Strategy d') @ ?rest d'"
    using assms(3) by (simp add: marshal_poolSpec_def q_def)
  then have s: "psd_Strategy d = psd_Strategy d'" and "?rest d = ?rest d'"
    using string_code.prefix_inj [OF assms(1,2)] by blast+
  then have "psd_MinIntervalSeconds d = psd_MinIntervalSeconds d'"
    by (simp add: q_def Itoa_inj)
  with s show ?thesis by simp
qed

section \<open>Histories\<close>

datatype debounce_op =
    Check time string string string int
  | ResetPool string

primrec debounce_step :: "debounce_op \<Rightarrow> DebounceState \<Rightarrow> DebounceState" where
  "debounce_step (Check now pool h sh secs) d = snd (CheckAndUpdate now pool h sh secs d)"
| "debounce_step (ResetPool pool) d = Reset pool d"

text \<open>The state after a history, newest operation first.\<close>

primrec debounce_run :: "debounce_op list \<Rightarrow> DebounceState" where
  "debounce_run [] = NewDebounceState"
| "debounce_run (op # ops) = debounce_step op (debounce_run ops)"

text \<open>The operation leaves the pool alone or sees the same configuration and policy.\<close>

primrec same_or_other :: "string \<Rightarrow> string \<Rightarrow> string \<Rightarrow> debounce_op \<Rightarrow> bool" where
  "same_or_other pool h sh (Check t p h' sh' secs) \<longleftrightarrow> p \<noteq> pool \<or> h' = h \<and> sh' = sh"
| "same_or_other pool h sh (ResetPool p) \<longleftrightarrow> p \<noteq> pool"

text \<open>
  Since a recorded change, the pool has been checked with the recorded hashes only, and the
  change itself is a check at the recorded time.
\<close>

definition recorded :: "debounce_op list \<Rightarrow> string \<Rightarrow> time \<Rightarrow> string \<Rightarrow> string \<Rightarrow> bool" where
  "recorded ops pool t h sh \<longleftrightarrow>
     (\<exists>newer older secs. ops = newer @ Check t pool h sh secs # older \<and>
        list_all (same_or_other pool h sh) newer)"

lemma recorded_here: "recorded (Check t pool h sh secs # ops) pool t h sh"
  unfolding recorded_def by (rule exI [of _ "[]"]) simp

lemma recorded_later:
  assumes "recorded ops pool t h sh" and "same_or_other pool h sh op"
  shows "recorded (op # ops) pool t h sh"
proof -
  obtain newer older secs where
    "ops = newer @ Check t pool h sh secs # older" "list_all (same_or_other pool h sh) newer"
    using assms(1) unfolding recorded_def by blast
  then show ?thesis
    unfolding recorded_def using assms(2) by (metis append_Cons list.pred_inject(2))
qed

lemma debounce_recorded:
  "db_lastChangeTime (debounce_run ops) pool = Some t \<Longrightarrow>
     recorded ops pool t (GetLastHash (debounce_run ops) pool) (GetPoolSpecHash (debounce_run ops) pool)"
proof (induction ops arbitrary: t)
  case Nil
  then show ?case by (simp add: NewDebounceState_def)
next
  case (Cons op ops)
  let ?d = "debounce_run ops"
  show ?case
  proof (cases op)
    case (ResetPool p)
    then show ?thesis
      using Cons by (auto simp: Reset_def GetLastHash_def GetPoolSpecHash_def map_get_def
          intro!: recorded_later split: if_splits)
  next
    case (Check now p h sh secs)
    show ?thesis
    proof (cases "p = pool")
      case False
      then show ?thesis
        using Cons by (auto simp: Check CheckAndUpdate_def Let_def GetLastHash_def
            GetPoolSpecHash_def intro!: recorded_later split: if_splits)
    next
      case True
      then show ?thesis
        using Cons by (auto simp: Check CheckAndUpdate_def Let_def GetLastHash_def
            GetPoolSpecHash_def intro!: recorded_later recorded_here split: if_splits)
    qed
  qed
qed

text \<open>
  C26: Rendering waits for a quiet period. Whatever was called before, \<open>CheckAndUpdate\<close> lets
  the reconciler proceed only if an earlier call for the same pool, at least the debounce
  period ago, carried the same configuration hash and the same policy hash, and every call
  for the pool since then carried them too, with no reset in between.
\<close>

theorem debounce_quiet_period:
  assumes "CheckAndUpdate now pool h sh secs (debounce_run ops) = ((True, r), d')"
  shows "\<exists>newer older t secs'. ops = newer @ Check t pool h sh secs' # older \<and>
    list_all (same_or_other pool h sh) newer \<and> Seconds secs \<le> Sub now t \<and> r = 0"
proof -
  let ?d = "debounce_run ops"
  have h: "GetLastHash ?d pool = h" "GetPoolSpecHash ?d pool = sh"
    and t: "GetLastChangeTime ?d pool \<noteq> zero_time"
      "Seconds secs \<le> Sub now (GetLastChangeTime ?d pool)" and r: "r = 0"
    using assms
    by (auto simp: CheckAndUpdate_def Let_def GetLastHash_def GetPoolSpecHash_def split: if_splits)
  then obtain t' where "db_lastChangeTime ?d pool = Some t'" "GetLastChangeTime ?d pool = t'"
    by (auto simp: GetLastChangeTime_def split: option.splits)
  then show ?thesis
    using debounce_recorded [of ops pool t'] h t r unfolding recorded_def by blast
qed

text \<open>
  The requeue time is enough. If \<open>CheckAndUpdate\<close> holds a pool back and asks to be called
  again after \<open>r\<close>, then \<open>r\<close> lies between zero and the debounce period, and the call with the
  same hashes after \<open>r\<close> proceeds: an unchanged pool is rendered after one more call. The clock
  must not run backwards and the period must fit a \<open>Duration\<close>.
\<close>

theorem debounce_requeue_suffices:
  assumes "CheckAndUpdate now pool h sh secs d = ((False, r), d')"
    and "0 \<le> secs" and "secs \<le> 9223372036" and "now \<noteq> zero_time"
    and "GetLastChangeTime d pool \<le> now"
  shows "0 \<le> r \<and> r \<le> Seconds secs \<and>
    CheckAndUpdate (now + r) pool h sh secs d' = ((True, 0), d')"
proof -
  have s: "Seconds secs = secs * 1000000000" and b: "0 \<le> Seconds secs" "Seconds secs < 2 ^ 63"
    using Seconds_exact [OF assms(2,3)] assms(2,3) by auto
  have sub: "Sub (now + Seconds secs) now = Seconds secs"
    using b by (simp add: Sub_def sat64_def)
  let ?t = "GetLastChangeTime d pool"
  consider (changed) "map_get (db_lastHash d) pool \<noteq> h \<or> map_get (db_poolSpecHash d) pool \<noteq> sh"
    | (unset) "map_get (db_lastHash d) pool = h" "map_get (db_poolSpecHash d) pool = sh" "?t = zero_time"
    | (waiting) "map_get (db_lastHash d) pool = h" "map_get (db_poolSpecHash d) pool = sh" "?t \<noteq> zero_time"
    by blast
  then show ?thesis
  proof cases
    case waiting
    then have e: "Sub now ?t < Seconds secs" and r: "r = wrap64 (Seconds secs - Sub now ?t)" and "d' = d"
      using assms(1) by (auto simp: CheckAndUpdate_def Let_def split: if_splits)
    have el: "Sub now ?t = now - ?t"
      using e b assms(5) by (auto simp: Sub_def sat64_def)
    have r': "r = Seconds secs - (now - ?t)"
      unfolding r el by (rule wrap64_id) (use e b assms(5) el in \<open>auto simp: in_int64_def\<close>)
    then have "Sub (now + r) ?t = Seconds secs"
      using b by (simp add: Sub_def sat64_def)
    then show ?thesis
      using waiting r' e el assms(5) \<open>d' = d\<close> by (simp add: CheckAndUpdate_def Let_def)
  qed (use assms(1,4) sub b in \<open>auto simp: CheckAndUpdate_def Let_def GetLastChangeTime_def split: if_splits\<close>)
qed

text \<open>A pool checked at 100 s and again at 131 s with a period of 30 s.\<close>

definition ex_debounced :: "debounce_op list" where
  "ex_debounced =
     [Check (110 * 1000000000) ''masters'' ''b'' ''p'' 30,
      Check (100 * 1000000000) ''workers'' ''a'' ''p'' 30]"

theorem debounce_quiet_period_witness:
  "fst (CheckAndUpdate (131 * 1000000000) ''workers'' ''a'' ''p'' 30 (debounce_run ex_debounced)) = (True, 0) \<and>
   (\<exists>newer older t secs'. ex_debounced = newer @ Check t ''workers'' ''a'' ''p'' secs' # older \<and>
      list_all (same_or_other ''workers'' ''a'' ''p'') newer \<and>
      Seconds 30 \<le> Sub (131 * 1000000000) t)"
proof -
  have "fst (CheckAndUpdate (131 * 1000000000) ''workers'' ''a'' ''p'' 30
      (debounce_run ex_debounced)) = (True, 0)"
    by (simp add: ex_debounced_def debounce_defs time_defs)
  then show ?thesis
    using debounce_quiet_period [where now = "131 * 1000000000" and pool = "''workers''"
        and h = "''a''" and sh = "''p''" and secs = 30 and ops = ex_debounced and r = 0]
    by (metis prod.collapse)
qed

theorem debounce_requeue_suffices_witness:
  "fst (CheckAndUpdate (130 * 1000000000) ''workers'' ''a'' ''p'' 30
     (snd (CheckAndUpdate (100 * 1000000000) ''workers'' ''a'' ''p'' 30 NewDebounceState))) = (True, 0)"
  using debounce_requeue_suffices [where now = "100 * 1000000000" and pool = "''workers''"
      and h = "''a''" and sh = "''p''" and secs = 30 and d = NewDebounceState
      and r = "30 * 1000000000"
      and d' = "snd (CheckAndUpdate (100 * 1000000000) ''workers'' ''a'' ''p'' 30 NewDebounceState)"]
  by (simp add: debounce_defs time_defs)

end
