(* ===== verification/Cleanup.thy ===== *)
theory Cleanup
  imports In_Memory_API
begin

text \<open>
  Retention of rendered configurations, \<open>internal/controller/cleanup.go\<close>: how many old
  revisions a pool keeps, and which of them may be deleted. A Go pair of a count and an error
  is a pair; the deletions made before an error stay made, as in the code.
\<close>

section \<open>cleanup.go\<close>

definition listRMCsForPool ::
  "'s client \<Rightarrow> string \<Rightarrow> 's \<Rightarrow> RenderedMachineConfig list result \<times> 's" where
  "listRMCsForPool c poolName s = ListRMCs c s (Some poolName)"

definition getRevisionsInUse :: "Node list \<Rightarrow> string \<Rightarrow> string set" where
  "getRevisionsInUse nodes target =
     (let inUse = (if target \<noteq> [] then {target} else {})
      in foldl (\<lambda>inUse node.
           let current = GetAnnotation (node_Annotations node) CurrentRevision;
               inUse = (if current \<noteq> [] then insert current inUse else inUse);
               desired = GetAnnotation (node_Annotations node) DesiredRevision
           in if desired \<noteq> [] then insert desired inUse else inUse) inUse nodes)"

fun delete_unused ::
  "'s client \<Rightarrow> string set \<Rightarrow> int \<Rightarrow> nat \<Rightarrow> RenderedMachineConfig list \<Rightarrow> 's \<Rightarrow> (nat \<times> go_error option) \<times> 's" where
  "delete_unused c inUse toDelete deleted [] s = ((deleted, None), s)"
| "delete_unused c inUse toDelete deleted (rmc # rmcs) s =
     (if \<not> int deleted < toDelete then ((deleted, None), s)
      else if rmc_Name rmc \<in> inUse then delete_unused c inUse toDelete deleted rmcs s
      else case DeleteRMC c s rmc of
        (Some err, s1) \<Rightarrow>
          ((deleted, Some (Wrap (''failed to delete RMC '' @ rmc_Name rmc) err)), s1)
      | (None, s1) \<Rightarrow> delete_unused c inUse toDelete (deleted + 1) rmcs s1)"

definition CleanupOldRMCs ::
  "'s client \<Rightarrow> MachineConfigPool \<Rightarrow> Node list \<Rightarrow> 's \<Rightarrow> (nat \<times> go_error option) \<times> 's" where
  "CleanupOldRMCs c pool nodes s =
     (let limit = rh_Limit (ps_RevisionHistory (pool_Spec pool)) in
      if limit = 0 then ((0, None), s)
      else case listRMCsForPool c (pool_Name pool) s of
        (Inl err, s1) \<Rightarrow> ((0, Some (Wrap ''failed to list RMCs'' err)), s1)
      | (Inr rmcs, s1) \<Rightarrow>
          if int (length rmcs) \<le> limit then ((0, None), s1)
          else
            let inUse = getRevisionsInUse nodes (pst_TargetRevision (pool_Status pool));
                rmcs = sort_slice (\<lambda>a b. rmc_CreationTimestamp a < rmc_CreationTimestamp b) rmcs;
                toDelete = int (length rmcs) - limit
            in delete_unused c inUse toDelete 0 rmcs s1)"

fun delete_orphans ::
  "'s client \<Rightarrow> string set \<Rightarrow> nat \<Rightarrow> RenderedMachineConfig list \<Rightarrow> 's \<Rightarrow> (nat \<times> go_error option) \<times> 's" where
  "delete_orphans c poolNames deleted [] s = ((deleted, None), s)"
| "delete_orphans c poolNames deleted (rmc # rmcs) s =
     (if rmcs_PoolName (rmc_Spec rmc) \<notin> poolNames then
        (case DeleteRMC c s rmc of
           (Some err, s1) \<Rightarrow>
             ((deleted, Some (Wrap (''failed to delete orphaned RMC '' @ rmc_Name rmc) err)), s1)
         | (None, s1) \<Rightarrow> delete_orphans c poolNames (deleted + 1) rmcs s1)
      else delete_orphans c poolNames deleted rmcs s)"

definition CleanupOrphanedRMCs :: "'s client \<Rightarrow> 's \<Rightarrow> (nat \<times> go_error option) \<times> 's" where
  "CleanupOrphanedRMCs c s =
     (case ListPools c s of
        (Inl err, s1) \<Rightarrow> ((0, Some (Wrap ''failed to list pools'' err)), s1)
      | (Inr pools, s1) \<Rightarrow>
          let poolNames = set (map pool_Name pools) in
          case ListRMCs c s1 None of
            (Inl err, s2) \<Rightarrow> ((0, Some (Wrap ''failed to list RMCs'' err)), s2)
          | (Inr rmcs, s2) \<Rightarrow> delete_orphans c poolNames 0 rmcs s2)"

lemmas cleanup_defs [mco_eval] =
  listRMCsForPool_def getRevisionsInUse_def CleanupOldRMCs_def CleanupOrphanedRMCs_def

section \<open>Revisions in use\<close>

lemma getRevisionsInUse_mem:
  "r \<in> getRevisionsInUse nodes target \<longleftrightarrow> r \<noteq> [] \<and>
     (r = target \<or> (\<exists>n\<in>set nodes. r = GetAnnotation (node_Annotations n) CurrentRevision \<or>
        r = GetAnnotation (node_Annotations n) DesiredRevision))"
proof -
  let ?step = "\<lambda>inUse node.
    let current = GetAnnotation (node_Annotations node) CurrentRevision;
        inUse = (if current \<noteq> [] then insert current inUse else inUse);
        desired = GetAnnotation (node_Annotations node) DesiredRevision
    in if desired \<noteq> [] then insert desired inUse else inUse"
  have "r \<in> foldl ?step A nodes \<longleftrightarrow> r \<in> A \<or> r \<noteq> [] \<and>
     (\<exists>n\<in>set nodes. r = GetAnnotation (node_Annotations n) CurrentRevision \<or>
        r = GetAnnotation (node_Annotations n) DesiredRevision)" for A
    by (induction nodes arbitrary: A) (auto simp: Let_def)
  then show ?thesis
    unfolding getRevisionsInUse_def Let_def by auto
qed

text \<open>A revision that the pool or one of its nodes still names.\<close>

definition referenced :: "MachineConfigPool \<Rightarrow> Node list \<Rightarrow> string \<Rightarrow> bool" where
  "referenced pool nodes r \<longleftrightarrow> r \<noteq> [] \<and>
     (r = pst_TargetRevision (pool_Status pool) \<or>
      (\<exists>n\<in>set nodes. r = GetAnnotation (node_Annotations n) CurrentRevision \<or>
         r = GetAnnotation (node_Annotations n) DesiredRevision))"

lemma getRevisionsInUse_referenced:
  "r \<in> getRevisionsInUse nodes (pst_TargetRevision (pool_Status pool)) \<longleftrightarrow> referenced pool nodes r"
  by (simp add: getRevisionsInUse_mem referenced_def)

section \<open>What the loops delete\<close>

context rmc_api
begin

lemma delete_frame:
  assumes "DeleteRMC c s rmc = (None, s1)" and "rmcs s' = rmcs s1 |` (- A)"
  shows "rmcs s' = rmcs s |` (- insert (rmc_Name rmc) A)"
  using rmc_delete_ok [OF assms(1)] assms(2) by (auto simp: restrict_map_def fun_eq_iff)

lemma delete_unused_deletes:
  "delete_unused c inUse k d rs s = ((n, e), s') \<Longrightarrow>
     \<exists>m. n = d + m \<and> m \<le> length (filter (\<lambda>r. rmc_Name r \<notin> inUse) rs) \<and>
       int m \<le> max 0 (k - int d) \<and>
       rmcs s' = rmcs s |` (- rmc_Name ` set (take m (filter (\<lambda>r. rmc_Name r \<notin> inUse) rs))) \<and>
       (e = None \<longrightarrow> int m = min (max 0 (k - int d)) (int (length (filter (\<lambda>r. rmc_Name r \<notin> inUse) rs))))"
proof (induction rs arbitrary: d s)
  case Nil
  then show ?case by auto
next
  case (Cons r rs)
  consider (stop) "\<not> int d < k" | (used) "int d < k" "rmc_Name r \<in> inUse"
    | (del) "int d < k" "rmc_Name r \<notin> inUse" by blast
  then show ?case
  proof cases
    case stop
    then show ?thesis using Cons.prems by (intro exI [of _ 0]) auto
  next
    case used
    then show ?thesis using Cons.IH [of d s] Cons.prems by simp
  next
    case del
    show ?thesis
    proof (cases "DeleteRMC c s r")
      case (Pair eo s1)
      show ?thesis
      proof (cases eo)
        case (Some err)
        then show ?thesis
          using Cons.prems del Pair rmc_delete_failed [of s r err s1] by (intro exI [of _ 0]) auto
      next
        case None
        then have "delete_unused c inUse k (d + 1) rs s1 = ((n, e), s')"
          using Cons.prems del Pair by simp
        from Cons.IH [OF this] obtain m where m:
          "n = d + 1 + m" "m \<le> length (filter (\<lambda>r. rmc_Name r \<notin> inUse) rs)"
          "int m \<le> max 0 (k - int (d + 1))"
          "rmcs s' = rmcs s1 |` (- rmc_Name ` set (take m (filter (\<lambda>r. rmc_Name r \<notin> inUse) rs)))"
          "e = None \<longrightarrow> int m = min (max 0 (k - int (d + 1))) (int (length (filter (\<lambda>r. rmc_Name r \<notin> inUse) rs)))"
          by blast
        show ?thesis
          using m del delete_frame [OF Pair [unfolded None] m(4)]
          by (intro exI [of _ "Suc m"]) (auto simp: max_def min_def split: if_splits)
      qed
    qed
  qed
qed

lemma delete_orphans_deletes:
  "delete_orphans c pools d rs s = ((n, e), s') \<Longrightarrow>
     \<exists>m. n = d + m \<and>
       rmcs s' = rmcs s |` (- rmc_Name ` set (take m (filter (\<lambda>r. rmcs_PoolName (rmc_Spec r) \<notin> pools) rs))) \<and>
       m \<le> length (filter (\<lambda>r. rmcs_PoolName (rmc_Spec r) \<notin> pools) rs) \<and>
       (e = None \<longrightarrow> m = length (filter (\<lambda>r. rmcs_PoolName (rmc_Spec r) \<notin> pools) rs))"
proof (induction rs arbitrary: d s)
  case Nil
  then show ?case by auto
next
  case (Cons r rs)
  show ?case
  proof (cases "rmcs_PoolName (rmc_Spec r) \<in> pools")
    case True
    then show ?thesis using Cons by auto
  next
    case False
    show ?thesis
    proof (cases "DeleteRMC c s r")
      case (Pair eo s1)
      show ?thesis
      proof (cases eo)
        case (Some err)
        then show ?thesis
          using Cons.prems False Pair rmc_delete_failed [of s r err s1] by (intro exI [of _ 0]) auto
      next
        case None
        then have "delete_orphans c pools (d + 1) rs s1 = ((n, e), s')"
          using Cons.prems False Pair by simp
        from Cons.IH [OF this] obtain m where m: "n = d + 1 + m"
          "rmcs s' = rmcs s1 |` (- rmc_Name ` set (take m (filter (\<lambda>r. rmcs_PoolName (rmc_Spec r) \<notin> pools) rs)))"
          "m \<le> length (filter (\<lambda>r. rmcs_PoolName (rmc_Spec r) \<notin> pools) rs)"
          "e = None \<longrightarrow> m = length (filter (\<lambda>r. rmcs_PoolName (rmc_Spec r) \<notin> pools) rs)"
          by blast
        show ?thesis
          using m False delete_frame [OF Pair [unfolded None] m(2)]
          by (intro exI [of _ "Suc m"]) auto
      qed
    qed
  qed
qed

end

text \<open>A prefix of a sorted list holds its smallest elements.\<close>

lemma take_sorted_least:
  fixes key :: "'a \<Rightarrow> 'k::linorder"
  assumes "sorted (map key xs)" and "x \<in> set (take m xs)" and "y \<in> set xs" and "y \<notin> set (take m xs)"
  shows "key x \<le> key y"
proof -
  have "y \<in> set (drop m xs)"
    using assms(3,4) by (metis Un_iff append_take_drop_id set_append)
  moreover have "sorted (map key (take m xs) @ map key (drop m xs))"
    using assms(1) by (metis append_take_drop_id map_append)
  ultimately show ?thesis
    using assms(2) by (auto simp: sorted_append)
qed

text \<open>
  C10: Clean-up deletes only the oldest unused revisions, and no more than exceed the limit.
  When the pool's revisions are listed as \<open>rs\<close>, \<open>CleanupOldRMCs\<close> deletes a set \<open>D\<close> of them and
  touches nothing else: no revision that the pool's target or a node's current or desired
  annotation names; at most as many as exceed the limit, and none when the limit is zero;
  always the oldest of the unreferenced ones; and when it reports no error, as many as it may.
  The count returned is the size of \<open>D\<close>, also when a deletion fails half way. The revisions
  that are left need not be the newest: the ones in use count against the limit, so with
  older ones in use the newest unused ones are deleted too.
\<close>

theorem CleanupOldRMCs_deletes_oldest_unused:
  assumes "rmc_api c rmcs"
    and "ListRMCs c s (Some (pool_Name pool)) = (Inr rs, s1)"
    and "CleanupOldRMCs c pool nodes s = ((n, e), s')"
    and "limit = rh_Limit (ps_RevisionHistory (pool_Spec pool))"
    and "excess = (if limit = 0 then 0 else max 0 (int (length rs) - limit))"
    and "unused = {r \<in> set rs. \<not> referenced pool nodes (rmc_Name r)}"
  shows "\<exists>D \<subseteq> unused. rmcs s' = rmcs s |` (- rmc_Name ` D) \<and> n = card D \<and>
    int n \<le> excess \<and> (e = None \<longrightarrow> int n = min excess (int (card unused))) \<and>
    (\<forall>d\<in>D. \<forall>r\<in>unused - D. rmc_CreationTimestamp d \<le> rmc_CreationTimestamp r)"
proof -
  note api = rmc_api.rmc_list_frame [OF assms(1,2)] rmc_api.rmc_list_distinct [OF assms(1,2)]
  show ?thesis
  proof (cases "limit = 0 \<or> int (length rs) \<le> limit")
    case True
    then have "n = 0" "rmcs s' = rmcs s" "excess = 0"
      using assms(2-5) api(1) by (auto simp: CleanupOldRMCs_def listRMCsForPool_def Let_def split: if_splits)
    then show ?thesis by (intro exI [of _ "{}"]) (simp add: restrict_map_def)
  next
    case False
    let ?sorted = "sort_slice (\<lambda>a b. rmc_CreationTimestamp a < rmc_CreationTimestamp b) rs"
    let ?use = "getRevisionsInUse nodes (pst_TargetRevision (pool_Status pool))"
    define un where "un = filter (\<lambda>r. rmc_Name r \<notin> ?use) ?sorted"
    have "delete_unused c ?use (int (length rs) - limit) 0 ?sorted s1 = ((n, e), s')"
      using assms(2-4) False by (simp add: CleanupOldRMCs_def listRMCsForPool_def Let_def)
    from rmc_api.delete_unused_deletes [OF assms(1) this] False assms(5)
    have m: "n \<le> length un" "int n \<le> excess" "rmcs s' = rmcs s1 |` (- rmc_Name ` set (take n un))"
      "e = None \<Longrightarrow> int n = min excess (int (length un))"
      by (auto simp: un_def)
    have un: "set un = unused" "distinct un"
      using api(2) by (auto simp: un_def assms(6) getRevisionsInUse_referenced distinct_map)
    have "sorted (map rmc_CreationTimestamp ?sorted)" by (rule sorted_sort_slice) simp
    then have srt: "sorted (map rmc_CreationTimestamp un)"
      unfolding un_def by (rule sorted_filter)
    have "card (set (take n un)) = n" "card unused = length un"
      using un m(1) by (simp_all add: distinct_card flip: un(1))
    then show ?thesis
      using m api(1) un(1) take_sorted_least [OF srt]
      by (intro exI [of _ "set (take n un)"]) (auto dest: in_set_takeD)
  qed
qed

text \<open>
  Orphan clean-up deletes exactly the configurations of pools that are gone. Whatever
  \<open>CleanupOrphanedRMCs\<close> deletes names a pool that is not among the listed pools; when it
  reports no error every such configuration in the list is deleted and nothing else changed.
\<close>

theorem CleanupOrphanedRMCs_exact:
  assumes "rmc_api c rmcs"
    and "ListPools c s = (Inr pools, s1)" and "rmcs s1 = rmcs s"
    and "ListRMCs c s1 None = (Inr rs, s2)"
    and "CleanupOrphanedRMCs c s = ((n, e), s')"
    and "orphans = {r \<in> set rs. rmcs_PoolName (rmc_Spec r) \<notin> pool_Name ` set pools}"
  shows "\<exists>D \<subseteq> orphans. rmcs s' = rmcs s |` (- rmc_Name ` D) \<and> n = card D \<and>
    (e = None \<longrightarrow> D = orphans)"
proof -
  define un where "un = filter (\<lambda>r. rmcs_PoolName (rmc_Spec r) \<notin> pool_Name ` set pools) rs"
  have "delete_orphans c (pool_Name ` set pools) 0 rs s2 = ((n, e), s')"
    using assms(2,4,5) by (simp add: CleanupOrphanedRMCs_def)
  from rmc_api.delete_orphans_deletes [OF assms(1) this]
  have m: "n \<le> length un" "rmcs s' = rmcs s2 |` (- rmc_Name ` set (take n un))" "e = None \<Longrightarrow> n = length un"
    by (auto simp: un_def)
  have un: "set un = orphans" "distinct un"
    using rmc_api.rmc_list_distinct [OF assms(1,4)] by (auto simp: un_def assms(6) distinct_map)
  have "card (set (take n un)) = n"
    using un m(1) by (simp add: distinct_card)
  then show ?thesis
    using m un(1) assms(3) rmc_api.rmc_list_frame [OF assms(1,4)]
    by (intro exI [of _ "set (take n un)"]) (auto dest: in_set_takeD)
qed

section \<open>Instances\<close>

text \<open>Three revisions of one pool with a limit of one; a node still runs the oldest.\<close>

definition ex_revision :: "string \<Rightarrow> string \<Rightarrow> time \<Rightarrow> RenderedMachineConfig" where
  "ex_revision name pool t =
     \<lparr>rmc_Name = name, rmc_Labels = [pool_label \<mapsto> pool], rmc_CreationTimestamp = t,
      rmc_OwnerPool = Some pool,
      rmc_Spec = \<lparr>rmcs_PoolName = pool, rmcs_Revision = name, rmcs_ConfigHash = [],
        rmcs_Config = \<lparr>rc_Files = [], rc_Systemd = \<lparr>systemd_Units = []\<rparr>\<rparr>, rmcs_Sources = [],
        rmcs_RebootRequirements = \<lparr>rbr_Files = [], rbr_Units = []\<rparr>,
        rmcs_Reboot = \<lparr>rrs_Required = False, rrs_Strategy = ''Never'', rrs_MinIntervalSeconds = 0\<rparr>\<rparr>\<rparr>"

definition ex_history :: cluster where
  "ex_history =
     \<lparr>cl_nodes = [], cl_pods = [], cl_blocked = [],
      cl_rmcs = [(''w-1'', ex_revision ''w-1'' ''workers'' 1),
                 (''w-2'', ex_revision ''w-2'' ''workers'' 2),
                 (''w-3'', ex_revision ''w-3'' ''workers'' 3),
                 (''x-1'', ex_revision ''x-1'' ''gone'' 4)],
      cl_pools = [], cl_configs = [], cl_version = 0\<rparr>"

definition ex_running :: "string \<Rightarrow> Node" where
  "ex_running r = \<lparr>node_Name = ''n1'', node_Labels = Map.empty, node_Annotations = [CurrentRevision \<mapsto> r],
     node_CreationTimestamp = 0, node_Unschedulable = False, node_ResourceVersion = 1\<rparr>"

definition ex_limited :: "int \<Rightarrow> string \<Rightarrow> MachineConfigPool" where
  "ex_limited limit target =
     \<lparr>pool_Name = ''workers'',
      pool_Spec = \<lparr>ps_NodeSelector = None, ps_MachineConfigSelector = None,
        ps_Rollout = \<lparr>ro_DebounceSeconds = 30, ro_ApplyTimeoutSeconds = 600, ro_MaxUnavailable = None,
          ro_DrainTimeoutSeconds = 3600, ro_DrainRetrySeconds = 0\<rparr>,
        ps_Reboot = \<lparr>rp_Strategy = ''Never'', rp_MinIntervalSeconds = 0\<rparr>,
        ps_RevisionHistory = \<lparr>rh_Limit = limit\<rparr>, ps_Paused = False\<rparr>,
      pool_Status = \<lparr>pst_TargetRevision = target, pst_CurrentRevision = [], pst_LastSuccessfulRevision = [],
        pst_MachineCount = 0, pst_ReadyMachineCount = 0, pst_UpdatedMachineCount = 0,
        pst_UpdatingMachineCount = 0, pst_DegradedMachineCount = 0, pst_UnavailableMachineCount = 0,
        pst_PendingRebootCount = 0, pst_CordonedMachineCount = 0, pst_DrainingMachineCount = 0,
        pst_Conditions = []\<rparr>\<rparr>"

lemmas ex_history_defs [mco_eval] =
  ex_revision_def ex_history_def ex_running_def ex_limited_def

abbreviation ex_history_run :: "(nat \<times> go_error option) \<times> cluster" where
  "ex_history_run \<equiv> CleanupOldRMCs mem_client (ex_limited 1 ''w-3'') [ex_running ''w-1''] ex_history"

lemma ex_history_list:
  "ListRMCs mem_client ex_history (Some ''workers'') =
     (Inr [ex_revision ''w-1'' ''workers'' 1, ex_revision ''w-2'' ''workers'' 2,
           ex_revision ''w-3'' ''workers'' 3], ex_history)"
  "ListRMCs mem_client ex_history None =
     (Inr [ex_revision ''w-1'' ''workers'' 1, ex_revision ''w-2'' ''workers'' 2,
           ex_revision ''w-3'' ''workers'' 3, ex_revision ''x-1'' ''gone'' 4], ex_history)"
  by (simp_all add: mem_defs ex_history_defs)

theorem CleanupOldRMCs_deletes_oldest_unused_witness:
  "\<exists>D \<subseteq> {ex_revision ''w-2'' ''workers'' 2}.
     mem_rmcs (snd ex_history_run) = mem_rmcs ex_history |` (- rmc_Name ` D) \<and>
     fst (fst ex_history_run) = card D"
proof -
  let ?rs = "[ex_revision ''w-1'' ''workers'' 1, ex_revision ''w-2'' ''workers'' 2,
    ex_revision ''w-3'' ''workers'' 3]"
  have un: "{r \<in> set ?rs. \<not> referenced (ex_limited 1 ''w-3'') [ex_running ''w-1''] (rmc_Name r)}
      = {ex_revision ''w-2'' ''workers'' 2}"
    by (auto simp: referenced_def ex_history_defs)
  have "ListRMCs mem_client ex_history (Some (pool_Name (ex_limited 1 ''w-3''))) = (Inr ?rs, ex_history)"
    using ex_history_list(1) by (simp add: ex_limited_def)
  from CleanupOldRMCs_deletes_oldest_unused [OF mem_rmc.rmc_api_axioms this, where nodes = "[ex_running ''w-1'']"
      and n = "fst (fst ex_history_run)" and e = "snd (fst ex_history_run)" and s' = "snd ex_history_run",
      unfolded un, OF _ refl refl refl]
  show ?thesis by (metis prod.collapse)
qed

theorem CleanupOrphanedRMCs_exact_witness:
  "\<exists>D \<subseteq> set [ex_revision ''w-1'' ''workers'' 1, ex_revision ''w-2'' ''workers'' 2,
        ex_revision ''w-3'' ''workers'' 3, ex_revision ''x-1'' ''gone'' 4].
     mem_rmcs (snd (CleanupOrphanedRMCs mem_client ex_history)) = mem_rmcs ex_history |` (- rmc_Name ` D)"
proof -
  let ?run = "CleanupOrphanedRMCs mem_client ex_history"
  let ?rs = "[ex_revision ''w-1'' ''workers'' 1, ex_revision ''w-2'' ''workers'' 2,
    ex_revision ''w-3'' ''workers'' 3, ex_revision ''x-1'' ''gone'' 4]"
  have "ListPools mem_client ex_history = (Inr [], ex_history)"
    by (simp add: mem_defs ex_history_defs)
  from CleanupOrphanedRMCs_exact [OF mem_rmc.rmc_api_axioms this refl ex_history_list(2) _ refl,
      where n = "fst (fst ?run)" and e = "snd (fst ?run)" and s' = "snd ?run"]
  obtain D where "D \<subseteq> set ?rs" "mem_rmcs (snd ?run) = mem_rmcs ex_history |` (- rmc_Name ` D)"
    by auto
  then show ?thesis by blast
qed

end
