(* ===== verification/Host_FS.thy ===== *)
theory Host_FS
  imports Go_Time
begin

text \<open>
  The host as the agent sees it: lexical paths (package \<open>path/filepath\<close>), the calls of
  packages \<open>os\<close> and \<open>os/user\<close> that the agent makes, and the temporary files of
  \<open>github.com/google/renameio\<close>. The kernel behind the calls is not code of the repository: the
  calls are the fields of a record \<open>'s host\<close> over a state, their documented behaviour is the
  locale \<open>host_fs\<close>, and \<open>disk_host\<close> is a host on which it holds.
\<close>

section \<open>Package path/filepath\<close>

definition IsAbs :: "string \<Rightarrow> bool" where
  "IsAbs p \<longleftrightarrow> HasPrefix p ''/''"

definition clean_step :: "bool \<Rightarrow> string list \<Rightarrow> string \<Rightarrow> string list" where
  "clean_step rooted acc p =
     (if p = [] \<or> p = ''.'' then acc
      else if p = ''..'' then
        (if acc \<noteq> [] \<and> hd acc \<noteq> ''..'' then tl acc else if rooted then acc else p # acc)
      else p # acc)"

definition Clean :: "string \<Rightarrow> string" where
  "Clean p =
     (if p = [] then ''.''
      else let rooted = IsAbs p;
               parts = rev (foldl (clean_step rooted) [] (Split p (CHR ''/'')))
           in if rooted then ''/'' @ Join parts ''/''
              else if parts = [] then ''.'' else Join parts ''/'')"

definition path_join :: "string list \<Rightarrow> string" where
  "path_join elems =
     (let es = filter (\<lambda>e. e \<noteq> []) elems in if es = [] then [] else Clean (Join es ''/''))"

definition Dir :: "string \<Rightarrow> string" where
  "Dir p = Clean (rev (dropWhile (\<lambda>c. c \<noteq> CHR ''/'') (rev p)))"

lemmas path_defs [mco_eval] = IsAbs_def clean_step_def Clean_def path_join_def Dir_def

section \<open>The calls\<close>

record 's host =
  ReadFile :: "'s \<Rightarrow> string \<Rightarrow> string result \<times> 's"
  StatFile :: "'s \<Rightarrow> string \<Rightarrow> go_error option \<times> 's"
  Remove :: "'s \<Rightarrow> string \<Rightarrow> go_error option \<times> 's"
  MkdirAll :: "'s \<Rightarrow> string \<Rightarrow> int \<Rightarrow> go_error option \<times> 's"
  WriteFile :: "'s \<Rightarrow> string \<Rightarrow> string \<Rightarrow> int \<Rightarrow> go_error option \<times> 's"
  Rename :: "'s \<Rightarrow> string \<Rightarrow> string \<Rightarrow> go_error option \<times> 's"
  Chown :: "'s \<Rightarrow> string \<Rightarrow> int \<Rightarrow> int \<Rightarrow> go_error option \<times> 's"
  LookupUser :: "'s \<Rightarrow> string \<Rightarrow> string result \<times> 's"
  LookupGroup :: "'s \<Rightarrow> string \<Rightarrow> string result \<times> 's"
  TempFile :: "'s \<Rightarrow> string \<Rightarrow> string \<Rightarrow> nat result \<times> 's"
  TempWrite :: "'s \<Rightarrow> nat \<Rightarrow> string \<Rightarrow> go_error option \<times> 's"
  TempChmod :: "'s \<Rightarrow> nat \<Rightarrow> int \<Rightarrow> go_error option \<times> 's"
  CloseAtomicallyReplace :: "'s \<Rightarrow> nat \<Rightarrow> go_error option \<times> 's"
  TempCleanup :: "'s \<Rightarrow> nat \<Rightarrow> go_error option \<times> 's"
  Now :: "'s \<Rightarrow> time \<times> 's"

record hfile =
  hf_content :: string
  hf_mode :: int
  hf_uid :: int
  hf_gid :: int

record temp_file =
  tf_path :: string
  tf_content :: string
  tf_mode :: int

text \<open>
  What \<open>os.File.Chmod\<close> passes to the kernel: of an \<open>os.FileMode\<close> the nine permission bits, and
  the special bits of the kernel for Go's own bits 23, 22 and 20 (setuid, setgid, sticky).
\<close>

definition syscallMode :: "int \<Rightarrow> int" where
  "syscallMode m = m mod 512 + (if odd (m div 2 ^ 23) then 2048 else 0)
     + (if odd (m div 2 ^ 22) then 1024 else 0) + (if odd (m div 2 ^ 20) then 512 else 0)"

lemma syscallMode_small: "0 \<le> m \<Longrightarrow> m < 2 ^ 20 \<Longrightarrow> syscallMode m = m mod 512"
  by (simp add: syscallMode_def)

text \<open>
  \<open>files\<close> are the regular files of the host by path, without the temporary files of
  \<open>renameio\<close>, which are \<open>temps\<close>; no path of it is reached through a symbolic link. Every call
  may fail, and a call that fails leaves the files as they were, except that \<open>os.WriteFile\<close>
  may leave its own file half written.
\<close>

locale host_fs =
  fixes h :: "'s host" and files :: "'s \<Rightarrow> string \<rightharpoonup> hfile" and temps :: "'s \<Rightarrow> nat \<rightharpoonup> temp_file"
  assumes read_frame: "ReadFile h s p = (d, s') \<Longrightarrow> files s' = files s"
    and read_ok: "ReadFile h s p = (Inr d0, s') \<Longrightarrow> \<exists>f. files s p = Some f \<and> hf_content f = d0"
    and stat_frame: "StatFile h s p = (e, s') \<Longrightarrow> files s' = files s"
    and stat_missing: "StatFile h s p = (Some err, s') \<Longrightarrow> IsNotExist err \<Longrightarrow> files s p = None"
    and remove_ok: "Remove h s p = (None, s') \<Longrightarrow> files s' = (files s)(p := None)"
    and remove_failed: "Remove h s p = (Some err, s') \<Longrightarrow> files s' = files s"
    and remove_missing: "Remove h s p = (Some err, s') \<Longrightarrow> IsNotExist err \<Longrightarrow> files s p = None"
    and mkdir_frame: "MkdirAll h s p m = (e, s') \<Longrightarrow> files s' = files s"
    and write_frame: "WriteFile h s p d0 m = (e, s') \<Longrightarrow> q \<noteq> p \<Longrightarrow> files s' q = files s q"
    and write_ok: "WriteFile h s p d0 m = (None, s') \<Longrightarrow> \<exists>f. files s' p = Some f \<and> hf_content f = d0"
    and rename_ok: "Rename h s p q = (None, s') \<Longrightarrow> files s' = (files s)(p := None, q := files s p)"
    and rename_failed: "Rename h s p q = (Some err, s') \<Longrightarrow> files s' = files s"
    and chown_ok: "Chown h s p u g = (None, s') \<Longrightarrow>
         files s' = (files s)(p := map_option (\<lambda>f. f\<lparr>hf_uid := u, hf_gid := g\<rparr>) (files s p))"
    and chown_failed: "Chown h s p u g = (Some err, s') \<Longrightarrow> files s' = files s"
    and user_frame: "LookupUser h s n = (r, s') \<Longrightarrow> files s' = files s"
    and group_frame: "LookupGroup h s n = (r, s') \<Longrightarrow> files s' = files s"
    and temp_frame: "TempFile h s dir p = (t, s') \<Longrightarrow> files s' = files s"
    and temp_ok: "TempFile h s dir p = (Inr i, s') \<Longrightarrow>
         \<exists>f. temps s' i = Some f \<and> tf_path f = p \<and> tf_content f = []"
    and twrite_frame: "TempWrite h s i d0 = (e, s') \<Longrightarrow> files s' = files s"
    and twrite_ok: "TempWrite h s i d0 = (None, s') \<Longrightarrow>
         temps s' i = map_option (\<lambda>f. f\<lparr>tf_content := tf_content f @ d0\<rparr>) (temps s i)"
    and tchmod_frame: "TempChmod h s i m = (e, s') \<Longrightarrow> files s' = files s"
    and tchmod_ok: "TempChmod h s i m = (None, s') \<Longrightarrow>
         temps s' i = map_option (\<lambda>f. f\<lparr>tf_mode := syscallMode m\<rparr>) (temps s i)"
    and replace_failed: "CloseAtomicallyReplace h s i = (Some err, s') \<Longrightarrow> files s' = files s"
    and replace_ok: "CloseAtomicallyReplace h s i = (None, s') \<Longrightarrow> temps s i = Some f \<Longrightarrow>
         \<exists>u g. files s' = (files s)(tf_path f \<mapsto>
           \<lparr>hf_content = tf_content f, hf_mode = tf_mode f, hf_uid = u, hf_gid = g\<rparr>)"
    and cleanup_frame: "TempCleanup h s i = (e, s') \<Longrightarrow> files s' = files s"
    and now_frame: "Now h s = (now, s') \<Longrightarrow> files s' = files s"
begin

lemmas frames =
  read_frame stat_frame remove_failed mkdir_frame rename_failed chown_failed user_frame group_frame
  temp_frame twrite_frame tchmod_frame replace_failed cleanup_frame now_frame

end

text \<open>
  A host whose calls do not fail for reasons outside the file system: a regular file can be
  read, and a path that \<open>os.Remove\<close> has removed, or has found missing, is missing for the next
  \<open>os.Stat\<close> and \<open>os.Remove\<close>. Nothing is said of paths that are directories.
\<close>

definition removed :: "go_error option \<Rightarrow> bool" where
  "removed e = (case e of None \<Rightarrow> True | Some err \<Rightarrow> IsNotExist err)"

locale readable_fs = host_fs +
  assumes read_total: "files s p = Some f \<Longrightarrow> \<exists>s'. ReadFile h s p = (Inr (hf_content f), s')"
    and stat_removed: "Remove h s p = (e, s') \<Longrightarrow> removed e \<Longrightarrow>
      \<exists>err s''. StatFile h s' p = (Some err, s'') \<and> IsNotExist err"
    and remove_removed: "Remove h s p = (e, s') \<Longrightarrow> removed e \<Longrightarrow>
      \<exists>err s''. Remove h s' p = (Some err, s'') \<and> IsNotExist err"

text \<open>A part of the state that no call of the host touches.\<close>

definition host_keeps :: "'s host \<Rightarrow> ('s \<Rightarrow> 'v) \<Rightarrow> bool" where
  "host_keeps h v \<longleftrightarrow>
     (\<forall>s p. v (snd (ReadFile h s p)) = v s) \<and> (\<forall>s p. v (snd (StatFile h s p)) = v s) \<and>
     (\<forall>s p. v (snd (Remove h s p)) = v s) \<and> (\<forall>s p m. v (snd (MkdirAll h s p m)) = v s) \<and>
     (\<forall>s p d m. v (snd (WriteFile h s p d m)) = v s) \<and> (\<forall>s p q. v (snd (Rename h s p q)) = v s) \<and>
     (\<forall>s p u g. v (snd (Chown h s p u g)) = v s) \<and>
     (\<forall>s n. v (snd (LookupUser h s n)) = v s) \<and> (\<forall>s n. v (snd (LookupGroup h s n)) = v s) \<and>
     (\<forall>s d p. v (snd (TempFile h s d p)) = v s) \<and> (\<forall>s i d. v (snd (TempWrite h s i d)) = v s) \<and>
     (\<forall>s i m. v (snd (TempChmod h s i m)) = v s) \<and>
     (\<forall>s i. v (snd (CloseAtomicallyReplace h s i)) = v s) \<and>
     (\<forall>s i. v (snd (TempCleanup h s i)) = v s) \<and> (\<forall>s. v (snd (Now h s)) = v s)"

lemma host_keepsD [dest]:
  assumes "host_keeps h v"
  shows "ReadFile h s p = (r1, s') \<Longrightarrow> v s' = v s" "StatFile h s p = (e, s') \<Longrightarrow> v s' = v s"
    "Remove h s p = (e, s') \<Longrightarrow> v s' = v s" "MkdirAll h s p m = (e, s') \<Longrightarrow> v s' = v s"
    "WriteFile h s p d m = (e, s') \<Longrightarrow> v s' = v s" "Rename h s p q = (e, s') \<Longrightarrow> v s' = v s"
    "Chown h s p u g = (e, s') \<Longrightarrow> v s' = v s"
    "LookupUser h s n = (r1, s') \<Longrightarrow> v s' = v s" "LookupGroup h s n = (r1, s') \<Longrightarrow> v s' = v s"
    "TempFile h s dir p = (r2, s') \<Longrightarrow> v s' = v s" "TempWrite h s i d = (e, s') \<Longrightarrow> v s' = v s"
    "TempChmod h s i m = (e, s') \<Longrightarrow> v s' = v s" "CloseAtomicallyReplace h s i = (e, s') \<Longrightarrow> v s' = v s"
    "TempCleanup h s i = (e, s') \<Longrightarrow> v s' = v s" "Now h s = (t, s') \<Longrightarrow> v s' = v s"
  using assms unfolding host_keeps_def by (metis snd_conv)+

section \<open>A host in memory\<close>

record disk =
  dk_files :: "string \<rightharpoonup> hfile"
  dk_temps :: "nat \<rightharpoonup> temp_file"
  dk_next :: nat
  dk_users :: "string \<rightharpoonup> string"
  dk_groups :: "string \<rightharpoonup> string"
  dk_now :: time

definition missing :: "string \<Rightarrow> go_error" where
  "missing p = NotExist (p @ '': no such file or directory'')"

definition no_entry :: "string \<Rightarrow> go_error" where
  "no_entry n = Err (''unknown name '' @ n)"

text \<open>The disk sits in a state that \<open>get\<close> reads and \<open>put\<close> replaces.\<close>

definition disk_host :: "('s \<Rightarrow> disk) \<Rightarrow> (disk \<Rightarrow> 's \<Rightarrow> 's) \<Rightarrow> 's host" where
  "disk_host get put =
     \<lparr>ReadFile = (\<lambda>s p. (case dk_files (get s) p of None \<Rightarrow> Inl (missing p) | Some f \<Rightarrow> Inr (hf_content f), s)),
      StatFile = (\<lambda>s p. (case dk_files (get s) p of None \<Rightarrow> Some (missing p) | Some f \<Rightarrow> None, s)),
      Remove = (\<lambda>s p. case dk_files (get s) p of
          None \<Rightarrow> (Some (missing p), s)
        | Some f \<Rightarrow> (None, put ((get s)\<lparr>dk_files := (dk_files (get s))(p := None)\<rparr>) s)),
      MkdirAll = (\<lambda>s p m. (None, s)),
      WriteFile = (\<lambda>s p d m. (None, put ((get s)\<lparr>dk_files := (dk_files (get s))(p \<mapsto>
          \<lparr>hf_content = d, hf_mode = m, hf_uid = 0, hf_gid = 0\<rparr>)\<rparr>) s)),
      Rename = (\<lambda>s p q. if dk_files (get s) p = None then (Some (missing p), s)
          else (None, put ((get s)\<lparr>dk_files := (dk_files (get s))(p := None, q := dk_files (get s) p)\<rparr>) s)),
      Chown = (\<lambda>s p u g. if dk_files (get s) p = None then (Some (missing p), s)
          else (None, put ((get s)\<lparr>dk_files := (dk_files (get s))(p :=
            map_option (\<lambda>f. f\<lparr>hf_uid := u, hf_gid := g\<rparr>) (dk_files (get s) p))\<rparr>) s)),
      LookupUser = (\<lambda>s n. (case dk_users (get s) n of None \<Rightarrow> Inl (no_entry n) | Some u \<Rightarrow> Inr u, s)),
      LookupGroup = (\<lambda>s n. (case dk_groups (get s) n of None \<Rightarrow> Inl (no_entry n) | Some g \<Rightarrow> Inr g, s)),
      TempFile = (\<lambda>s dir p. (Inr (dk_next (get s)), put ((get s)\<lparr>
          dk_temps := (dk_temps (get s))(dk_next (get s) \<mapsto> \<lparr>tf_path = p, tf_content = [], tf_mode = 384\<rparr>),
          dk_next := dk_next (get s) + 1\<rparr>) s)),
      TempWrite = (\<lambda>s i d. (None, put ((get s)\<lparr>dk_temps := (dk_temps (get s))(i :=
          map_option (\<lambda>f. f\<lparr>tf_content := tf_content f @ d\<rparr>) (dk_temps (get s) i))\<rparr>) s)),
      TempChmod = (\<lambda>s i m. (None, put ((get s)\<lparr>dk_temps := (dk_temps (get s))(i :=
          map_option (\<lambda>f. f\<lparr>tf_mode := syscallMode m\<rparr>) (dk_temps (get s) i))\<rparr>) s)),
      CloseAtomicallyReplace = (\<lambda>s i. case dk_temps (get s) i of
          None \<Rightarrow> (Some (missing []), s)
        | Some f \<Rightarrow> (None, put ((get s)\<lparr>
            dk_files := (dk_files (get s))(tf_path f \<mapsto>
              \<lparr>hf_content = tf_content f, hf_mode = tf_mode f, hf_uid = 0, hf_gid = 0\<rparr>),
            dk_temps := (dk_temps (get s))(i := None)\<rparr>) s)),
      TempCleanup = (\<lambda>s i. (None, put ((get s)\<lparr>dk_temps := (dk_temps (get s))(i := None)\<rparr>) s)),
      Now = (\<lambda>s. (dk_now (get s), s))\<rparr>"

lemma disk_readable:
  assumes "\<And>d s. get (put d s) = d"
  shows "readable_fs (disk_host get put) (\<lambda>s. dk_files (get s)) (\<lambda>s. dk_temps (get s))"
  by unfold_locales
    (auto simp: disk_host_def assms missing_def removed_def split: option.splits if_splits, blast)

lemma disk_keeps:
  assumes "\<And>d s. v (put d s) = v s"
  shows "host_keeps (disk_host get put) v"
  by (simp add: host_keeps_def disk_host_def assms split: option.split)

interpretation disk: readable_fs "disk_host (\<lambda>d. d) (\<lambda>d _. d)" dk_files dk_temps
  using disk_readable [of "\<lambda>d. d" "\<lambda>d _. d"] by simp

end
