(* ===== verification/Agent_Files.thy ===== *)
theory Agent_Files
  imports MCO_Types Host_FS
begin

text \<open>
  The agent's file applier, \<open>internal/agent/files.go\<close>: the state of one file, written
  atomically through a temporary file, deleted, or left alone when its content is already
  there. The host's calls are the parameter \<open>h\<close> of every operation.
\<close>

section \<open>files.go\<close>

definition FileStatePresent :: string where "FileStatePresent = ''present''"
definition FileStateAbsent :: string where "FileStateAbsent = ''absent''"

record FileApplyResult =
  fr_Path :: string
  fr_Applied :: bool
  fr_Error :: "go_error option"

record FileApplier =
  fa_hostRoot :: string
  fa_skipOwnership :: bool

definition NewFileApplier :: "string \<Rightarrow> FileApplier" where
  "NewFileApplier hostRoot = \<lparr>fa_hostRoot = hostRoot, fa_skipOwnership = False\<rparr>"

definition NewFileApplierWithOptions :: "string \<Rightarrow> bool \<Rightarrow> FileApplier" where
  "NewFileApplierWithOptions hostRoot skipOwnership =
     \<lparr>fa_hostRoot = hostRoot, fa_skipOwnership = skipOwnership\<rparr>"

definition deleteFile :: "'s host \<Rightarrow> string \<Rightarrow> 's \<Rightarrow> (bool \<times> go_error option) \<times> 's" where
  "deleteFile h path s =
     (case Remove h s path of
        (None, s1) \<Rightarrow> ((True, None), s1)
      | (Some err, s1) \<Rightarrow>
          if IsNotExist err then ((False, None), s1)
          else ((False, Some (Wrap ''delete file'' err)), s1))"

definition needsUpdate :: "'s host \<Rightarrow> string \<Rightarrow> string \<Rightarrow> 's \<Rightarrow> bool \<times> 's" where
  "needsUpdate h path content s =
     (case ReadFile h s path of
        (Inl err, s1) \<Rightarrow> (True, s1)
      | (Inr existing, s1) \<Rightarrow> (existing \<noteq> content, s1))"

definition atoi_result :: "string \<Rightarrow> int result" where
  "atoi_result t =
     (case Atoi t of Some i \<Rightarrow> Inr i | None \<Rightarrow> Inl (Err (''strconv.Atoi: parsing '' @ t)))"

definition lookupUID :: "'s host \<Rightarrow> string \<Rightarrow> 's \<Rightarrow> int result \<times> 's" where
  "lookupUID h t s =
     (case Atoi t of
        Some uid \<Rightarrow> (Inr uid, s)
      | None \<Rightarrow>
          (case LookupUser h s t of
             (Inl err, s1) \<Rightarrow> (if t = ''root'' then Inr 0 else Inl err, s1)
           | (Inr u, s1) \<Rightarrow> (atoi_result u, s1)))"

definition lookupGID :: "'s host \<Rightarrow> string \<Rightarrow> 's \<Rightarrow> int result \<times> 's" where
  "lookupGID h t s =
     (case Atoi t of
        Some gid \<Rightarrow> (Inr gid, s)
      | None \<Rightarrow>
          (case LookupGroup h s t of
             (Inl err, s1) \<Rightarrow> (if t = ''root'' then Inr 0 else Inl err, s1)
           | (Inr g, s1) \<Rightarrow> (atoi_result g, s1)))"

definition setOwnership :: "'s host \<Rightarrow> string \<Rightarrow> string \<Rightarrow> 's \<Rightarrow> go_error option \<times> 's" where
  "setOwnership h path owner0 s =
     (let owner = (if owner0 = [] then ''root:root'' else owner0);
          parts = Split owner (CHR '':'')
      in if length parts \<noteq> 2 then
           (Some (Err (''invalid owner format (expected user:group): '' @ owner)), s)
         else case lookupUID h (parts ! 0) s of
           (Inl err, s1) \<Rightarrow> (Some (Wrap (''lookup user '' @ parts ! 0) err), s1)
         | (Inr uid, s1) \<Rightarrow>
             (case lookupGID h (parts ! 1) s1 of
                (Inl err, s2) \<Rightarrow> (Some (Wrap (''lookup group '' @ parts ! 1) err), s2)
              | (Inr gid, s2) \<Rightarrow> Chown h s2 path uid gid))"

text \<open>\<open>os.FileMode\<close> has 32 bits; a zero mode means \<open>0644\<close>.\<close>

definition file_mode :: "FileSpec \<Rightarrow> int" where
  "file_mode f = (let mode = file_Mode f mod 2 ^ 32 in if mode = 0 then 420 else mode)"

text \<open>The part of \<open>writeFile\<close> between the creation of the temporary file and its clean-up.\<close>

definition write_temp ::
  "FileApplier \<Rightarrow> 's host \<Rightarrow> string \<Rightarrow> FileSpec \<Rightarrow> nat \<Rightarrow> 's \<Rightarrow> (bool \<times> go_error option) \<times> 's" where
  "write_temp a h path f t s =
     (case TempWrite h s t (file_Content f) of
        (Some err, s1) \<Rightarrow> ((False, Some (Wrap ''write content'' err)), s1)
      | (None, s1) \<Rightarrow>
     (case TempChmod h s1 t (file_mode f) of
        (Some err, s2) \<Rightarrow> ((False, Some (Wrap ''set mode'' err)), s2)
      | (None, s2) \<Rightarrow>
     (case CloseAtomicallyReplace h s2 t of
        (Some err, s3) \<Rightarrow> ((False, Some (Wrap ''atomic replace'' err)), s3)
      | (None, s3) \<Rightarrow>
          if \<not> fa_skipOwnership a then
            (case setOwnership h path (file_Owner f) s3 of
               (Some err, s4) \<Rightarrow> ((True, Some (Wrap ''set ownership'' err)), s4)
             | (None, s4) \<Rightarrow> ((True, None), s4))
          else ((True, None), s3))))"

definition writeFile ::
  "FileApplier \<Rightarrow> 's host \<Rightarrow> string \<Rightarrow> FileSpec \<Rightarrow> 's \<Rightarrow> (bool \<times> go_error option) \<times> 's" where
  "writeFile a h path f s =
     (case needsUpdate h path (file_Content f) s of
        (False, s1) \<Rightarrow> ((False, None), s1)
      | (True, s1) \<Rightarrow>
          let dir = Dir path in
          (case MkdirAll h s1 dir 493 of
             (Some err, s2) \<Rightarrow> ((False, Some (Wrap (''create directory '' @ dir) err)), s2)
           | (None, s2) \<Rightarrow>
               (case TempFile h s2 dir path of
                  (Inl err, s3) \<Rightarrow> ((False, Some (Wrap ''create temp file'' err)), s3)
                | (Inr t, s3) \<Rightarrow>
                    (case write_temp a h path f t s3 of
                       (r, s4) \<Rightarrow> (r, snd (TempCleanup h s4 t))))))"

definition apply_state :: "FileSpec \<Rightarrow> string" where
  "apply_state f = (if file_State f = [] then FileStatePresent else file_State f)"

definition ApplyFile :: "FileApplier \<Rightarrow> 's host \<Rightarrow> FileSpec \<Rightarrow> 's \<Rightarrow> FileApplyResult \<times> 's" where
  "ApplyFile a h f s =
     (if \<not> IsAbs (file_Path f) then
        (\<lparr>fr_Path = file_Path f, fr_Applied = False,
          fr_Error = Some (Err (''path must be absolute: '' @ file_Path f))\<rparr>, s)
      else
        let path = path_join [fa_hostRoot a, file_Path f]; state = apply_state f in
        if state = FileStateAbsent then
          (case deleteFile h path s of
             ((applied, err), s1) \<Rightarrow>
               (\<lparr>fr_Path = file_Path f, fr_Applied = applied, fr_Error = err\<rparr>, s1))
        else if state = FileStatePresent then
          (case writeFile a h path f s of
             ((applied, err), s1) \<Rightarrow>
               (\<lparr>fr_Path = file_Path f, fr_Applied = applied, fr_Error = err\<rparr>, s1))
        else (\<lparr>fr_Path = file_Path f, fr_Applied = False,
               fr_Error = Some (Err (''unknown state: '' @ state))\<rparr>, s))"

fun ApplyAllFiles_from ::
  "FileApplier \<Rightarrow> 's host \<Rightarrow> FileApplyResult list \<Rightarrow> FileSpec list \<Rightarrow> 's \<Rightarrow>
     (FileApplyResult list \<times> go_error option) \<times> 's" where
  "ApplyAllFiles_from a h results [] s = ((results, None), s)"
| "ApplyAllFiles_from a h results (f # fs) s =
     (case ApplyFile a h f s of
        (result, s1) \<Rightarrow>
          (case fr_Error result of
             Some err \<Rightarrow> ((results @ [result], Some (Wrap (''file '' @ file_Path f) err)), s1)
           | None \<Rightarrow> ApplyAllFiles_from a h (results @ [result]) fs s1))"

definition ApplyAllFiles ::
  "FileApplier \<Rightarrow> 's host \<Rightarrow> FileSpec list \<Rightarrow> 's \<Rightarrow> (FileApplyResult list \<times> go_error option) \<times> 's" where
  "ApplyAllFiles a h fs s = ApplyAllFiles_from a h [] fs s"

definition NeedsUpdateFile :: "FileApplier \<Rightarrow> 's host \<Rightarrow> FileSpec \<Rightarrow> 's \<Rightarrow> bool result \<times> 's" where
  "NeedsUpdateFile a h f s =
     (if \<not> IsAbs (file_Path f) then
        (Inl (Err (''path must be absolute: '' @ file_Path f)), s)
      else
        let path = path_join [fa_hostRoot a, file_Path f]; state = apply_state f in
        if state = ''absent'' then
          (case StatFile h s path of
             (None, s1) \<Rightarrow> (Inr True, s1)
           | (Some err, s1) \<Rightarrow> (if IsNotExist err then Inr False else Inl err, s1))
        else if state = ''present'' then
          (case needsUpdate h path (file_Content f) s of (b, s1) \<Rightarrow> (Inr b, s1))
        else (Inl (Err (''unknown state: '' @ state)), s))"

lemmas files_defs [mco_eval] =
  FileStatePresent_def FileStateAbsent_def NewFileApplier_def NewFileApplierWithOptions_def
  deleteFile_def needsUpdate_def atoi_result_def lookupUID_def lookupGID_def setOwnership_def
  file_mode_def write_temp_def writeFile_def apply_state_def ApplyFile_def ApplyAllFiles_def
  NeedsUpdateFile_def

abbreviation host_path :: "FileApplier \<Rightarrow> FileSpec \<Rightarrow> string" where
  "host_path a f \<equiv> path_join [fa_hostRoot a, file_Path f]"

section \<open>What applying a file does\<close>

text \<open>A numeric owner of the specification, unless ownership is skipped, is the file's owner.\<close>

definition owned_as :: "FileApplier \<Rightarrow> FileSpec \<Rightarrow> hfile \<Rightarrow> bool" where
  "owned_as a f g \<longleftrightarrow>
     (\<forall>x y u w. \<not> fa_skipOwnership a \<and> Split (file_Owner f) (CHR '':'') = [x, y] \<and>
        Atoi x = Some u \<and> Atoi y = Some w \<longrightarrow> hf_uid g = u \<and> hf_gid g = w)"

text \<open>The file that \<open>writeFile\<close> puts in place: content and permission bits, not yet its owner.\<close>

definition written_as :: "FileSpec \<Rightarrow> hfile \<Rightarrow> bool" where
  "written_as f g \<longleftrightarrow> hf_content g = file_Content f \<and> hf_mode g = syscallMode (file_mode f)"

lemma written_as_owner [simp]: "written_as f (g\<lparr>hf_uid := u, hf_gid := w\<rparr>) = written_as f g"
  by (simp add: written_as_def)

context host_fs
begin

lemma needsUpdate_frame: "needsUpdate h p c s = (b, s') \<Longrightarrow> files s' = files s"
  by (auto simp: needsUpdate_def dest: read_frame split: prod.splits sum.splits)

lemma needsUpdate_False:
  "needsUpdate h p c s = (False, s') \<Longrightarrow> \<exists>g. files s p = Some g \<and> hf_content g = c"
  by (auto simp: needsUpdate_def dest: read_ok split: prod.splits sum.splits)

lemma lookup_frames:
  "lookupUID h t s = (r, s') \<Longrightarrow> files s' = files s"
  "lookupGID h t s = (r, s') \<Longrightarrow> files s' = files s"
  by (auto simp: lookupUID_def lookupGID_def dest: user_frame group_frame
      split: prod.splits sum.splits option.splits)

lemma setOwnership_effect:
  assumes "setOwnership h p o1 s = (e, s')"
  shows "\<exists>u g. files s' = (if e = None
    then (files s)(p := map_option (\<lambda>f. f\<lparr>hf_uid := u, hf_gid := g\<rparr>) (files s p)) else files s)"
proof -
  consider (chown) s2 u g where "files s2 = files s" "Chown h s2 p u g = (e, s')"
    | (early) "e \<noteq> None" "files s' = files s"
    using assms
    by (auto simp: setOwnership_def Let_def split: if_splits prod.splits sum.splits
        dest: lookup_frames)
      (metis lookup_frames)+
  then show ?thesis
  proof cases
    case chown
    then show ?thesis
      using chown_ok [of s2 p u g s'] chown_failed [of s2 p u g _ s'] by (cases e) auto
  qed auto
qed

lemma setOwnership_numeric:
  assumes "setOwnership h p o1 s = (None, s')" and "Split o1 (CHR '':'') = [x, y]"
    and "Atoi x = Some u" and "Atoi y = Some g"
  shows "files s' = (files s)(p := map_option (\<lambda>f. f\<lparr>hf_uid := u, hf_gid := g\<rparr>) (files s p))"
proof -
  have "o1 \<noteq> []" using assms(2) by auto
  then have "Chown h s p u g = (None, s')"
    using assms by (simp add: setOwnership_def Let_def lookupUID_def lookupGID_def)
  then show ?thesis by (rule chown_ok)
qed

lemma write_temp_effect:
  assumes "temps s t = Some tf" "tf_path tf = path" "tf_content tf = []"
    and "write_temp a h path f t s = ((applied, e), s')"
  shows "if applied
    then \<exists>g. files s' = (files s)(path \<mapsto> g) \<and> written_as f g \<and> (e = None \<longrightarrow> owned_as a f g)
    else files s' = files s \<and> e \<noteq> None"
proof -
  obtain e1 s1 where w: "TempWrite h s t (file_Content f) = (e1, s1)" by fastforce
  obtain e2 s2 where m: "TempChmod h s1 t (file_mode f) = (e2, s2)" by fastforce
  obtain e3 s3 where r: "CloseAtomicallyReplace h s2 t = (e3, s3)" by fastforce
  note fr = twrite_frame [OF w] tchmod_frame [OF m]
  show ?thesis
  proof (cases "e1 = None \<and> e2 = None \<and> e3 = None")
    case True
    then have "temps s2 t = Some (tf\<lparr>tf_content := file_Content f, tf_mode := syscallMode (file_mode f)\<rparr>)"
      using w m assms(1,3) twrite_ok tchmod_ok by (simp add: assms(3))
    then obtain u g where rep: "files s3 = (files s)(path \<mapsto>
        \<lparr>hf_content = file_Content f, hf_mode = syscallMode (file_mode f), hf_uid = u, hf_gid = g\<rparr>)"
      using replace_ok [of s2 t s3] r True fr assms(2) by auto
    show ?thesis
    proof (cases "fa_skipOwnership a")
      case skip: True
      then have "applied" "s' = s3" using assms(4) w m r True by (auto simp: write_temp_def)
      then show ?thesis using rep skip by (auto simp: written_as_def owned_as_def)
    next
      case False
      obtain e4 s4 where o: "setOwnership h path (file_Owner f) s3 = (e4, s4)" by fastforce
      have st: "applied" "s' = s4" "e = None \<longleftrightarrow> e4 = None"
        using assms(4) w m r True o False by (auto simp: write_temp_def split: option.splits)
      obtain g1 where g1: "files s4 = (files s)(path \<mapsto> g1)" "written_as f g1"
        using setOwnership_effect [OF o] rep by (auto simp: written_as_def split: if_splits)
      have "owned_as a f g1" if "e4 = None"
        using setOwnership_numeric [OF o [unfolded that]] g1(1) rep
        by (fastforce simp: owned_as_def dest: fun_cong [where x = path])
      then show ?thesis using st g1 by auto
    qed
  next
    case False
    then have "\<not> applied \<and> e \<noteq> None \<and> files s' = files s"
      using assms(4) w m r fr replace_failed [of s2 t _ s3]
      by (auto simp: write_temp_def split: option.splits)
    then show ?thesis by simp
  qed
qed

lemma writeFile_effect:
  assumes "writeFile a h path f s = ((applied, e), s')"
  shows "if applied
    then \<exists>g. files s' = (files s)(path \<mapsto> g) \<and> written_as f g \<and> (e = None \<longrightarrow> owned_as a f g)
    else files s' = files s \<and> (e = None \<longrightarrow> (\<exists>g. files s path = Some g \<and> hf_content g = file_Content f))"
proof -
  obtain b s1 where n: "needsUpdate h path (file_Content f) s = (b, s1)" by fastforce
  note n1 = needsUpdate_frame [OF n]
  show ?thesis
  proof (cases b)
    case False
    then have "\<not> applied" "s' = s1" using assms n by (auto simp: writeFile_def)
    then show ?thesis using n1 needsUpdate_False n False by auto
  next
    case True
    obtain e2 s2 where m: "MkdirAll h s1 (Dir path) 493 = (e2, s2)" by fastforce
    obtain r3 s3 where t: "TempFile h s2 (Dir path) path = (r3, s3)" by fastforce
    note fr = n1 mkdir_frame [OF m] temp_frame [OF t]
    show ?thesis
    proof (cases "e2 = None \<and> (\<exists>i. r3 = Inr i)")
      case False
      then have "\<not> applied \<and> e \<noteq> None \<and> files s' = files s"
        using assms n m t True fr by (auto simp: writeFile_def Let_def split: option.splits sum.splits)
      then show ?thesis by auto
    next
      case ok: True
      then obtain i where i: "r3 = Inr i" by blast
      obtain r4 s4 where w: "write_temp a h path f i s3 = (r4, s4)" by fastforce
      have "r4 = (applied, e)" "s' = snd (TempCleanup h s4 i)"
        using assms n m t True ok i w by (auto simp: writeFile_def Let_def)
      moreover have "files (snd (TempCleanup h s4 i)) = files s4"
        using cleanup_frame by (metis prod.collapse)
      moreover obtain tf where "temps s3 i = Some tf" "tf_path tf = path" "tf_content tf = []"
        using temp_ok t i by blast
      ultimately show ?thesis
        using write_temp_effect [of s3 i tf path a f applied e s4] w fr by (auto split: if_splits)
    qed
  qed
qed

lemma deleteFile_effect:
  assumes "deleteFile h path s = ((applied, e), s')"
  shows "if applied then files s' = (files s)(path := None) \<and> e = None
    else files s' = files s \<and> (e = None \<longrightarrow> files s path = None)"
  using assms remove_ok [of s path] remove_failed [of s path] remove_missing [of s path]
  by (fastforce simp: deleteFile_def split: prod.splits option.splits if_splits)

end

text \<open>The host satisfies the specification of one file.\<close>

definition file_holds :: "(string \<rightharpoonup> hfile) \<Rightarrow> FileApplier \<Rightarrow> FileSpec \<Rightarrow> bool" where
  "file_holds fs a f \<longleftrightarrow>
     (if apply_state f = FileStateAbsent then fs (host_path a f) = None
      else \<exists>g. fs (host_path a f) = Some g \<and> hf_content g = file_Content f)"

lemma FileStates_differ: "FileStatePresent \<noteq> FileStateAbsent"
  by (simp add: FileStatePresent_def FileStateAbsent_def)

lemma ApplyFile_effect:
  assumes "host_fs h files temps" and "ApplyFile a h f s = (r, s')"
  shows "(q \<noteq> host_path a f \<longrightarrow> files s' q = files s q) \<and>
    (files s' (host_path a f) = files s (host_path a f) \<or>
      (apply_state f = FileStateAbsent \<and> files s' (host_path a f) = None) \<or>
      (apply_state f = FileStatePresent \<and> (\<exists>g. files s' (host_path a f) = Some g \<and> written_as f g))) \<and>
    (fr_Error r = None \<longrightarrow> file_holds (files s') a f) \<and> (\<not> fr_Applied r \<longrightarrow> files s' = files s) \<and>
    (fr_Applied r \<and> fr_Error r = None \<and> apply_state f = FileStatePresent \<longrightarrow>
      (\<exists>g. files s' (host_path a f) = Some g \<and> written_as f g \<and> owned_as a f g))"
proof -
  consider (bad) "fr_Error r \<noteq> None" "\<not> fr_Applied r" "s' = s"
    | (absent) "apply_state f = FileStateAbsent"
        "deleteFile h (host_path a f) s = ((fr_Applied r, fr_Error r), s')"
    | (present) "apply_state f = FileStatePresent"
        "writeFile a h (host_path a f) f s = ((fr_Applied r, fr_Error r), s')"
    using assms(2) by (auto simp: ApplyFile_def Let_def split: if_splits prod.splits)
  then show ?thesis
  proof cases
    case absent
    then show ?thesis
      using host_fs.deleteFile_effect [OF assms(1) absent(2)] FileStates_differ
      by (auto simp: file_holds_def split: if_splits)
  next
    case present
    then show ?thesis
      using host_fs.writeFile_effect [OF assms(1) present(2)] FileStates_differ
      by (auto simp: file_holds_def written_as_def split: if_splits)
  qed auto
qed

text \<open>
  C21: Applying a file does what its specification says and nothing else. Whatever fails,
  \<open>Apply\<close> changes no regular file at another path, and at its own path the host keeps the old
  file or gets the new one with its whole content and its permission bits, never a part of
  the content. Without an error the specification holds afterwards: an absent file is gone, a
  present one has its content; a file that was written has the permission bits, and a numeric
  owner, of the specification too. When nothing was reported as applied the files are
  unchanged. The owner is set after the replacement: when that fails, the new file is in place
  and the error is returned. Of a mode above \<open>0777\<close> only the permission bits reach the host.
\<close>

theorem ApplyFile_atomic_and_correct:
  assumes "host_fs h files temps" and "ApplyFile a h f s = (r, s')"
  shows "(\<forall>q. q \<noteq> host_path a f \<longrightarrow> files s' q = files s q) \<and>
    (files s' (host_path a f) = files s (host_path a f) \<or>
      (apply_state f = FileStateAbsent \<and> files s' (host_path a f) = None) \<or>
      (apply_state f = FileStatePresent \<and> (\<exists>g. files s' (host_path a f) = Some g \<and>
         hf_content g = file_Content f \<and> hf_mode g = syscallMode (file_mode f)))) \<and>
    (fr_Error r = None \<longrightarrow> file_holds (files s') a f) \<and>
    (\<not> fr_Applied r \<longrightarrow> files s' = files s) \<and>
    (fr_Applied r \<and> fr_Error r = None \<and> apply_state f = FileStatePresent \<longrightarrow>
      (\<exists>g. files s' (host_path a f) = Some g \<and> hf_content g = file_Content f \<and>
         hf_mode g = syscallMode (file_mode f) \<and> owned_as a f g))"
  using ApplyFile_effect [OF assms] unfolding written_as_def by blast

context readable_fs
begin

lemma deleteFile_again:
  assumes "deleteFile h p s = ((applied, None), s')"
  shows "\<exists>s''. deleteFile h p s' = ((False, None), s'') \<and> files s'' = files s'"
    and "\<exists>err s''. StatFile h s' p = (Some err, s'') \<and> IsNotExist err"
proof -
  obtain e where r: "Remove h s p = (e, s')" and e: "removed e"
    using assms by (auto simp: deleteFile_def removed_def split: prod.splits option.splits if_splits)
  obtain err s'' where "Remove h s' p = (Some err, s'')" "IsNotExist err"
    using remove_removed [OF r e] by blast
  then show "\<exists>s''. deleteFile h p s' = ((False, None), s'') \<and> files s'' = files s'"
    by (auto simp: deleteFile_def dest: remove_failed)
  show "\<exists>err s''. StatFile h s' p = (Some err, s'') \<and> IsNotExist err"
    by (rule stat_removed [OF r e])
qed

lemma writeFile_again:
  assumes "files s p = Some g" and "hf_content g = file_Content f"
  shows "\<exists>s'. writeFile a h p f s = ((False, None), s') \<and> files s' = files s"
    and "fst (needsUpdate h p (file_Content f) s) = False"
  using read_total [OF assms(1)] assms(2) read_frame
  by (auto simp: writeFile_def needsUpdate_def)

end

text \<open>
  C37: Applying is a fixed point, for present and for absent files. On a host whose regular
  files can be read, and on which a path that was removed stays missing for the next call, a
  file that was applied without error needs no update: \<open>NeedsUpdate\<close> answers no, and applying
  the file again succeeds, reports nothing as applied and leaves every regular file as it is.
\<close>

theorem ApplyFile_idempotent:
  assumes "readable_fs h files temps" and "ApplyFile a h f s = (r, s')" and "fr_Error r = None"
  shows "fst (NeedsUpdateFile a h f s') = Inr False \<and>
    (\<exists>s''. ApplyFile a h f s' = (\<lparr>fr_Path = file_Path f, fr_Applied = False, fr_Error = None\<rparr>, s'') \<and>
       files s'' = files s')"
proof -
  have fs: "host_fs h files temps" using assms(1) by (rule readable_fs.axioms(1))
  have holds: "file_holds (files s') a f" using ApplyFile_effect [OF fs assms(2)] assms(3) by blast
  have abs: "IsAbs (file_Path f)"
    using assms(2,3) by (auto simp: ApplyFile_def split: if_splits)
  consider (absent) "apply_state f = FileStateAbsent"
      "deleteFile h (host_path a f) s = ((fr_Applied r, None), s')"
    | (present) "apply_state f = FileStatePresent"
    using assms(2,3) abs by (auto simp: ApplyFile_def Let_def split: if_splits prod.splits)
  then show ?thesis
  proof cases
    case absent
    then show ?thesis
      using abs readable_fs.deleteFile_again [OF assms(1) absent(2)]
      by (auto simp: NeedsUpdateFile_def ApplyFile_def Let_def FileStateAbsent_def)
  next
    case present
    then obtain g where g: "files s' (host_path a f) = Some g" "hf_content g = file_Content f"
      using holds FileStates_differ by (auto simp: file_holds_def)
    show ?thesis
      using present abs readable_fs.writeFile_again(1) [OF assms(1) g, of a]
        readable_fs.writeFile_again(2) [OF assms(1) g]
      by (cases "needsUpdate h (host_path a f) (file_Content f) s'")
        (auto simp: NeedsUpdateFile_def ApplyFile_def Let_def FileStatePresent_def FileStateAbsent_def)
  qed
qed

text \<open>
  A changed mode or owner alone is never applied. Where the host's file already has the
  content, \<open>Apply\<close> succeeds, reports nothing as applied and leaves the file with the mode and
  the owner it had, whatever the specification asks for; \<open>DiffFiles\<close> reports such a change as
  a modification.
\<close>

theorem mode_and_owner_drift_not_repaired:
  assumes "readable_fs h files temps" and "IsAbs (file_Path f)" and "apply_state f = FileStatePresent"
    and "files s (host_path a f) = Some g" and "hf_content g = file_Content f"
  shows "\<exists>s'. ApplyFile a h f s = (\<lparr>fr_Path = file_Path f, fr_Applied = False, fr_Error = None\<rparr>, s') \<and>
    files s' = files s"
proof -
  obtain s' where "ReadFile h s (host_path a f) = (Inr (file_Content f), s')"
    using readable_fs.read_total [OF assms(1,4)] assms(5) by auto
  then show ?thesis
    using assms(2,3) host_fs.read_frame [OF readable_fs.axioms(1) [OF assms(1)], of s "host_path a f"]
    by (auto simp: ApplyFile_def Let_def FileStatePresent_def FileStateAbsent_def writeFile_def needsUpdate_def)
qed

section \<open>Instances\<close>

definition ex_disk :: disk where
  "ex_disk = \<lparr>dk_files = [''/host/etc/motd'' \<mapsto> \<lparr>hf_content = ''hi'', hf_mode = 384, hf_uid = 0, hf_gid = 0\<rparr>],
     dk_temps = Map.empty, dk_next = 0, dk_users = Map.empty, dk_groups = Map.empty, dk_now = 0\<rparr>"

definition ex_file :: "string \<Rightarrow> FileSpec" where
  "ex_file content = \<lparr>file_Path = ''/etc/motd'', file_Content = content, file_Mode = 420,
     file_Owner = ''7:7'', file_State = []\<rparr>"

abbreviation ex_host :: "disk host" where "ex_host \<equiv> disk_host (\<lambda>d. d) (\<lambda>d _. d)"

abbreviation ex_applied :: "FileApplyResult \<times> disk" where
  "ex_applied \<equiv> ApplyFile (NewFileApplier ''/host'') ex_host (ex_file ''ho'') ex_disk"

lemma ex_host_path: "host_path (NewFileApplier ''/host'') (ex_file c) = ''/host/etc/motd''"
  by (simp add: ex_file_def NewFileApplier_def path_defs strings_defs)

lemma ex_applied_ok: "fr_Error (fst ex_applied) = None"
  by (simp add: ex_host_path [unfolded NewFileApplier_def] ApplyFile_def NewFileApplier_def Let_def)
    (simp add: ex_disk_def ex_file_def files_defs path_defs strings_defs disk_host_def Let_def strconv_defs)

theorem ApplyFile_atomic_and_correct_witness:
  "file_holds (dk_files (snd ex_applied)) (NewFileApplier ''/host'') (ex_file ''ho'')"
  using ApplyFile_atomic_and_correct [OF disk.host_fs_axioms, where a = "NewFileApplier ''/host''"
      and f = "ex_file ''ho''" and s = ex_disk and r = "fst ex_applied" and s' = "snd ex_applied"]
    ex_applied_ok by simp

definition ex_absent :: FileSpec where
  "ex_absent = (ex_file [])\<lparr>file_State := ''absent''\<rparr>"

abbreviation ex_deleted :: "FileApplyResult \<times> disk" where
  "ex_deleted \<equiv> ApplyFile (NewFileApplier ''/host'') ex_host ex_absent ex_disk"

lemma ex_deleted_ok: "fr_Error (fst ex_deleted) = None \<and> fr_Applied (fst ex_deleted)"
  by (simp add: ex_absent_def ex_disk_def ex_file_def files_defs path_defs strings_defs disk_host_def Let_def)

theorem ApplyFile_idempotent_witness:
  "fr_Applied (fst ex_deleted) \<and>
   fst (NeedsUpdateFile (NewFileApplier ''/host'') ex_host ex_absent (snd ex_deleted)) = Inr False \<and>
   \<not> fr_Applied (fst (ApplyFile (NewFileApplier ''/host'') ex_host ex_absent (snd ex_deleted)))"
  using ApplyFile_idempotent [OF disk.readable_fs_axioms, where a = "NewFileApplier ''/host''"
      and f = ex_absent and s = ex_disk and r = "fst ex_deleted" and s' = "snd ex_deleted"]
    ex_deleted_ok by auto

theorem mode_and_owner_drift_not_repaired_witness:
  "\<exists>d. snd (ApplyFile (NewFileApplier ''/host'') ex_host (ex_file ''hi'') ex_disk) = d \<and>
     dk_files d ''/host/etc/motd'' = Some \<lparr>hf_content = ''hi'', hf_mode = 384, hf_uid = 0, hf_gid = 0\<rparr>"
  using mode_and_owner_drift_not_repaired [OF disk.readable_fs_axioms, where f = "ex_file ''hi''"
      and s = ex_disk and a = "NewFileApplier ''/host''"
      and g = "\<lparr>hf_content = ''hi'', hf_mode = 384, hf_uid = 0, hf_gid = 0\<rparr>", unfolded ex_host_path]
  by (auto simp: ex_file_def ex_disk_def IsAbs_def strings_defs apply_state_def)

end
