(* ===== verification/Agent_Systemd.thy ===== *)
theory Agent_Systemd
  imports MCO_Types
begin

text \<open>
  The agent's systemd applier, \<open>internal/agent/systemd.go\<close>, over the interface
  \<open>SystemdConnection\<close>, a record of functions; its two implementations, the no-op connection of
  \<open>systemd_noop.go\<close> and the D-Bus connection of \<open>systemd_dbus.go\<close> over the functions of
  \<open>github.com/coreos/go-systemd\<close>. A property of a unit is an \<open>interface{}\<close>: \<open>Some\<close> string, or
  \<open>None\<close> for a value of another type.
\<close>

section \<open>systemd.go\<close>

record 's systemd_conn =
  CloseConn :: "'s \<Rightarrow> 's"
  GetUnitProperty :: "'s \<Rightarrow> string \<Rightarrow> string \<Rightarrow> string option result \<times> 's"
  MaskUnit :: "'s \<Rightarrow> string \<Rightarrow> go_error option \<times> 's"
  UnmaskUnit :: "'s \<Rightarrow> string \<Rightarrow> go_error option \<times> 's"
  EnableUnit :: "'s \<Rightarrow> string \<Rightarrow> go_error option \<times> 's"
  DisableUnit :: "'s \<Rightarrow> string \<Rightarrow> go_error option \<times> 's"
  StartUnit :: "'s \<Rightarrow> string \<Rightarrow> go_error option \<times> 's"
  StopUnit :: "'s \<Rightarrow> string \<Rightarrow> go_error option \<times> 's"
  RestartUnit :: "'s \<Rightarrow> string \<Rightarrow> go_error option \<times> 's"
  ReloadUnit :: "'s \<Rightarrow> string \<Rightarrow> go_error option \<times> 's"

record UnitApplyResult =
  ur_Name :: string
  ur_Applied :: bool
  ur_Error :: "go_error option"

definition string_property ::
  "'s systemd_conn \<Rightarrow> string \<Rightarrow> string \<Rightarrow> 's \<Rightarrow> string result \<times> 's" where
  "string_property c name prop s =
     (case GetUnitProperty c s name prop of
        (Inl err, s1) \<Rightarrow> (Inl err, s1)
      | (Inr val, s1) \<Rightarrow> (Inr (case val of Some t \<Rightarrow> t | None \<Rightarrow> []), s1))"

definition getUnitFileState :: "'s systemd_conn \<Rightarrow> string \<Rightarrow> 's \<Rightarrow> string result \<times> 's" where
  "getUnitFileState c name s = string_property c name ''UnitFileState'' s"

definition getActiveState :: "'s systemd_conn \<Rightarrow> string \<Rightarrow> 's \<Rightarrow> string result \<times> 's" where
  "getActiveState c name s = string_property c name ''ActiveState'' s"

text \<open>\<open>state, _ := ...\<close>: with an error the string is empty.\<close>

definition or_empty :: "string result \<Rightarrow> string" where
  "or_empty r = (case r of Inl err \<Rightarrow> [] | Inr t \<Rightarrow> t)"

definition applyMask :: "'s systemd_conn \<Rightarrow> string \<Rightarrow> bool \<Rightarrow> 's \<Rightarrow> (bool \<times> go_error option) \<times> 's" where
  "applyMask c name masked s =
     (if masked then
        (case getUnitFileState c name s of
           (r, s1) \<Rightarrow> if or_empty r = ''masked'' then ((False, None), s1)
                      else (case MaskUnit c s1 name of (err, s2) \<Rightarrow> ((True, err), s2)))
      else
        (case getUnitFileState c name s of
           (r, s1) \<Rightarrow> if or_empty r \<noteq> ''masked'' then ((False, None), s1)
                      else (case UnmaskUnit c s1 name of (err, s2) \<Rightarrow> ((True, err), s2))))"

definition applyEnabled :: "'s systemd_conn \<Rightarrow> string \<Rightarrow> bool \<Rightarrow> 's \<Rightarrow> (bool \<times> go_error option) \<times> 's" where
  "applyEnabled c name enabled s =
     (case getUnitFileState c name s of
        (r, s1) \<Rightarrow>
          let state = or_empty r in
          if enabled then
            (if state = ''enabled'' \<or> state = ''enabled-runtime'' then ((False, None), s1)
             else (case EnableUnit c s1 name of (err, s2) \<Rightarrow> ((True, err), s2)))
          else if state = ''disabled'' \<or> state = [] then ((False, None), s1)
          else (case DisableUnit c s1 name of (err, s2) \<Rightarrow> ((True, err), s2)))"

definition start :: "'s systemd_conn \<Rightarrow> string \<Rightarrow> 's \<Rightarrow> (bool \<times> go_error option) \<times> 's" where
  "start c name s =
     (case getActiveState c name s of
        (r, s1) \<Rightarrow> if or_empty r = ''active'' then ((False, None), s1)
                   else (case StartUnit c s1 name of (err, s2) \<Rightarrow> ((True, err), s2)))"

definition stop :: "'s systemd_conn \<Rightarrow> string \<Rightarrow> 's \<Rightarrow> (bool \<times> go_error option) \<times> 's" where
  "stop c name s =
     (case getActiveState c name s of
        (r, s1) \<Rightarrow>
          let active = or_empty r in
          if active = ''inactive'' \<or> active = ''failed'' \<or> active = [] then ((False, None), s1)
          else (case StopUnit c s1 name of (err, s2) \<Rightarrow> ((True, err), s2)))"

definition applyState :: "'s systemd_conn \<Rightarrow> string \<Rightarrow> string \<Rightarrow> 's \<Rightarrow> (bool \<times> go_error option) \<times> 's" where
  "applyState c name state s =
     (if state = ''started'' then start c name s
      else if state = ''stopped'' then stop c name s
      else if state = ''restarted'' then
        (case RestartUnit c s name of (err, s1) \<Rightarrow> ((True, err), s1))
      else if state = ''reloaded'' then
        (case ReloadUnit c s name of (err, s1) \<Rightarrow> ((True, err), s1))
      else ((False, Some (Err (''unknown state: '' @ state))), s))"

text \<open>
  \<open>Apply\<close>, one step per setting; a step that is not asked for applies nothing. The result
  keeps \<open>Applied\<close> false when a step fails, also where an earlier one was applied.
\<close>

definition unit_failed :: "UnitSpec \<Rightarrow> string \<Rightarrow> go_error \<Rightarrow> UnitApplyResult" where
  "unit_failed u stage err =
     \<lparr>ur_Name = unit_Name u, ur_Applied = False, ur_Error = Some (Wrap stage err)\<rparr>"

definition ApplyUnit :: "'s systemd_conn \<Rightarrow> UnitSpec \<Rightarrow> 's \<Rightarrow> UnitApplyResult \<times> 's" where
  "ApplyUnit c u s =
     (case applyMask c (unit_Name u) (unit_Mask u) s of
        ((a1, Some err), s1) \<Rightarrow> (unit_failed u ''mask'' err, s1)
      | ((a1, None), s1) \<Rightarrow>
     (case (case unit_Enabled u of
              None \<Rightarrow> ((False, None), s1)
            | Some b \<Rightarrow> applyEnabled c (unit_Name u) b s1) of
        ((a2, Some err), s2) \<Rightarrow> (unit_failed u ''enabled'' err, s2)
      | ((a2, None), s2) \<Rightarrow>
     (case (if unit_State u \<noteq> [] then applyState c (unit_Name u) (unit_State u) s2
            else ((False, None), s2)) of
        ((a3, Some err), s3) \<Rightarrow> (unit_failed u ''state'' err, s3)
      | ((a3, None), s3) \<Rightarrow>
          (\<lparr>ur_Name = unit_Name u, ur_Applied = (a1 \<or> a2 \<or> a3), ur_Error = None\<rparr>, s3))))"

fun ApplyAllUnits_from ::
  "'s systemd_conn \<Rightarrow> UnitApplyResult list \<Rightarrow> UnitSpec list \<Rightarrow> 's \<Rightarrow>
     (UnitApplyResult list \<times> go_error option) \<times> 's" where
  "ApplyAllUnits_from c results [] s = ((results, None), s)"
| "ApplyAllUnits_from c results (u # us) s =
     (case ApplyUnit c u s of
        (result, s1) \<Rightarrow>
          (case ur_Error result of
             Some err \<Rightarrow> ((results @ [result], Some (Wrap (''unit '' @ unit_Name u) err)), s1)
           | None \<Rightarrow> ApplyAllUnits_from c (results @ [result]) us s1))"

definition ApplyAllUnits ::
  "'s systemd_conn \<Rightarrow> UnitSpec list \<Rightarrow> 's \<Rightarrow> (UnitApplyResult list \<times> go_error option) \<times> 's" where
  "ApplyAllUnits c us s = ApplyAllUnits_from c [] us s"

section \<open>systemd\_noop.go\<close>

definition NoOpSystemdConnection :: "'s systemd_conn" where
  "NoOpSystemdConnection =
     \<lparr>CloseConn = (\<lambda>s. s),
      GetUnitProperty = (\<lambda>s name prop. (Inr (Some (if prop = ''ActiveState'' then ''inactive'' else [])), s)),
      MaskUnit = (\<lambda>s name. (None, s)), UnmaskUnit = (\<lambda>s name. (None, s)),
      EnableUnit = (\<lambda>s name. (None, s)), DisableUnit = (\<lambda>s name. (None, s)),
      StartUnit = (\<lambda>s name. (None, s)), StopUnit = (\<lambda>s name. (None, s)),
      RestartUnit = (\<lambda>s name. (None, s)), ReloadUnit = (\<lambda>s name. (None, s))\<rparr>"

section \<open>systemd\_dbus.go\<close>

text \<open>
  The functions of package \<open>dbus\<close>. The four job calls return an error or, over the channel
  given to them, the result of the job ("done", "failed", "timeout", ...).
\<close>

record 's dbus =
  db_Close :: "'s \<Rightarrow> 's"
  GetUnitPropertiesContext :: "'s \<Rightarrow> string \<Rightarrow> (string \<rightharpoonup> string option) result \<times> 's"
  MaskUnitFilesContext :: "'s \<Rightarrow> string list \<Rightarrow> bool \<Rightarrow> bool \<Rightarrow> go_error option \<times> 's"
  UnmaskUnitFilesContext :: "'s \<Rightarrow> string list \<Rightarrow> bool \<Rightarrow> go_error option \<times> 's"
  EnableUnitFilesContext :: "'s \<Rightarrow> string list \<Rightarrow> bool \<Rightarrow> bool \<Rightarrow> go_error option \<times> 's"
  DisableUnitFilesContext :: "'s \<Rightarrow> string list \<Rightarrow> bool \<Rightarrow> go_error option \<times> 's"
  StartUnitContext :: "'s \<Rightarrow> string \<Rightarrow> string \<Rightarrow> string result \<times> 's"
  StopUnitContext :: "'s \<Rightarrow> string \<Rightarrow> string \<Rightarrow> string result \<times> 's"
  RestartUnitContext :: "'s \<Rightarrow> string \<Rightarrow> string \<Rightarrow> string result \<times> 's"
  ReloadUnitContext :: "'s \<Rightarrow> string \<Rightarrow> string \<Rightarrow> string result \<times> 's"

text \<open>\<open><-ch\<close>: the job's result is received and dropped.\<close>

definition await_job :: "string result \<times> 's \<Rightarrow> go_error option \<times> 's" where
  "await_job r = (case r of (Inl err, s) \<Rightarrow> (Some err, s) | (Inr job, s) \<Rightarrow> (None, s))"

definition DBusConnection :: "'s dbus \<Rightarrow> 's systemd_conn" where
  "DBusConnection d =
     \<lparr>CloseConn = db_Close d,
      GetUnitProperty = (\<lambda>s name prop.
        case GetUnitPropertiesContext d s name of
          (Inl err, s1) \<Rightarrow> (Inl err, s1)
        | (Inr props, s1) \<Rightarrow> (Inr (case props prop of None \<Rightarrow> None | Some v \<Rightarrow> v), s1)),
      MaskUnit = (\<lambda>s name. MaskUnitFilesContext d s [name] False True),
      UnmaskUnit = (\<lambda>s name. UnmaskUnitFilesContext d s [name] False),
      EnableUnit = (\<lambda>s name. EnableUnitFilesContext d s [name] False True),
      DisableUnit = (\<lambda>s name. DisableUnitFilesContext d s [name] False),
      StartUnit = (\<lambda>s name. await_job (StartUnitContext d s name ''replace'')),
      StopUnit = (\<lambda>s name. await_job (StopUnitContext d s name ''replace'')),
      RestartUnit = (\<lambda>s name. await_job (RestartUnitContext d s name ''replace'')),
      ReloadUnit = (\<lambda>s name. await_job (ReloadUnitContext d s name ''replace''))\<rparr>"

lemmas systemd_defs [mco_eval] =
  string_property_def getUnitFileState_def getActiveState_def or_empty_def applyMask_def
  applyEnabled_def start_def stop_def applyState_def unit_failed_def ApplyUnit_def
  ApplyAllUnits_def NoOpSystemdConnection_def await_job_def DBusConnection_def

section \<open>Which calls are made\<close>

text \<open>
  What passes over a connection: a property asked for, with the answer, and a call that
  changes a unit, with the error it returned. Any connection has such a log, whatever its calls
  do (\<open>logged\<close> below adds one).
\<close>

datatype unit_call =
    CallMask string | CallUnmask string | CallEnable string | CallDisable string
  | CallStart string | CallStop string | CallRestart string | CallReload string

datatype unit_event =
    Asked string string "string option result"
  | Did unit_call "go_error option"

locale systemd_history =
  fixes c :: "'s systemd_conn" and log :: "'s \<Rightarrow> unit_event list"
  assumes get_log: "GetUnitProperty c s n p = (r, s') \<Longrightarrow> log s' = log s @ [Asked n p r]"
    and mask_log: "MaskUnit c s n = (e, s') \<Longrightarrow> log s' = log s @ [Did (CallMask n) e]"
    and unmask_log: "UnmaskUnit c s n = (e, s') \<Longrightarrow> log s' = log s @ [Did (CallUnmask n) e]"
    and enable_log: "EnableUnit c s n = (e, s') \<Longrightarrow> log s' = log s @ [Did (CallEnable n) e]"
    and disable_log: "DisableUnit c s n = (e, s') \<Longrightarrow> log s' = log s @ [Did (CallDisable n) e]"
    and start_log: "StartUnit c s n = (e, s') \<Longrightarrow> log s' = log s @ [Did (CallStart n) e]"
    and stop_log: "StopUnit c s n = (e, s') \<Longrightarrow> log s' = log s @ [Did (CallStop n) e]"
    and restart_log: "RestartUnit c s n = (e, s') \<Longrightarrow> log s' = log s @ [Did (CallRestart n) e]"
    and reload_log: "ReloadUnit c s n = (e, s') \<Longrightarrow> log s' = log s @ [Did (CallReload n) e]"
begin

lemmas history = mask_log unmask_log enable_log disable_log start_log stop_log restart_log reload_log

end

text \<open>
  What a call is for: the unit it is about, the property that tells whether it is needed (a
  restart and a reload always are), and the values of the property with which it is not. A
  property that cannot be read counts as empty.
\<close>

primrec call_unit :: "unit_call \<Rightarrow> string" where
  "call_unit (CallMask n) = n" | "call_unit (CallUnmask n) = n"
| "call_unit (CallEnable n) = n" | "call_unit (CallDisable n) = n"
| "call_unit (CallStart n) = n" | "call_unit (CallStop n) = n"
| "call_unit (CallRestart n) = n" | "call_unit (CallReload n) = n"

primrec asks_for :: "unit_call \<Rightarrow> string option" where
  "asks_for (CallMask n) = Some ''UnitFileState''" | "asks_for (CallUnmask n) = Some ''UnitFileState''"
| "asks_for (CallEnable n) = Some ''UnitFileState''" | "asks_for (CallDisable n) = Some ''UnitFileState''"
| "asks_for (CallStart n) = Some ''ActiveState''" | "asks_for (CallStop n) = Some ''ActiveState''"
| "asks_for (CallRestart n) = None" | "asks_for (CallReload n) = None"

primrec already :: "unit_call \<Rightarrow> string \<Rightarrow> bool" where
  "already (CallMask n) t = (t = ''masked'')"
| "already (CallUnmask n) t = (t \<noteq> ''masked'')"
| "already (CallEnable n) t = (t = ''enabled'' \<or> t = ''enabled-runtime'')"
| "already (CallDisable n) t = (t = ''disabled'' \<or> t = [])"
| "already (CallStart n) t = (t = ''active'')"
| "already (CallStop n) t = (t = ''inactive'' \<or> t = ''failed'' \<or> t = [])"
| "already (CallRestart n) t = False"
| "already (CallReload n) t = False"

definition answer :: "string option result \<Rightarrow> string" where
  "answer v = (case v of Inr (Some t) \<Rightarrow> t | _ \<Rightarrow> [])"

text \<open>The calls a unit's specification asks for, in the order the source promises.\<close>

definition state_calls :: "string \<Rightarrow> string \<Rightarrow> unit_call list" where
  "state_calls n st =
     (if st = ''started'' then [CallStart n] else if st = ''stopped'' then [CallStop n]
      else if st = ''restarted'' then [CallRestart n] else if st = ''reloaded'' then [CallReload n] else [])"

definition known_state :: "UnitSpec \<Rightarrow> bool" where
  "known_state u \<longleftrightarrow> unit_State u = [] \<or> state_calls (unit_Name u) (unit_State u) \<noteq> []"

definition unit_plan :: "UnitSpec \<Rightarrow> unit_call list" where
  "unit_plan u =
     [if unit_Mask u then CallMask (unit_Name u) else CallUnmask (unit_Name u)]
     @ (case unit_Enabled u of None \<Rightarrow> []
        | Some b \<Rightarrow> [if b then CallEnable (unit_Name u) else CallDisable (unit_Name u)])
     @ state_calls (unit_Name u) (unit_State u)"

text \<open>
  What a log says: the calls made, whether one failed, whether a planned call is settled
  (it was made and accepted, or the unit was found to be so already) and whether a call that
  was made was needed.
\<close>

definition made :: "unit_event list \<Rightarrow> unit_call list" where
  "made evs = concat (map (\<lambda>ev. case ev of Did k e \<Rightarrow> [k] | _ \<Rightarrow> []) evs)"

definition failed_call :: "unit_event list \<Rightarrow> bool" where
  "failed_call evs \<longleftrightarrow> (\<exists>k err. Did k (Some err) \<in> set evs)"

definition settled :: "unit_event list \<Rightarrow> unit_call \<Rightarrow> bool" where
  "settled evs k \<longleftrightarrow> Did k None \<in> set evs \<or>
     (\<exists>p v. asks_for k = Some p \<and> Asked (call_unit k) p v \<in> set evs \<and> already k (answer v))"

definition needed :: "unit_event list \<Rightarrow> unit_call \<Rightarrow> bool" where
  "needed evs k \<longleftrightarrow> asks_for k = None \<or>
     (\<exists>p v. asks_for k = Some p \<and> Asked (call_unit k) p v \<in> set evs \<and> \<not> already k (answer v))"

lemma made_simps [simp]:
  "made [] = []" "made (Asked n p v # evs) = made evs" "made (Did k e # evs) = k # made evs"
  "made (xs @ ys) = made xs @ made ys"
  by (simp_all add: made_def)

lemma made_concat [simp]: "made (concat xss) = concat (map made xss)"
  by (induction xss) simp_all

lemma failed_call_simps [simp]:
  "\<not> failed_call []" "failed_call (Asked n p v # evs) = failed_call evs"
  "failed_call (Did k e # evs) = (e \<noteq> None \<or> failed_call evs)"
  "failed_call (xs @ ys) = (failed_call xs \<or> failed_call ys)"
  by (auto simp: failed_call_def)

lemma settled_mono: "settled xs k \<Longrightarrow> set xs \<subseteq> set ys \<Longrightarrow> settled ys k"
  and needed_mono: "needed xs k \<Longrightarrow> set xs \<subseteq> set ys \<Longrightarrow> needed ys k"
  by (auto simp: settled_def needed_def)

section \<open>Working off the plan\<close>

text \<open>
  One planned call: the property is asked for and the call is made only if it is needed. A plan
  is worked off call by call up to the first that fails.
\<close>

definition stage :: "unit_call \<Rightarrow> unit_event list \<Rightarrow> bool \<Rightarrow> go_error option \<Rightarrow> bool" where
  "stage k evs a e \<longleftrightarrow>
     (case asks_for k of
        None \<Rightarrow> a \<and> evs = [Did k e]
      | Some p \<Rightarrow> \<exists>v. if already k (answer v) then \<not> a \<and> e = None \<and> evs = [Asked (call_unit k) p v]
                      else a \<and> evs = [Asked (call_unit k) p v, Did k e])"

inductive plan_run :: "unit_call list \<Rightarrow> unit_event list \<Rightarrow> bool \<Rightarrow> go_error option \<Rightarrow> bool" where
  run_done: "plan_run [] [] False None"
| run_fail: "stage k ev a (Some err) \<Longrightarrow> plan_run (k # ks) ev a (Some err)"
| run_step: "stage k ev a None \<Longrightarrow> plan_run ks evs b e \<Longrightarrow> plan_run (k # ks) (ev @ evs) (a \<or> b) e"

lemma stage_iff:
  "stage k [Asked n p v] a e \<longleftrightarrow>
     asks_for k = Some p \<and> call_unit k = n \<and> already k (answer v) \<and> \<not> a \<and> e = None"
  "stage k [Asked n p v, Did k' e'] a e \<longleftrightarrow>
     asks_for k = Some p \<and> call_unit k = n \<and> \<not> already k (answer v) \<and> a \<and> k' = k \<and> e' = e"
  "stage k [Did k' e'] a e \<longleftrightarrow> asks_for k = None \<and> a \<and> k' = k \<and> e' = e"
  by (auto simp: stage_def split: option.splits if_splits)

lemma stage_facts:
  assumes "stage k ev a e"
  shows "subseq (made ev) [k]" "a = (made ev \<noteq> [])" "failed_call ev = (e \<noteq> None)" "\<not> failed_call (butlast ev)"
    "e = None \<Longrightarrow> settled ev k" "k' \<in> set (made ev) \<Longrightarrow> needed ev k'"
  using assms by (auto simp: stage_def settled_def needed_def split: option.splits if_splits)

lemma plan_run_facts:
  assumes "plan_run ks evs a e"
  shows "subseq (made evs) ks \<and> a = (made evs \<noteq> []) \<and> failed_call evs = (e \<noteq> None) \<and> \<not> failed_call (butlast evs) \<and>
    (e = None \<longrightarrow> (\<forall>k\<in>set ks. settled evs k)) \<and> (\<forall>k\<in>set (made evs). needed evs k)"
  using assms
proof induction
  case run_done
  then show ?case by simp
next
  case (run_fail k ev a err ks)
  note S = stage_facts [OF run_fail]
  have "subseq (made ev @ []) ([k] @ ks)" by (intro list_emb_append_mono S(1)) simp
  then show ?case using S by simp
next
  case (run_step k ev a ks evs b e)
  note S = stage_facts [OF run_step.hyps(1)]
  have "subseq (made ev @ made evs) ([k] @ ks)"
    using run_step.IH by (intro list_emb_append_mono S(1)) simp
  moreover have "\<not> failed_call (butlast (ev @ evs))"
    using S run_step.IH by (simp add: butlast_append)
  moreover have "settled (ev @ evs) k" by (rule settled_mono [OF S(5)]) simp_all
  moreover have "\<forall>k'\<in>set (made (ev @ evs)). needed (ev @ evs) k'"
  proof
    fix k'
    assume "k' \<in> set (made (ev @ evs))"
    then have "needed ev k' \<or> needed evs k'" using run_step.IH S(6) by auto
    then show "needed (ev @ evs) k'" by (auto intro: needed_mono)
  qed
  moreover have "\<forall>k'\<in>set ks. settled (ev @ evs) k'" if "e = None"
    using that run_step.IH by (auto intro: settled_mono)
  ultimately show ?case
    using S(2,3) run_step.IH by simp
qed

lemma plan_run_prefix: "plan_run ks evs a (Some err) \<Longrightarrow> plan_run (ks @ ks') evs a (Some err)"
  by (induction ks evs a "Some err" rule: plan_run.induct) (auto intro: plan_run.intros)

lemma plan_run_append:
  "plan_run ks evs a None \<Longrightarrow> plan_run ks' evs' b e \<Longrightarrow> plan_run (ks @ ks') (evs @ evs') (a \<or> b) e"
  by (induction ks evs a "None :: go_error option" rule: plan_run.induct)
    (auto intro: plan_run.intros simp: disj_assoc)

lemma plan_run_single: "stage k ev a e \<Longrightarrow> plan_run [k] ev a e"
  using run_step [OF _ run_done, of k ev a] run_fail [of k ev a] by (cases e) auto

context systemd_history
begin

lemma property_log:
  "getUnitFileState c n s = (r, s') \<Longrightarrow> \<exists>v. log s' = log s @ [Asked n ''UnitFileState'' v] \<and> answer v = or_empty r"
  "getActiveState c n s = (r, s') \<Longrightarrow> \<exists>v. log s' = log s @ [Asked n ''ActiveState'' v] \<and> answer v = or_empty r"
  by (auto simp: getUnitFileState_def getActiveState_def string_property_def or_empty_def answer_def
      split: prod.splits sum.splits option.splits dest!: get_log)

lemma applyMask_stage:
  assumes "applyMask c n m s = ((a, e), s')"
  shows "\<exists>ev. log s' = log s @ ev \<and> stage (if m then CallMask n else CallUnmask n) ev a e"
  using assms
  by (auto simp: applyMask_def stage_iff split: prod.splits if_splits dest!: property_log history)

lemma applyEnabled_stage:
  assumes "applyEnabled c n b s = ((a, e), s')"
  shows "\<exists>ev. log s' = log s @ ev \<and> stage (if b then CallEnable n else CallDisable n) ev a e"
  using assms
  by (auto simp: applyEnabled_def Let_def stage_iff split: prod.splits if_splits dest!: property_log history)

lemma applyState_stage:
  assumes "applyState c n st s = ((a, e), s')"
  shows "(\<exists>k ev. state_calls n st = [k] \<and> log s' = log s @ ev \<and> stage k ev a e) \<or>
    state_calls n st = [] \<and> log s' = log s \<and> \<not> a \<and> e \<noteq> None"
  using assms
  by (auto simp: applyState_def start_def stop_def Let_def state_calls_def stage_iff
      split: prod.splits if_splits dest!: property_log history)

end

context systemd_history
begin

lemma ApplyUnit_run:
  assumes "ApplyUnit c u s = (r, s')"
  shows "\<exists>evs a e. log s' = log s @ evs \<and> plan_run (unit_plan u) evs a e \<and>
    (ur_Error r = None \<longleftrightarrow> e = None \<and> known_state u) \<and> ur_Applied r = (ur_Error r = None \<and> a)"
proof -
  let ?n = "unit_Name u"
  let ?m = "if unit_Mask u then CallMask ?n else CallUnmask ?n"
  let ?b = "case unit_Enabled u of None \<Rightarrow> [] | Some b \<Rightarrow> [if b then CallEnable ?n else CallDisable ?n]"
  let ?st = "state_calls ?n (unit_State u)"
  obtain a1 e1 s1 where m: "applyMask c ?n (unit_Mask u) s = ((a1, e1), s1)" by (metis prod.exhaust)
  obtain v1 where v1: "log s1 = log s @ v1" "stage ?m v1 a1 e1" using applyMask_stage [OF m] by blast
  note p1 = plan_run_single [OF v1(2)]
  show ?thesis
  proof (cases e1)
    case (Some err)
    then have "s' = s1" "ur_Error r \<noteq> None" "\<not> ur_Applied r"
      using assms m by (auto simp: ApplyUnit_def unit_failed_def)
    moreover have "plan_run (unit_plan u) v1 a1 (Some err)"
      using plan_run_prefix [OF p1 [unfolded Some], of "?b @ ?st"] by (simp add: unit_plan_def)
    ultimately show ?thesis using v1(1) by (metis option.distinct(1))
  next
    case ok1: None
    obtain a2 e2 s2 where b: "(case unit_Enabled u of None \<Rightarrow> ((False, None), s1)
        | Some b \<Rightarrow> applyEnabled c ?n b s1) = ((a2, e2), s2)"
      by (metis prod.exhaust)
    have "\<exists>v2. log s2 = log s1 @ v2 \<and> plan_run ?b v2 a2 e2"
    proof (cases "unit_Enabled u")
      case None
      then show ?thesis using b run_done by auto
    next
      case (Some x)
      then show ?thesis using b applyEnabled_stage [of ?n x s1 a2 e2 s2] plan_run_single by fastforce
    qed
    then obtain v2 where v2: "log s2 = log s1 @ v2" "plan_run ?b v2 a2 e2" by blast
    note p2 = plan_run_append [OF p1 [unfolded ok1] v2(2)]
    show ?thesis
    proof (cases e2)
      case (Some err)
      then have "s' = s2" "ur_Error r \<noteq> None" "\<not> ur_Applied r"
        using assms m b ok1 by (auto simp: ApplyUnit_def unit_failed_def)
      moreover have "plan_run (unit_plan u) (v1 @ v2) (a1 \<or> a2) (Some err)"
        using plan_run_prefix [OF p2 [unfolded Some], of ?st] by (simp add: unit_plan_def)
      ultimately show ?thesis using v1(1) v2(1) by (metis append_assoc option.distinct(1))
    next
      case ok2: None
      obtain a3 e3 s3 where st: "(if unit_State u \<noteq> [] then applyState c ?n (unit_State u) s2
          else ((False, None), s2)) = ((a3, e3), s3)"
        by (metis prod.exhaust)
      have r: "s' = s3" "ur_Error r = None \<longleftrightarrow> e3 = None" "ur_Applied r = (e3 = None \<and> (a1 \<or> a2 \<or> a3))"
        using assms m b st ok1 ok2 by (auto simp: ApplyUnit_def unit_failed_def split: option.splits)
      obtain v3 e where v3: "log s3 = log s2 @ v3" "plan_run ?st v3 a3 e" "e3 = None \<longleftrightarrow> e = None \<and> known_state u"
      proof (cases "unit_State u = []")
        case True
        then show thesis using that [of "[]" None] st run_done by (simp add: known_state_def state_calls_def)
      next
        case False
        then show thesis
          using st applyState_stage [of ?n "unit_State u" s2 a3 e3 s3] that plan_run_single run_done
          by (fastforce simp: known_state_def)
      qed
      have "plan_run (unit_plan u) ((v1 @ v2) @ v3) ((a1 \<or> a2) \<or> a3) e"
        using plan_run_append [OF p2 [unfolded ok2] v3(2)] by (simp add: unit_plan_def)
      then show ?thesis
        using r v1(1) v2(1) v3 by (intro exI [of _ "(v1 @ v2) @ v3"] exI [of _ "(a1 \<or> a2) \<or> a3"] exI [of _ e]) auto
    qed
  qed
qed

end

lemma ApplyUnit_log:
  assumes "systemd_history c log" and "ApplyUnit c u s = (r, s')"
  shows "\<exists>evs. log s' = log s @ evs \<and> subseq (made evs) (unit_plan u) \<and>
    (\<forall>k\<in>set (made evs). needed evs k) \<and> \<not> failed_call (butlast evs) \<and>
    (ur_Error r = None \<longleftrightarrow> \<not> failed_call evs \<and> known_state u) \<and>
    (ur_Error r = None \<longrightarrow> (\<forall>k\<in>set (unit_plan u). settled evs k)) \<and>
    ur_Applied r = (ur_Error r = None \<and> made evs \<noteq> [])"
proof -
  obtain evs a e where *: "log s' = log s @ evs" "plan_run (unit_plan u) evs a e"
    "ur_Error r = None \<longleftrightarrow> e = None \<and> known_state u" "ur_Applied r = (ur_Error r = None \<and> a)"
    using systemd_history.ApplyUnit_run [OF assms] by metis
  then show ?thesis using plan_run_facts [OF *(2)] by (intro exI [of _ evs]) auto
qed


text \<open>
  A job that fails counts as applied. The D-Bus connection waits for the job of a start and
  drops its result: when systemd accepts the request and the job then ends in any result at all,
  failure included, a unit that was to be started is reported as applied without an error.
\<close>

theorem failed_job_reported_as_applied:
  assumes "GetUnitPropertiesContext d s (unit_Name u) = (Inr props, s)"
    and "props ''UnitFileState'' = Some (Some ''enabled'')"
    and "props ''ActiveState'' = Some (Some ''failed'')"
    and "StartUnitContext d s (unit_Name u) ''replace'' = (Inr job, s')"
    and "\<not> unit_Mask u" and "unit_Enabled u \<noteq> Some False" and "unit_State u = ''started''"
  shows "ApplyUnit (DBusConnection d) u s =
    (\<lparr>ur_Name = unit_Name u, ur_Applied = True, ur_Error = None\<rparr>, s')"
  using assms
  by (cases "unit_Enabled u") (auto simp: systemd_defs)

text \<open>
  With the no-op connection a unit that should be masked, enabled, started, restarted or
  reloaded is reported as applied on every call, although nothing is done.
\<close>

lemma noop_reports_change:
  assumes "unit_State u \<in> {[], ''started'', ''stopped'', ''restarted'', ''reloaded''}"
  shows "ApplyUnit NoOpSystemdConnection u s =
    (\<lparr>ur_Name = unit_Name u,
      ur_Applied = (unit_Mask u \<or> unit_Enabled u = Some True \<or>
        unit_State u \<in> {''started'', ''restarted'', ''reloaded''}),
      ur_Error = None\<rparr>, s)"
  using assms
  by (cases "unit_Enabled u") (auto simp: systemd_defs split: if_splits)

section \<open>A log for any connection\<close>

definition record_did ::
  "('s \<Rightarrow> string \<Rightarrow> go_error option \<times> 's) \<Rightarrow> (string \<Rightarrow> unit_call) \<Rightarrow>
     's \<times> unit_event list \<Rightarrow> string \<Rightarrow> go_error option \<times> 's \<times> unit_event list" where
  "record_did f k x n = (case f (fst x) n of (e, s1) \<Rightarrow> (e, s1, snd x @ [Did (k n) e]))"

definition logged :: "'s systemd_conn \<Rightarrow> ('s \<times> unit_event list) systemd_conn" where
  "logged c =
     \<lparr>CloseConn = (\<lambda>x. (CloseConn c (fst x), snd x)),
      GetUnitProperty = (\<lambda>x n p. case GetUnitProperty c (fst x) n p of (v, s1) \<Rightarrow> (v, s1, snd x @ [Asked n p v])),
      MaskUnit = record_did (MaskUnit c) CallMask, UnmaskUnit = record_did (UnmaskUnit c) CallUnmask,
      EnableUnit = record_did (EnableUnit c) CallEnable, DisableUnit = record_did (DisableUnit c) CallDisable,
      StartUnit = record_did (StartUnit c) CallStart, StopUnit = record_did (StopUnit c) CallStop,
      RestartUnit = record_did (RestartUnit c) CallRestart, ReloadUnit = record_did (ReloadUnit c) CallReload\<rparr>"

lemma logged_history: "systemd_history (logged c) snd"
  by unfold_locales (auto simp: logged_def record_did_def split: prod.splits)

interpretation noop_logged: systemd_history "logged (NoOpSystemdConnection :: unit systemd_conn)" snd
  by (rule logged_history)

section \<open>A manager in memory\<close>

record unit_table =
  ut_log :: "unit_event list"
  ut_file :: "string \<rightharpoonup> string"
  ut_active :: "string \<rightharpoonup> string"

primrec unit_effect :: "unit_call \<Rightarrow> unit_table \<Rightarrow> unit_table" where
  "unit_effect (CallMask n) t = t\<lparr>ut_file := (ut_file t)(n \<mapsto> ''masked'')\<rparr>"
| "unit_effect (CallUnmask n) t = t\<lparr>ut_file := (ut_file t)(n \<mapsto> ''disabled'')\<rparr>"
| "unit_effect (CallEnable n) t = t\<lparr>ut_file := (ut_file t)(n \<mapsto> ''enabled'')\<rparr>"
| "unit_effect (CallDisable n) t = t\<lparr>ut_file := (ut_file t)(n \<mapsto> ''disabled'')\<rparr>"
| "unit_effect (CallStart n) t = t\<lparr>ut_active := (ut_active t)(n \<mapsto> ''active'')\<rparr>"
| "unit_effect (CallStop n) t = t\<lparr>ut_active := (ut_active t)(n \<mapsto> ''inactive'')\<rparr>"
| "unit_effect (CallRestart n) t = t\<lparr>ut_active := (ut_active t)(n \<mapsto> ''active'')\<rparr>"
| "unit_effect (CallReload n) t = t"

definition issue :: "('s \<Rightarrow> unit_table) \<Rightarrow> (unit_table \<Rightarrow> 's \<Rightarrow> 's) \<Rightarrow> unit_call \<Rightarrow> 's \<Rightarrow> go_error option \<times> 's" where
  "issue get put call s =
     (None, put ((unit_effect call (get s))\<lparr>ut_log := ut_log (get s) @ [Did call None]\<rparr>) s)"

definition inspect ::
  "('s \<Rightarrow> unit_table) \<Rightarrow> (unit_table \<Rightarrow> 's \<Rightarrow> 's) \<Rightarrow> 's \<Rightarrow> string \<Rightarrow> string \<Rightarrow> string option result \<times> 's" where
  "inspect get put s n p =
     (let v = Inr (if p = ''ActiveState'' then ut_active (get s) n else ut_file (get s) n)
      in (v, put ((get s)\<lparr>ut_log := ut_log (get s) @ [Asked n p v]\<rparr>) s))"

definition mem_systemd :: "('s \<Rightarrow> unit_table) \<Rightarrow> (unit_table \<Rightarrow> 's \<Rightarrow> 's) \<Rightarrow> 's systemd_conn" where
  "mem_systemd get put =
     \<lparr>CloseConn = (\<lambda>s. s),
      GetUnitProperty = inspect get put,
      MaskUnit = (\<lambda>s n. issue get put (CallMask n) s), UnmaskUnit = (\<lambda>s n. issue get put (CallUnmask n) s),
      EnableUnit = (\<lambda>s n. issue get put (CallEnable n) s), DisableUnit = (\<lambda>s n. issue get put (CallDisable n) s),
      StartUnit = (\<lambda>s n. issue get put (CallStart n) s), StopUnit = (\<lambda>s n. issue get put (CallStop n) s),
      RestartUnit = (\<lambda>s n. issue get put (CallRestart n) s), ReloadUnit = (\<lambda>s n. issue get put (CallReload n) s)\<rparr>"

lemma mem_systemd_history:
  assumes "\<And>t s. get (put t s) = t"
  shows "systemd_history (mem_systemd get put) (\<lambda>s. ut_log (get s))"
  by unfold_locales (auto simp: mem_systemd_def issue_def inspect_def Let_def assms)

interpretation units_mem: systemd_history "mem_systemd (\<lambda>t. t) (\<lambda>t _. t)" ut_log
  using mem_systemd_history [of "\<lambda>t. t" "\<lambda>t _. t"] by simp

definition ex_started :: UnitSpec where
  "ex_started = \<lparr>unit_Name = ''chronyd.service'', unit_Enabled = Some True, unit_State = ''started'', unit_Mask = False\<rparr>"

definition ex_units :: unit_table where
  "ex_units = \<lparr>ut_log = [], ut_file = [''chronyd.service'' \<mapsto> ''disabled''],
     ut_active = [''chronyd.service'' \<mapsto> ''inactive'']\<rparr>"


text \<open>A bus on which every start ends in a failed job.\<close>

definition ex_failing_bus :: "unit dbus" where
  "ex_failing_bus =
     \<lparr>db_Close = (\<lambda>s. s),
      GetUnitPropertiesContext = (\<lambda>s n. (Inr [''UnitFileState'' \<mapsto> Some ''enabled'', ''ActiveState'' \<mapsto> Some ''failed''], s)),
      MaskUnitFilesContext = (\<lambda>s ns a b. (None, s)), UnmaskUnitFilesContext = (\<lambda>s ns a. (None, s)),
      EnableUnitFilesContext = (\<lambda>s ns a b. (None, s)), DisableUnitFilesContext = (\<lambda>s ns a. (None, s)),
      StartUnitContext = (\<lambda>s n m. (Inr ''failed'', s)), StopUnitContext = (\<lambda>s n m. (Inr ''done'', s)),
      RestartUnitContext = (\<lambda>s n m. (Inr ''done'', s)), ReloadUnitContext = (\<lambda>s n m. (Inr ''done'', s))\<rparr>"

theorem failed_job_reported_as_applied_witness:
  "ApplyUnit (DBusConnection ex_failing_bus) ex_started () =
     (\<lparr>ur_Name = ''chronyd.service'', ur_Applied = True, ur_Error = None\<rparr>, ())"
  using failed_job_reported_as_applied [where d = ex_failing_bus and s = "()" and u = ex_started
      and props = "[''UnitFileState'' \<mapsto> Some ''enabled'', ''ActiveState'' \<mapsto> Some ''failed'']"
      and job = "''failed''" and s' = "()"]
  by (simp add: ex_failing_bus_def ex_started_def)

end
