(* ===== verification/Agent_Apply.thy ===== *)
theory Agent_Apply
  imports Agent_Files Agent_Systemd
begin

text \<open>
  The applier, \<open>internal/agent/apply.go\<close>: first the files in the order of their paths, then
  the units in the order of their names, stopping at the first error or when the context is
  done. \<open>FileOperations\<close> is an interface of the source and a record here. The context is a
  function of the state: \<open>ctx s\<close> is what \<open>ctx.Err()\<close> returns there.
\<close>

section \<open>apply.go\<close>

record ApplyResult =
  ar_Success :: bool
  ar_Error :: "go_error option"
  ar_FilesApplied :: nat
  ar_FilesSkipped :: nat
  ar_UnitsApplied :: nat
  ar_UnitsSkipped :: nat

definition empty_result :: ApplyResult where
  "empty_result = \<lparr>ar_Success = False, ar_Error = None, ar_FilesApplied = 0, ar_FilesSkipped = 0,
     ar_UnitsApplied = 0, ar_UnitsSkipped = 0\<rparr>"

record 's FileOperations =
  fo_Apply :: "FileSpec \<Rightarrow> 's \<Rightarrow> FileApplyResult \<times> 's"
  fo_ApplyAll :: "FileSpec list \<Rightarrow> 's \<Rightarrow> (FileApplyResult list \<times> go_error option) \<times> 's"
  fo_NeedsUpdate :: "FileSpec \<Rightarrow> 's \<Rightarrow> bool result \<times> 's"

definition file_operations :: "FileApplier \<Rightarrow> 's host \<Rightarrow> 's FileOperations" where
  "file_operations a h =
     \<lparr>fo_Apply = ApplyFile a h, fo_ApplyAll = ApplyAllFiles a h, fo_NeedsUpdate = NeedsUpdateFile a h\<rparr>"

record 's Applier =
  ap_files :: "'s FileOperations"
  ap_systemd :: "'s systemd_conn"

definition NewApplier :: "'s host \<Rightarrow> string \<Rightarrow> 's systemd_conn \<Rightarrow> 's Applier" where
  "NewApplier h hostRoot conn =
     \<lparr>ap_files = file_operations (NewFileApplier hostRoot) h, ap_systemd = conn\<rparr>"

definition NewApplierWithOptions :: "'s host \<Rightarrow> string \<Rightarrow> 's systemd_conn \<Rightarrow> bool \<Rightarrow> 's Applier" where
  "NewApplierWithOptions h hostRoot conn skipOwnership =
     \<lparr>ap_files = file_operations (NewFileApplierWithOptions hostRoot skipOwnership) h, ap_systemd = conn\<rparr>"

definition NewApplierWithFileOps :: "'s FileOperations \<Rightarrow> 's systemd_conn \<Rightarrow> 's Applier" where
  "NewApplierWithFileOps fo conn = \<lparr>ap_files = fo, ap_systemd = conn\<rparr>"

definition sortFilesByPath :: "FileSpec list \<Rightarrow> FileSpec list" where
  "sortFilesByPath files = sort_slice (\<lambda>a b. file_Path a < file_Path b) files"

definition sortUnitsByName :: "UnitSpec list \<Rightarrow> UnitSpec list" where
  "sortUnitsByName units = sort_slice (\<lambda>a b. unit_Name a < unit_Name b) units"

fun apply_files ::
  "('s \<Rightarrow> go_error option) \<Rightarrow> 's FileOperations \<Rightarrow> ApplyResult \<Rightarrow> FileSpec list \<Rightarrow> 's \<Rightarrow> ApplyResult \<times> 's" where
  "apply_files ctx fo result [] s = (result, s)"
| "apply_files ctx fo result (f # fs) s =
     (case ctx s of
        Some err \<Rightarrow> (result\<lparr>ar_Error := Some err\<rparr>, s)
      | None \<Rightarrow>
          (case fo_Apply fo f s of
             (fileResult, s1) \<Rightarrow>
               (case fr_Error fileResult of
                  Some err \<Rightarrow> (result\<lparr>ar_Error := Some (Wrap (''file '' @ file_Path f) err)\<rparr>, s1)
                | None \<Rightarrow>
                    apply_files ctx fo
                      (if fr_Applied fileResult then result\<lparr>ar_FilesApplied := ar_FilesApplied result + 1\<rparr>
                       else result\<lparr>ar_FilesSkipped := ar_FilesSkipped result + 1\<rparr>) fs s1)))"

fun apply_units ::
  "('s \<Rightarrow> go_error option) \<Rightarrow> 's systemd_conn \<Rightarrow> ApplyResult \<Rightarrow> UnitSpec list \<Rightarrow> 's \<Rightarrow> ApplyResult \<times> 's" where
  "apply_units ctx c result [] s = (result, s)"
| "apply_units ctx c result (u # us) s =
     (case ctx s of
        Some err \<Rightarrow> (result\<lparr>ar_Error := Some err\<rparr>, s)
      | None \<Rightarrow>
          (case ApplyUnit c u s of
             (unitResult, s1) \<Rightarrow>
               (case ur_Error unitResult of
                  Some err \<Rightarrow> (result\<lparr>ar_Error := Some (Wrap (''unit '' @ unit_Name u) err)\<rparr>, s1)
                | None \<Rightarrow>
                    apply_units ctx c
                      (if ur_Applied unitResult then result\<lparr>ar_UnitsApplied := ar_UnitsApplied result + 1\<rparr>
                       else result\<lparr>ar_UnitsSkipped := ar_UnitsSkipped result + 1\<rparr>) us s1)))"

text \<open>The error that Go returns beside the result is \<open>ar_Error\<close> of the result.\<close>

definition Apply :: "('s \<Rightarrow> go_error option) \<Rightarrow> 's Applier \<Rightarrow> RenderedConfig \<Rightarrow> 's \<Rightarrow> ApplyResult \<times> 's" where
  "Apply ctx a config s =
     (case apply_files ctx (ap_files a) empty_result (sortFilesByPath (rc_Files config)) s of
        (result, s1) \<Rightarrow>
          if ar_Error result \<noteq> None then (result, s1)
          else (case apply_units ctx (ap_systemd a) result
                       (sortUnitsByName (systemd_Units (rc_Systemd config))) s1 of
                  (result, s2) \<Rightarrow>
                    if ar_Error result \<noteq> None then (result, s2)
                    else (result\<lparr>ar_Success := True\<rparr>, s2)))"

definition ApplySpec ::
  "('s \<Rightarrow> go_error option) \<Rightarrow> 's Applier \<Rightarrow> RenderedMachineConfigSpec \<Rightarrow> 's \<Rightarrow> ApplyResult \<times> 's" where
  "ApplySpec ctx a spec s = Apply ctx a (rmcs_Config spec) s"

record DryRunResult =
  dr_FilesToChange :: "string list"
  dr_UnitsToChange :: "string list"

fun dry_run_files :: "'s FileOperations \<Rightarrow> string list \<Rightarrow> FileSpec list \<Rightarrow> 's \<Rightarrow> string list result \<times> 's" where
  "dry_run_files fo acc [] s = (Inr acc, s)"
| "dry_run_files fo acc (f # fs) s =
     (case fo_NeedsUpdate fo f s of
        (Inl err, s1) \<Rightarrow> (Inl (Wrap (''check file '' @ file_Path f) err), s1)
      | (Inr needs, s1) \<Rightarrow> dry_run_files fo (if needs then acc @ [file_Path f] else acc) fs s1)"

definition DryRun :: "'s Applier \<Rightarrow> RenderedConfig \<Rightarrow> 's \<Rightarrow> DryRunResult result \<times> 's" where
  "DryRun a config s =
     (case dry_run_files (ap_files a) [] (rc_Files config) s of
        (Inl err, s1) \<Rightarrow> (Inl err, s1)
      | (Inr changed, s1) \<Rightarrow>
          (Inr \<lparr>dr_FilesToChange = changed,
                dr_UnitsToChange = map unit_Name (systemd_Units (rc_Systemd config))\<rparr>, s1))"

definition HasChanges :: "DryRunResult \<Rightarrow> bool" where
  "HasChanges r \<longleftrightarrow> 0 < length (dr_FilesToChange r) \<or> 0 < length (dr_UnitsToChange r)"

lemmas apply_defs [mco_eval] =
  empty_result_def file_operations_def NewApplier_def NewApplierWithOptions_def
  NewApplierWithFileOps_def sortFilesByPath_def sortUnitsByName_def Apply_def ApplySpec_def
  DryRun_def HasChanges_def

section \<open>The two loops\<close>

lemma apply_files_ok:
  assumes "host_fs h files temps"
    and "apply_files ctx (file_operations a h) r0 fs s = (r, s')" and "ar_Error r = None"
    and "ar_Error r0 = None" and "distinct (map (host_path a) fs)"
  shows "(\<forall>f\<in>set fs. file_holds (files s') a f) \<and>
    (\<forall>q. q \<notin> host_path a ` set fs \<longrightarrow> files s' q = files s q) \<and>
    ar_FilesApplied r + ar_FilesSkipped r = ar_FilesApplied r0 + ar_FilesSkipped r0 + length fs \<and>
    ar_FilesApplied r0 \<le> ar_FilesApplied r \<and>
    (ar_FilesApplied r = ar_FilesApplied r0 \<longrightarrow> files s' = files s) \<and>
    ar_UnitsApplied r = ar_UnitsApplied r0 \<and> ar_UnitsSkipped r = ar_UnitsSkipped r0"
  using assms(2-5)
proof (induction fs arbitrary: r0 s)
  case Nil
  then show ?case by simp
next
  case (Cons f fs)
  obtain fr s1 where fr: "ApplyFile a h f s = (fr, s1)" by fastforce
  have ok: "ctx s = None" "fr_Error fr = None"
    using Cons.prems fr by (auto simp: file_operations_def split: option.splits)
  define r1 where "r1 = (if fr_Applied fr then r0\<lparr>ar_FilesApplied := ar_FilesApplied r0 + 1\<rparr>
                       else r0\<lparr>ar_FilesSkipped := ar_FilesSkipped r0 + 1\<rparr>)"
  have run: "apply_files ctx (file_operations a h) r1 fs s1 = (r, s')" "ar_Error r1 = None"
    using Cons.prems fr ok by (auto simp: file_operations_def r1_def)
  have "distinct (map (host_path a) fs)" using Cons.prems by simp
  note IH = Cons.IH [OF run(1) Cons.prems(2) run(2) this]
  note eff = ApplyFile_effect [OF assms(1) fr]
  have "file_holds (files s1) a f" using eff ok by blast
  moreover have "files s' (host_path a f) = files s1 (host_path a f)"
    using IH Cons.prems(4) by simp
  ultimately have holds: "file_holds (files s') a f" by (simp add: file_holds_def)
  have n: "ar_FilesApplied r1 = ar_FilesApplied r0 + (if fr_Applied fr then 1 else 0)"
    "ar_FilesSkipped r1 = ar_FilesSkipped r0 + (if fr_Applied fr then 0 else 1)"
    "ar_UnitsApplied r1 = ar_UnitsApplied r0" "ar_UnitsSkipped r1 = ar_UnitsSkipped r0"
    by (simp_all add: r1_def)
  have "\<forall>q. q \<notin> host_path a ` set (f # fs) \<longrightarrow> files s' q = files s q"
    using IH ApplyFile_effect [OF assms(1) fr] by simp
  moreover have "files s' = files s" if "ar_FilesApplied r = ar_FilesApplied r0"
  proof -
    have "\<not> fr_Applied fr" "ar_FilesApplied r = ar_FilesApplied r1"
      using that IH n(1) by (cases "fr_Applied fr"; simp)+
    then show ?thesis using IH eff by simp
  qed
  moreover have "ar_FilesApplied r + ar_FilesSkipped r = ar_FilesApplied r0 + ar_FilesSkipped r0 + length (f # fs)"
    "ar_FilesApplied r0 \<le> ar_FilesApplied r"
    using IH n by (cases "fr_Applied fr"; simp)+
  ultimately show ?case
    using IH n holds by simp
qed

text \<open>
  The events of one unit that was applied without error: every setting is settled, by calls in
  the planned order, only needed ones, and none of them failed.
\<close>

definition unit_settled :: "unit_event list \<Rightarrow> UnitSpec \<Rightarrow> bool" where
  "unit_settled evs u \<longleftrightarrow> subseq (made evs) (unit_plan u) \<and> (\<forall>k\<in>set (made evs). needed evs k) \<and>
     \<not> failed_call evs \<and> (\<forall>k\<in>set (unit_plan u). settled evs k)"

lemma apply_units_ok:
  assumes "systemd_history c log"
    and "apply_units ctx c r0 us s = (r, s')" and "ar_Error r = None" and "ar_Error r0 = None"
  shows "(\<exists>evss. log s' = log s @ concat evss \<and> list_all2 unit_settled evss us \<and>
      (ar_UnitsApplied r = ar_UnitsApplied r0 \<longrightarrow> made (concat evss) = [])) \<and>
    ar_UnitsApplied r + ar_UnitsSkipped r = ar_UnitsApplied r0 + ar_UnitsSkipped r0 + length us \<and>
    ar_UnitsApplied r0 \<le> ar_UnitsApplied r \<and>
    ar_FilesApplied r = ar_FilesApplied r0 \<and> ar_FilesSkipped r = ar_FilesSkipped r0"
  using assms(2-4)
proof (induction us arbitrary: r0 s)
  case Nil
  then show ?case by (intro conjI exI [of _ "[]"]) simp_all
next
  case (Cons u us)
  obtain ur s1 where ur: "ApplyUnit c u s = (ur, s1)" by fastforce
  have ok: "ctx s = None" "ur_Error ur = None"
    using Cons.prems ur by (auto split: option.splits)
  define r1 where "r1 = (if ur_Applied ur then r0\<lparr>ar_UnitsApplied := ar_UnitsApplied r0 + 1\<rparr>
                       else r0\<lparr>ar_UnitsSkipped := ar_UnitsSkipped r0 + 1\<rparr>)"
  have run: "apply_units ctx c r1 us s1 = (r, s')" "ar_Error r1 = None"
    using Cons.prems ur ok by (auto simp: r1_def)
  note IH = Cons.IH [OF run(1) Cons.prems(2) run(2)]
  have n: "ar_UnitsApplied r1 = ar_UnitsApplied r0 + (if ur_Applied ur then 1 else 0)"
    "ar_UnitsSkipped r1 = ar_UnitsSkipped r0 + (if ur_Applied ur then 0 else 1)"
    "ar_FilesApplied r1 = ar_FilesApplied r0" "ar_FilesSkipped r1 = ar_FilesSkipped r0"
    by (simp_all add: r1_def)
  obtain evss where evss: "log s' = log s1 @ concat evss"
    "list_all2 unit_settled evss us"
    "ar_UnitsApplied r = ar_UnitsApplied r1 \<longrightarrow> made (concat evss) = []"
    using IH by blast
  obtain cs where cs: "log s1 = log s @ cs" "unit_settled cs u" "ur_Applied ur = (made cs \<noteq> [])"
    using ApplyUnit_log [OF assms(1) ur] ok unfolding unit_settled_def by blast
  have "log s' = log s @ concat (cs # evss)" using evss(1) cs(1) by simp
  moreover have "list_all2 unit_settled (cs # evss) (u # us)"
    using evss(2) cs(2) by simp
  moreover have "made (concat (cs # evss)) = []" if "ar_UnitsApplied r = ar_UnitsApplied r0"
  proof -
    have "\<not> ur_Applied ur" "ar_UnitsApplied r = ar_UnitsApplied r1"
      using that IH n(1) by (cases "ur_Applied ur"; simp)+
    then show ?thesis using evss(3) cs(3) by simp
  qed
  ultimately have "\<exists>evss. log s' = log s @ concat evss \<and>
      list_all2 unit_settled evss (u # us) \<and>
      (ar_UnitsApplied r = ar_UnitsApplied r0 \<longrightarrow> made (concat evss) = [])" by blast
  moreover have "ar_UnitsApplied r + ar_UnitsSkipped r = ar_UnitsApplied r0 + ar_UnitsSkipped r0 + length (u # us)"
    "ar_UnitsApplied r0 \<le> ar_UnitsApplied r"
    using IH n by (cases "ur_Applied ur"; simp)+
  ultimately show ?case
    using IH n by simp
qed

section \<open>What a successful apply means\<close>

text \<open>The specification's paths name different files of the host.\<close>

definition paths_distinct :: "FileApplier \<Rightarrow> RenderedConfig \<Rightarrow> bool" where
  "paths_distinct a config \<longleftrightarrow> distinct (map (host_path a) (rc_Files config))"

abbreviation config_units :: "RenderedConfig \<Rightarrow> UnitSpec list" where
  "config_units config \<equiv> systemd_Units (rc_Systemd config)"

text \<open>The state between the two loops of \<open>Apply\<close>: every file was handled, no unit yet.\<close>

abbreviation after_files :: "('s \<Rightarrow> go_error option) \<Rightarrow> 's FileOperations \<Rightarrow> RenderedConfig \<Rightarrow> 's \<Rightarrow> 's" where
  "after_files ctx fo config s \<equiv> snd (apply_files ctx fo empty_result (sortFilesByPath (rc_Files config)) s)"

lemma Apply_success_parts:
  assumes "host_fs h files temps" and "systemd_history c log"
    and "Apply ctx \<lparr>ap_files = file_operations a h, ap_systemd = c\<rparr> config s = (r, s')"
    and "ar_Error r = None" and "paths_distinct a config"
    and "mid = after_files ctx (file_operations a h) config s"
  shows "\<exists>evss. (\<forall>f\<in>set (rc_Files config). file_holds (files mid) a f) \<and>
      (\<forall>q. q \<notin> host_path a ` set (rc_Files config) \<longrightarrow> files mid q = files s q) \<and>
      log s' = log mid @ concat evss \<and>
      list_all2 unit_settled evss (sortUnitsByName (config_units config)) \<and>
      (ar_FilesApplied r = 0 \<longrightarrow> files mid = files s) \<and> (ar_UnitsApplied r = 0 \<longrightarrow> made (concat evss) = [])"
    and "ar_Success r" "ar_FilesApplied r + ar_FilesSkipped r = length (rc_Files config)"
      "ar_UnitsApplied r + ar_UnitsSkipped r = length (config_units config)"
proof -
  let ?fs = "sortFilesByPath (rc_Files config)" and ?us = "sortUnitsByName (config_units config)"
  obtain r1 where fs: "apply_files ctx (file_operations a h) empty_result ?fs s = (r1, mid)"
    unfolding assms(6) by (metis prod.collapse)
  obtain r2 s2 where us: "apply_units ctx c r1 ?us mid = (r2, s2)" by fastforce
  have ok: "ar_Error r1 = None" "ar_Error r2 = None" "r = r2\<lparr>ar_Success := True\<rparr>" "s' = s2"
    using assms(3,4) fs us by (auto simp: Apply_def split: if_splits)
  have e0: "ar_Error empty_result = None" and z: "ar_FilesApplied empty_result = 0"
    "ar_FilesSkipped empty_result = 0" "ar_UnitsApplied empty_result = 0" "ar_UnitsSkipped empty_result = 0"
    by (simp_all add: empty_result_def)
  have d: "distinct (map (host_path a) ?fs)"
    using assms(5) unfolding paths_distinct_def sortFilesByPath_def distinct_map_sort_slice .
  note F = apply_files_ok [OF assms(1) fs ok(1) e0 d]
  note U = apply_units_ok [OF assms(2) us ok(2,1)]
  have set: "set ?fs = set (rc_Files config)" "length ?fs = length (rc_Files config)"
    "length ?us = length (config_units config)"
    by (simp_all add: sortFilesByPath_def sortUnitsByName_def)
  obtain evss where evss: "log s2 = log mid @ concat evss"
    "list_all2 unit_settled evss ?us"
    "ar_UnitsApplied r2 = ar_UnitsApplied r1 \<longrightarrow> made (concat evss) = []"
    using U by blast
  show "\<exists>evss. (\<forall>f\<in>set (rc_Files config). file_holds (files mid) a f) \<and>
      (\<forall>q. q \<notin> host_path a ` set (rc_Files config) \<longrightarrow> files mid q = files s q) \<and>
      log s' = log mid @ concat evss \<and>
      list_all2 unit_settled evss ?us \<and>
      (ar_FilesApplied r = 0 \<longrightarrow> files mid = files s) \<and> (ar_UnitsApplied r = 0 \<longrightarrow> made (concat evss) = [])"
    by (intro exI [of _ evss]) (use F U evss ok set z in auto)
  show "ar_Success r" "ar_FilesApplied r + ar_FilesSkipped r = length (rc_Files config)"
      "ar_UnitsApplied r + ar_UnitsSkipped r = length (config_units config)"
    using F U ok set z by simp_all
qed

lemma sortUnitsByName_sorted:
  "sorted (map unit_Name (sortUnitsByName us))" "mset (sortUnitsByName us) = mset us"
proof -
  have "sortUnitsByName us = sort_key unit_Name us"
    unfolding sortUnitsByName_def by (rule sort_slice_key) simp
  then show "sorted (map unit_Name (sortUnitsByName us))" by simp
  show "mset (sortUnitsByName us) = mset us" by (simp add: sortUnitsByName_def)
qed


section \<open>A node in memory\<close>

text \<open>A disk, a table of units, the node's annotations, the rendered configurations and a counter of reboots.\<close>

record box =
  bx_disk :: disk
  bx_units :: unit_table
  bx_ann :: "string \<rightharpoonup> string"
  bx_rmcs :: "string \<rightharpoonup> RenderedMachineConfig"
  bx_reboots :: nat

abbreviation box_host :: "box host" where
  "box_host \<equiv> disk_host bx_disk (\<lambda>d s. s\<lparr>bx_disk := d\<rparr>)"

abbreviation box_systemd :: "box systemd_conn" where
  "box_systemd \<equiv> mem_systemd bx_units (\<lambda>t s. s\<lparr>bx_units := t\<rparr>)"

interpretation box_fs: readable_fs box_host "\<lambda>s. dk_files (bx_disk s)" "\<lambda>s. dk_temps (bx_disk s)"
  by (rule disk_readable) simp

interpretation box_units: systemd_history box_systemd "\<lambda>s. ut_log (bx_units s)"
  by (rule mem_systemd_history) simp

definition ex_box :: box where
  "ex_box = \<lparr>bx_disk = ex_disk, bx_units = ex_units, bx_ann = Map.empty, bx_rmcs = Map.empty, bx_reboots = 0\<rparr>"

definition ex_config :: RenderedConfig where
  "ex_config = \<lparr>rc_Files = [ex_file ''ho''], rc_Systemd = \<lparr>systemd_Units = [ex_started]\<rparr>\<rparr>"

abbreviation ex_apply :: "ApplyResult \<times> box" where
  "ex_apply \<equiv> Apply (\<lambda>s. None)
     \<lparr>ap_files = file_operations (NewFileApplier ''/host'') box_host, ap_systemd = box_systemd\<rparr> ex_config ex_box"

lemma ex_apply_ok: "fst ex_apply = \<lparr>ar_Success = True, ar_Error = None, ar_FilesApplied = 1, ar_FilesSkipped = 0,
   ar_UnitsApplied = 1, ar_UnitsSkipped = 0\<rparr>"
  by (simp add: apply_defs ex_config_def ex_box_def ex_disk_def ex_units_def ex_file_def ex_started_def
      files_defs systemd_defs path_defs strings_defs disk_host_def mem_systemd_def issue_def inspect_def Let_def strconv_defs)


end
