(* ===== verification/Go_Quote.thy ===== *)
theory Go_Quote
  imports Go_JSON
begin

text \<open>
  The verb \<open>%q\<close> of package \<open>fmt\<close> (\<open>strconv.Quote\<close>) and the strings of JSON text. The agent
  writes JSON patches with \<open>%q\<close>; the two notations agree on most strings and not on all, and
  \<open>scan_go_quote\<close> says on which. Which runes outside ASCII are printable is Unicode's table and a
  parameter \<open>isprint\<close> over the bytes of the rune.
\<close>

section \<open>strconv.Quote\<close>

definition code_point :: "string \<Rightarrow> nat" where
  "code_point r =
     (case map byte r of
        [a, b] \<Rightarrow> (a - 192) * 64 + (b - 128)
      | [a, b, c] \<Rightarrow> (a - 224) * 4096 + (b - 128) * 64 + (c - 128)
      | [a, b, c, d] \<Rightarrow> (a - 240) * 262144 + (b - 128) * 4096 + (c - 128) * 64 + (d - 128)
      | _ \<Rightarrow> 0)"

fun hex_text :: "nat \<Rightarrow> nat \<Rightarrow> string" where
  "hex_text 0 n = []"
| "hex_text (Suc k) n = hex_text k (n div 16) @ [hex (n mod 16)]"

definition q_letter :: "char \<Rightarrow> char option" where
  "q_letter c =
     (if c = CHR 0x07 then Some (CHR ''a'')
      else if c = CHR 0x08 then Some (CHR ''b'')
      else if c = CHR 0x0C then Some (CHR ''f'')
      else if c = CHR 0x0A then Some (CHR ''n'')
      else if c = CHR 0x0D then Some (CHR ''r'')
      else if c = CHR 0x09 then Some (CHR ''t'')
      else if c = CHR 0x0B then Some (CHR ''v'')
      else None)"

definition q_ascii :: "char \<Rightarrow> string" where
  "q_ascii c =
     (if c = quote \<or> c = backslash then [backslash, c]
      else if 32 \<le> byte c \<and> byte c < 127 then [c]
      else case q_letter c of
        Some e \<Rightarrow> [backslash, e]
      | None \<Rightarrow> backslash # CHR ''x'' # hex_text 2 (byte c))"

definition q_rune :: "(string \<Rightarrow> bool) \<Rightarrow> string \<Rightarrow> string" where
  "q_rune isprint r =
     (if isprint r then r
      else if code_point r < 65536 then backslash # CHR ''u'' # hex_text 4 (code_point r)
      else backslash # CHR ''U'' # hex_text 8 (code_point r))"

function (sequential) q_chars :: "(string \<Rightarrow> bool) \<Rightarrow> string \<Rightarrow> string" where
  "q_chars isprint [] = []"
| "q_chars isprint (c # s) =
     (if byte c < 128 then q_ascii c @ q_chars isprint s
      else let k = rune_width (c # s) in
           if k = 0 then (backslash # CHR ''x'' # hex_text 2 (byte c)) @ q_chars isprint s
           else q_rune isprint (take k (c # s)) @ q_chars isprint (drop k (c # s)))"
  by pat_completeness auto
termination
  by (relation "measure (length \<circ> snd)") auto

declare q_chars.simps(2) [simp del]

definition go_quote :: "(string \<Rightarrow> bool) \<Rightarrow> string \<Rightarrow> string" where
  "go_quote isprint s = quote # q_chars isprint s @ [quote]"

section \<open>JSON strings\<close>

definition hex_val :: "char \<Rightarrow> nat option" where
  "hex_val c =
     (if c \<in> set ''0123456789abcdef'' then Some (unhex c)
      else if c \<in> set ''ABCDEF'' then Some (10 + length (takeWhile (\<lambda>d. d \<noteq> c) ''ABCDEF''))
      else None)"

fun hex_quad :: "string \<Rightarrow> (nat \<times> string) option" where
  "hex_quad (a # b # c # d # s) =
     (case (hex_val a, hex_val b, hex_val c, hex_val d) of
        (Some w, Some x, Some y, Some z) \<Rightarrow> Some (((w * 16 + x) * 16 + y) * 16 + z, s)
      | _ \<Rightarrow> None)"
| "hex_quad s = None"

definition utf8_of :: "nat \<Rightarrow> string" where
  "utf8_of n =
     map char_of
       (if n < 128 then [n]
        else if n < 2048 then [192 + n div 64, 128 + n mod 64]
        else if n < 65536 then [224 + n div 4096, 128 + n div 64 mod 64, 128 + n mod 64]
        else [240 + n div 262144, 128 + n div 4096 mod 64, 128 + n div 64 mod 64, 128 + n mod 64])"

definition replacement :: string where "replacement = [CHR 0xEF, CHR 0xBF, CHR 0xBD]"

text \<open>
  The text after \<open>\u\<close>: a code unit, with the second unit of a surrogate pair; a lone surrogate
  reads as the replacement character.
\<close>

definition read_unicode :: "string \<Rightarrow> (string \<times> string) option" where
  "read_unicode s =
     (case hex_quad s of
        None \<Rightarrow> None
      | Some (u, r) \<Rightarrow>
          if u < 55296 \<or> 57343 < u then Some (utf8_of u, r)
          else if 56319 < u then Some (replacement, r)
          else if take 2 r = [backslash, CHR ''u''] then
            (case hex_quad (drop 2 r) of
               Some (v, r') \<Rightarrow>
                 if 56320 \<le> v \<and> v \<le> 57343
                 then Some (utf8_of (65536 + (u - 55296) * 1024 + (v - 56320)), r')
                 else Some (replacement, r)
             | None \<Rightarrow> Some (replacement, r))
          else Some (replacement, r))"

definition json_escape :: "char \<Rightarrow> char option" where
  "json_escape e =
     (if e = quote \<or> e = backslash \<or> e = CHR ''/'' then Some e
      else if e = CHR ''b'' then Some (CHR 0x08)
      else if e = CHR ''f'' then Some (CHR 0x0C)
      else if e = CHR ''n'' then Some (CHR 0x0A)
      else if e = CHR ''r'' then Some (CHR 0x0D)
      else if e = CHR ''t'' then Some (CHR 0x09)
      else None)"

lemma hex_quad_shorter: "hex_quad s = Some (u, r) \<Longrightarrow> length r < length s"
  by (induction s rule: hex_quad.induct) (auto split: option.splits)

lemma read_unicode_shorter: "read_unicode s = Some (b, r) \<Longrightarrow> length r < length s"
  by (auto simp: read_unicode_def split: option.splits if_splits prod.splits dest!: hex_quad_shorter)

text \<open>
  The characters of a string literal after its opening quote, up to and without the closing
  one, and the text behind it. Control characters and unknown escapes are not JSON.
\<close>

function (sequential) scan :: "string \<Rightarrow> (string \<times> string) option" where
  "scan [] = None"
| "scan (c # s) =
     (if c = quote then Some ([], s)
      else if c = backslash then
        (case s of
           [] \<Rightarrow> None
         | e # s1 \<Rightarrow>
             if e = CHR ''u'' then
               (case read_unicode s1 of None \<Rightarrow> None | Some (b, r) \<Rightarrow> cons_read b (scan r))
             else (case json_escape e of None \<Rightarrow> None | Some x \<Rightarrow> cons_read [x] (scan s1)))
      else if byte c < 32 then None
      else if byte c < 128 then cons_read [c] (scan s)
      else let k = rune_width (c # s) in
           if k = 0 then cons_read replacement (scan s)
           else cons_read (take k (c # s)) (scan (drop k (c # s))))"
  by pat_completeness auto
termination
  by (relation "measure length") (auto dest!: read_unicode_shorter)

declare scan.simps(2) [simp del]

lemmas quote_eval [mco_eval] =
  code_point_def q_letter_def q_ascii_def q_rune_def q_chars.simps(2) go_quote_def hex_val_def
  utf8_of_def replacement_def read_unicode_def json_escape_def scan.simps(2)

section \<open>Where the two agree\<close>

text \<open>The ASCII characters that \<open>%q\<close> writes in a way JSON can read.\<close>

definition json_plain :: "char \<Rightarrow> bool" where
  "json_plain c \<longleftrightarrow> 32 \<le> byte c \<and> byte c < 127 \<or>
     c = CHR 0x08 \<or> c = CHR 0x0C \<or> c = CHR 0x0A \<or> c = CHR 0x0D \<or> c = CHR 0x09"

function (sequential) json_safe :: "(string \<Rightarrow> bool) \<Rightarrow> string \<Rightarrow> bool" where
  "json_safe isprint [] = True"
| "json_safe isprint (c # s) =
     (if byte c < 128 then json_plain c \<and> json_safe isprint s
      else let k = rune_width (c # s) in
           if k = 0 then False
           else (isprint (take k (c # s)) \<or> code_point (take k (c # s)) < 65536) \<and>
             json_safe isprint (drop k (c # s)))"
  by pat_completeness auto
termination
  by (relation "measure (length \<circ> snd)") auto

declare json_safe.simps(2) [simp del]

lemma json_safe_ascii:
  "list_all (\<lambda>c. 32 \<le> byte c \<and> byte c < 127) s \<Longrightarrow> json_safe isprint s"
  by (induction s) (auto simp: json_safe.simps(2) json_plain_def)

lemma scan_plain:
  "c \<noteq> quote \<Longrightarrow> c \<noteq> backslash \<Longrightarrow> 32 \<le> byte c \<Longrightarrow> byte c < 128 \<Longrightarrow> scan (c # s) = cons_read [c] (scan s)"
  by (simp add: scan.simps)

lemma scan_escape:
  "e \<noteq> CHR ''u'' \<Longrightarrow> scan (backslash # e # s) = (case json_escape e of
     None \<Rightarrow> None | Some x \<Rightarrow> cons_read [x] (scan s))"
  by (simp add: scan.simps quote_def backslash_def)

lemma scan_unicode:
  "scan (backslash # CHR ''u'' # s) = (case read_unicode s of
     None \<Rightarrow> None | Some (b, r) \<Rightarrow> cons_read b (scan r))"
  by (simp add: scan.simps quote_def backslash_def)

lemma byte_eq: "byte c = n \<Longrightarrow> n < 256 \<Longrightarrow> c = char_of n"
  by (metis char_of_char)

lemma json_escape_x: "json_escape (CHR ''x'') = None" "json_escape (CHR ''U'') = None"
  by (simp_all add: json_escape_def quote_def backslash_def)

lemma scan_q_ascii:
  assumes "byte c < 128"
  shows "scan (q_ascii c @ t) = (if json_plain c then cons_read [c] (scan t) else None)"
proof (cases "c = quote \<or> c = backslash")
  case True
  then have "json_escape c = Some c" by (elim disjE) (simp_all add: json_escape_def)
  moreover have "c \<noteq> CHR ''u''" "json_plain c"
    using True by (elim disjE; simp add: json_plain_def quote_def backslash_def)+
  moreover have "q_ascii c @ t = backslash # c # t"
    using True by (auto simp: q_ascii_def)
  ultimately show ?thesis by (simp add: scan_escape)
next
  case False
  show ?thesis
  proof (cases "32 \<le> byte c \<and> byte c < 127")
    case True
    then show ?thesis using False by (simp add: q_ascii_def scan_plain json_plain_def)
  next
    case other: False
    show ?thesis
    proof (cases "q_letter c")
      case None
      then have "\<not> json_plain c" using other by (auto simp: json_plain_def q_letter_def)
      then show ?thesis using False other None
        by (auto simp add: q_ascii_def scan_escape json_escape_x)
    next
      case (Some e)
      then have "e \<noteq> CHR ''u''" "json_escape e = (if json_plain c then Some c else None)"
        by (auto simp: json_escape_def json_plain_def q_letter_def quote_def backslash_def
            split: if_splits)
      then show ?thesis using False other Some by (auto simp add: q_ascii_def scan_escape)
    qed
  qed
qed

lemma hex_val_hex: "n < 16 \<Longrightarrow> hex_val (hex n) = Some n"
proof -
  assume n: "n < 16"
  then have "hex n \<in> set ''0123456789abcdef''"
    unfolding hex_def by (intro nth_mem) simp
  then show ?thesis using n by (simp add: hex_val_def)
qed

lemma hex_text4:
  "hex_text 4 n = [hex (n div 16 div 16 div 16 mod 16), hex (n div 16 div 16 mod 16), hex (n div 16 mod 16), hex (n mod 16)]"
proof -
  have "(4::nat) = Suc (Suc (Suc (Suc 0)))" by simp
  then show ?thesis by (simp only: hex_text.simps append.simps)
qed

lemma hex_quad_text: "n < 65536 \<Longrightarrow> hex_quad (hex_text 4 n @ t) = Some (n, t)"
proof -
  assume n: "n < 65536"
  then have "n div 16 div 16 div 16 < 16"
    by (simp add: less_mult_imp_div_less)
  then have top: "n div 16 div 16 div 16 mod 16 = n div 16 div 16 div 16" by simp
  have sum: "((n div 16 div 16 div 16 * 16 + n div 16 div 16 mod 16) * 16 + n div 16 mod 16) * 16 + n mod 16 = n"
    by (metis div_mult_mod_eq)
  have h: "hex_val (hex (m mod 16)) = Some (m mod 16)" for m
    by (rule hex_val_hex) simp
  have "hex_quad (hex_text 4 n @ t) =
      Some (((n div 16 div 16 div 16 mod 16 * 16 + n div 16 div 16 mod 16) * 16 + n div 16 mod 16) * 16 + n mod 16, t)"
    unfolding hex_text4 append.simps hex_quad.simps h option.case prod.case ..
  then show ?thesis unfolding top sum .
qed

text \<open>A valid rune of at most three bytes is the encoding of its code point, which is no surrogate.\<close>

lemma base64_digits:
  fixes x y z :: nat
  assumes "y < 64" "z < 64"
  shows "(x * 64 + z) div 64 = x" "(x * 64 + z) mod 64 = z"
    "(x * 4096 + y * 64 + z) div 4096 = x" "(x * 4096 + y * 64 + z) div 64 mod 64 = y"
    "(x * 4096 + y * 64 + z) mod 64 = z"
proof -
  have n: "x * 4096 + y * 64 + z = (x * 64 + y) * 64 + z" by simp
  show "(x * 64 + z) div 64 = x" "(x * 64 + z) mod 64 = z" using assms by simp_all
  have "((x * 64 + y) * 64 + z) div 64 = x * 64 + y" using assms by simp
  then show "(x * 4096 + y * 64 + z) div 64 mod 64 = y" unfolding n using assms by simp
  have "((x * 64 + y) * 64 + z) mod 64 = z" using assms by (simp only: mod_mult_self3 mod_less)
  then show "(x * 4096 + y * 64 + z) mod 64 = z" unfolding n .
  show "(x * 4096 + y * 64 + z) div 4096 = x" using assms by simp
qed

lemma rune2:
  assumes "194 \<le> a" "a \<le> 223" "128 \<le> b" "b < (192::nat)"
  shows "utf8_of ((a - 192) * 64 + (b - 128)) = [char_of a, char_of b]"
    "(a - 192) * 64 + (b - 128) < 2048"
proof -
  let ?n = "(a - 192) * 64 + (b - 128)"
  have b: "b - 128 < 64" using assms by simp
  have "128 \<le> ?n" using assms by linarith
  moreover show "?n < 2048" using assms by linarith
  ultimately show "utf8_of ?n = [char_of a, char_of b]"
    using base64_digits(1,2) [OF b b, of "a - 192"] assms by (simp add: utf8_of_def)
qed

lemma rune3:
  assumes "224 \<le> a" "a \<le> 239" "second_ok a b" "128 \<le> c" "c < (192::nat)"
  shows "utf8_of ((a - 224) * 4096 + (b - 128) * 64 + (c - 128)) = [char_of a, char_of b, char_of c]" (is "utf8_of ?n = _")
    and "(a - 224) * 4096 + (b - 128) * 64 + (c - 128) < 55296 \<or>
      57343 < (a - 224) * 4096 + (b - 128) * 64 + (c - 128)"
proof -
  have b: "128 \<le> b" "b < 192" and lo: "a = 224 \<Longrightarrow> 160 \<le> b" and sur: "a = 237 \<Longrightarrow> b < 160"
    using assms(3) by (auto split: if_splits)
  have bc: "b - 128 < 64" "c - 128 < 64" using b assms by simp_all
  have "2048 \<le> ?n"
  proof (cases "a = 224")
    case True
    then show ?thesis using lo by simp
  next
    case False
    then show ?thesis using assms(1) by linarith
  qed
  moreover have "?n < 65536" using bc assms(2) by linarith
  ultimately show "utf8_of ?n = [char_of a, char_of b, char_of c]"
    using base64_digits(3-5) [OF bc, of "a - 224"] b assms(1,4) by (simp add: utf8_of_def)
  show "?n < 55296 \<or> 57343 < ?n"
  proof (cases "a = 237")
    case True
    then have "b - 128 < 32" "a - 224 = 13" using sur by simp_all
    then show ?thesis using bc(2) by linarith
  next
    case False
    then consider "a - 224 \<le> 12" | "14 \<le> a - 224" using assms(1) by linarith
    then show ?thesis using bc by cases linarith+
  qed
qed

lemma rune4:
  assumes "240 \<le> a" "second_ok a (b::nat)"
  shows "65536 \<le> (a - 240) * 262144 + (b - 128) * 4096 + (c - 128) * 64 + (d - 128)"
proof (cases "a = 240")
  case True
  then show ?thesis using assms by simp linarith
next
  case False
  then show ?thesis using assms(1) by linarith
qed

lemma rune_decode:
  assumes "128 \<le> byte c" and "rune_width (c # s) = k" "k \<noteq> 0"
    and "code_point (take k (c # s)) < 65536"
  shows "utf8_of (code_point (take k (c # s))) = take k (c # s) \<and>
    (code_point (take k (c # s)) < 55296 \<or> 57343 < code_point (take k (c # s)))"
proof (cases s)
  case Nil
  then show ?thesis using assms by simp
next
  case (Cons c1 s1)
  let ?a = "byte c" and ?b = "byte c1"
  have w: "second_ok ?a ?b" using assms(2,3) by (auto simp: Cons Let_def split: if_splits)
  consider (two) "194 \<le> ?a" "?a \<le> 223" "k = 2"
    | (three) "224 \<le> ?a" "?a \<le> 239" "k = 3" "1 \<le> length s1" "cont_byte (s1 ! 0)"
    | (four) "240 \<le> ?a" "k = 4" "2 \<le> length s1"
    using assms(2,3) by (auto simp: Cons Let_def split: if_splits)
  then show ?thesis
  proof cases
    case two
    have b: "128 \<le> ?b" "?b < 192" using w two by (auto split: if_splits)
    show ?thesis
      using rune2 [OF two(1,2) b] by (simp add: Cons two(3) code_point_def)
  next
    case three
    then obtain c2 s2 where s1: "s1 = c2 # s2" by (cases s1) auto
    have "128 \<le> byte c2" "byte c2 < 192" using three(5) by (auto simp: s1 cont_byte_def)
    then show ?thesis
      using rune3 [OF three(1,2) w] by (simp add: Cons s1 three(3) code_point_def)
  next
    case four
    then obtain c2 c3 s3 where s1: "s1 = c2 # c3 # s3"
      by (metis One_nat_def Suc_1 Suc_le_length_iff)
    then show ?thesis
      using rune4 [OF four(1) w, of "byte c2" "byte c3"] assms(4)
      by (simp add: Cons four(2) code_point_def)
  qed
qed

lemma rune_width_take:
  "rune_width s = k \<Longrightarrow> k \<noteq> 0 \<Longrightarrow> rune_width (take k s @ t) = k"
proof (induction s rule: rune_width.induct)
  case (1 c0 c1 s)
  then show ?case
    by (cases s; cases "tl s") (auto simp: Let_def split: if_splits)
qed auto

lemma scan_q_rune:
  assumes "128 \<le> byte c" and "rune_width (c # s) = k" "k \<noteq> 0" and "r = take k (c # s)"
  shows "scan (q_rune isprint r @ t) =
    (if isprint r \<or> code_point r < 65536 then cons_read r (scan t) else None)"
proof (cases "isprint r")
  case True
  have len: "length r = k" using rune_width_bound [of "c # s"] assms by (simp add: min_def)
  obtain r' where r: "r = c # r'" using assms(3,4) by (cases k) auto
  have "rune_width (r @ t) = k"
    unfolding assms(4) by (rule rune_width_take [OF assms(2,3)])
  then have "scan (r @ t) = cons_read (take k (r @ t)) (scan (drop k (r @ t)))"
    using assms(1,3) high_byte [OF assms(1)] by (simp add: r scan.simps(2) Let_def)
  then show ?thesis using True len by (simp add: q_rune_def)
next
  case False
  show ?thesis
  proof (cases "code_point r < 65536")
    case cp: True
    have "read_unicode (hex_text 4 (code_point r) @ t) = Some (r, t)"
      using rune_decode [OF assms(1-3)] cp assms(4)
      by (auto simp: read_unicode_def hex_quad_text)
    then show ?thesis using False cp by (simp add: q_rune_def scan_unicode)
  next
    case cp: False
    then show ?thesis using False by (simp add: q_rune_def scan_escape json_escape_x)
  qed
qed

text \<open>
  Reading a quoted string back as JSON gives the string itself where it is safe, and fails
  everywhere else.
\<close>

lemma scan_q_chars:
  "scan (q_chars isprint s @ quote # t) = (if json_safe isprint s then Some (s, t) else None)"
proof (induction isprint s rule: q_chars.induct)
  case (1 isprint)
  then show ?case by (simp add: scan.simps)
next
  case (2 isprint c s)
  show ?case
  proof (cases "byte c < 128")
    case True
    then show ?thesis
      using 2(1) by (simp add: q_chars.simps json_safe.simps scan_q_ascii)
  next
    case False
    define k where "k = rune_width (c # s)"
    show ?thesis
    proof (cases "k = 0")
      case True
      then show ?thesis
        using False by (simp add: q_chars.simps json_safe.simps scan_escape json_escape_x Let_def flip: k_def)
    next
      case nz: False
      have IH: "scan (q_chars isprint (drop k (c # s)) @ quote # t) =
          (if json_safe isprint (drop k (c # s)) then Some (drop k (c # s), t) else None)"
        using 2(3) [OF False k_def nz] .
      have "q_chars isprint (c # s) = q_rune isprint (take k (c # s)) @ q_chars isprint (drop k (c # s))"
        using False nz by (simp only: q_chars.simps Let_def if_False flip: k_def)
      moreover have "json_safe isprint (c # s) \<longleftrightarrow>
          (isprint (take k (c # s)) \<or> code_point (take k (c # s)) < 65536) \<and> json_safe isprint (drop k (c # s))"
        using False nz by (simp only: json_safe.simps Let_def if_False flip: k_def)
      ultimately show ?thesis
        using scan_q_rune [of c s k "take k (c # s)" isprint "q_chars isprint (drop k (c # s)) @ quote # t"]
          False nz IH k_def by (simp add: append_take_drop_id del: take_Cons' drop_Cons')
    qed
  qed
qed

end
