(* ===== verification/Node_Writer.thy ===== *)
theory Node_Writer
  imports In_Memory_API Go_Quote
begin

text \<open>
  The agent's writer of node annotations, \<open>internal/agent/nodewriter.go\<close>. Every operation
  builds the text of a JSON merge patch with \<open>fmt.Sprintf\<close> and \<open>%q\<close> and sends it under
  \<open>retry.RetryOnConflict\<close>. The Kubernetes client is the struct's field: the functions that
  patch a node and that retry. What the API server does with a patch is stated in the locale
  \<open>node_patch_api\<close>: it reads the text as JSON and, if it is, merges the annotations.
\<close>

section \<open>nodewriter.go\<close>

record 's NodeWriter =
  nw_nodeName :: string
  nw_PatchNode :: "'s \<Rightarrow> string \<Rightarrow> string \<Rightarrow> go_error option \<times> 's"
  nw_RetryOnConflict :: "('s \<Rightarrow> go_error option \<times> 's) \<Rightarrow> 's \<Rightarrow> go_error option \<times> 's"
  nw_isprint :: "string \<Rightarrow> bool"

abbreviation Q :: "'s NodeWriter \<Rightarrow> string \<Rightarrow> string" where
  "Q w \<equiv> go_quote (nw_isprint w)"

text \<open>The constant beginning and end of the patches: the two outer objects.\<close>

definition patch_open :: string where
  "patch_open = ''{'' @ [quote] @ ''metadata'' @ [quote] @ '':{'' @
     [quote] @ ''annotations'' @ [quote] @ '':{''"

definition patch_close :: string where "patch_close = ''}}}''"

definition patch :: "'s NodeWriter \<Rightarrow> string \<Rightarrow> 's \<Rightarrow> go_error option \<times> 's" where
  "patch w patchData s =
     nw_RetryOnConflict w (\<lambda>s. nw_PatchNode w s (nw_nodeName w) patchData) s"

definition patchAnnotation :: "'s NodeWriter \<Rightarrow> string \<Rightarrow> string \<Rightarrow> 's \<Rightarrow> go_error option \<times> 's" where
  "patchAnnotation w key value s =
     patch w (patch_open @ Q w key @ '':'' @ Q w value @ patch_close) s"

definition removeAnnotation :: "'s NodeWriter \<Rightarrow> string \<Rightarrow> 's \<Rightarrow> go_error option \<times> 's" where
  "removeAnnotation w key s = patch w (patch_open @ Q w key @ '':null'' @ patch_close) s"

definition SetState :: "'s NodeWriter \<Rightarrow> string \<Rightarrow> 's \<Rightarrow> go_error option \<times> 's" where
  "SetState w state s = patchAnnotation w AgentState state s"

definition SetCurrentRevision :: "'s NodeWriter \<Rightarrow> string \<Rightarrow> 's \<Rightarrow> go_error option \<times> 's" where
  "SetCurrentRevision w revision s = patchAnnotation w CurrentRevision revision s"

definition SetLastError :: "'s NodeWriter \<Rightarrow> string \<Rightarrow> 's \<Rightarrow> go_error option \<times> 's" where
  "SetLastError w errMsg s = patchAnnotation w LastError errMsg s"

definition ClearLastError :: "'s NodeWriter \<Rightarrow> 's \<Rightarrow> go_error option \<times> 's" where
  "ClearLastError w s = removeAnnotation w LastError s"

definition SetRebootPending :: "'s NodeWriter \<Rightarrow> bool \<Rightarrow> 's \<Rightarrow> go_error option \<times> 's" where
  "SetRebootPending w pending s =
     (if pending then patchAnnotation w RebootPending ''true'' s
      else removeAnnotation w RebootPending s)"

definition ClearForceReboot :: "'s NodeWriter \<Rightarrow> 's \<Rightarrow> go_error option \<times> 's" where
  "ClearForceReboot w s = removeAnnotation w ForceReboot s"

definition SetStateWithError :: "'s NodeWriter \<Rightarrow> string \<Rightarrow> string \<Rightarrow> 's \<Rightarrow> go_error option \<times> 's" where
  "SetStateWithError w state errMsg s =
     patch w (patch_open @ Q w AgentState @ '':'' @ Q w state @ '','' @
              Q w LastError @ '':'' @ Q w errMsg @ patch_close) s"

definition SetDone :: "'s NodeWriter \<Rightarrow> string \<Rightarrow> 's \<Rightarrow> go_error option \<times> 's" where
  "SetDone w revision s =
     patch w (patch_open @ Q w AgentState @ '':'' @ Q w StateDone @ '','' @
              Q w CurrentRevision @ '':'' @ Q w revision @ patch_close) s"

lemmas writer_defs [mco_eval] =
  patch_open_def patch_close_def patch_def patchAnnotation_def removeAnnotation_def SetState_def
  SetCurrentRevision_def SetLastError_def ClearLastError_def SetRebootPending_def
  ClearForceReboot_def SetStateWithError_def SetDone_def

section \<open>Reading a patch\<close>

text \<open>
  The members of the annotations object, as JSON: a string, a colon, a string or \<open>null\<close>,
  separated by commas and closed by the braces that end the patch.
\<close>

definition read_value :: "string \<Rightarrow> (string option \<times> string) option" where
  "read_value s =
     (if take 4 s = ''null'' then Some (None, drop 4 s)
      else if s \<noteq> [] \<and> hd s = quote then map_option (apfst Some) (scan (tl s))
      else None)"

lemma scan_shorter: "scan s = Some (x, r) \<Longrightarrow> length r < length s"
proof (induction s arbitrary: x r rule: scan.induct)
  case (2 c s)
  show ?case
  proof (cases "c = quote")
    case True
    then show ?thesis using 2 by (simp add: scan.simps)
  next
    case nq: False
    show ?thesis
    proof (cases "c = backslash")
      case True
      then show ?thesis
        using 2(1,2,6) nq
        by (auto simp: scan.simps split: list.splits if_splits option.splits prod.splits)
          (fastforce dest: read_unicode_shorter)+
    next
      case False
      then show ?thesis
        using 2(3-6) nq
        by (auto simp: scan.simps Let_def split: if_splits) fastforce+
    qed
  qed
qed simp

lemma read_value_shorter: "read_value s = Some (v, r) \<Longrightarrow> length r < length s"
proof -
  assume v: "read_value s = Some (v, r)"
  show ?thesis
  proof (cases "take 4 s = ''null''")
    case True
    then have "length (take 4 s) = 4" by simp
    then have "4 \<le> length s" by simp
    then show ?thesis using v True by (auto simp: read_value_def)
  next
    case False
    then show ?thesis
      using v by (cases s) (auto simp: read_value_def split: if_splits dest: scan_shorter)
  qed
qed

function (sequential) read_members :: "string \<Rightarrow> (string \<times> string option) list option" where
  "read_members [] = None"
| "read_members (c # s) =
     (if c \<noteq> quote then None
      else case scan s of
        None \<Rightarrow> None
      | Some (k, r) \<Rightarrow>
          if r = [] \<or> hd r \<noteq> CHR '':'' then None
          else case read_value (tl r) of
            None \<Rightarrow> None
          | Some (v, r1) \<Rightarrow>
              if r1 = patch_close then Some [(k, v)]
              else if r1 \<noteq> [] \<and> hd r1 = CHR '','' then map_option ((#) (k, v)) (read_members (tl r1))
              else None)"
  by pat_completeness auto
termination
proof (relation "measure length")
  fix c s k r v r1 and x y :: "string \<times> string" and z :: "string option \<times> string"
  assume *: "scan s = Some x" "(k, r) = x" "\<not> (r = [] \<or> hd r \<noteq> CHR '':'')"
    "read_value (tl r) = Some z" "(v, r1) = z" "r1 \<noteq> [] \<and> hd r1 = CHR '',''"
  have "length r < length s" using * by (metis scan_shorter)
  moreover have "length r1 < length (tl r)" using * by (metis read_value_shorter)
  moreover have "length (tl r1) < length r1" using * by (cases r1) auto
  ultimately show "(tl r1, c # s) \<in> measure length" by simp
qed simp

declare read_members.simps(2) [simp del]

definition read_patch :: "string \<Rightarrow> (string \<times> string option) list option" where
  "read_patch s = (if HasPrefix s patch_open then read_members (drop (length patch_open) s) else None)"

definition merge_annotations :: "(string \<times> string option) list \<Rightarrow> annots \<Rightarrow> annots" where
  "merge_annotations kvs a = foldl (\<lambda>a (k, v). a(k := v)) a kvs"

lemma read_patch_open: "read_patch (patch_open @ s) = read_members s"
  by (simp add: read_patch_def HasPrefix_def)

lemma close_facts [simp]: "patch_close \<noteq> []" "hd patch_close \<noteq> CHR '',''" "patch_close \<noteq> CHR '','' # s"
  by (simp_all add: patch_close_def)

lemma go_quote_cons: "go_quote p k @ t = quote # q_chars p k @ quote # t"
  by (simp add: go_quote_def)

lemma read_value_quote:
  "read_value (go_quote p v @ t) = (if json_safe p v then Some (Some v, t) else None)"
proof -
  have "quote \<noteq> CHR ''n''" by (simp add: quote_def)
  then show ?thesis
    unfolding go_quote_cons by (simp add: read_value_def scan_q_chars)
qed

lemma read_members_quote:
  "read_members (go_quote p k @ CHR '':'' # t) =
     (if json_safe p k then
        (case read_value t of
           None \<Rightarrow> None
         | Some (v, r1) \<Rightarrow>
             if r1 = patch_close then Some [(k, v)]
             else if r1 \<noteq> [] \<and> hd r1 = CHR '','' then map_option ((#) (k, v)) (read_members (tl r1))
             else None)
      else None)"
  unfolding go_quote_cons by (simp add: read_members.simps(2) scan_q_chars)

lemma read_one:
  "read_patch (patch_open @ go_quote p k @ '':'' @ go_quote p v @ patch_close) =
     (if json_safe p k \<and> json_safe p v then Some [(k, Some v)] else None)"
  using read_members_quote [of p k "go_quote p v @ patch_close"]
  by (simp add: read_patch_open read_value_quote)

lemma read_removed:
  "read_patch (patch_open @ go_quote p k @ '':null'' @ patch_close) =
     (if json_safe p k then Some [(k, None)] else None)"
  using read_members_quote [of p k "''null'' @ patch_close"]
  by (simp add: read_patch_open read_value_def)

lemma read_two:
  "read_patch (patch_open @ go_quote p k @ '':'' @ go_quote p v @ '','' @ go_quote p k' @ '':'' @ go_quote p v' @ patch_close) =
     (if json_safe p k \<and> json_safe p v \<and> json_safe p k' \<and> json_safe p v'
      then Some [(k, Some v), (k', Some v')] else None)"
proof -
  have t: "read_members (go_quote p k' @ CHR '':'' # go_quote p v' @ patch_close) =
      (if json_safe p k' \<and> json_safe p v' then Some [(k', Some v')] else None)"
    using read_members_quote [of p k' "go_quote p v' @ patch_close"] by (simp add: read_value_quote)
  show ?thesis
    using read_members_quote [of p k "go_quote p v @ CHR '','' # go_quote p k' @ CHR '':'' # go_quote p v' @ patch_close"]
    by (simp add: read_patch_open read_value_quote t)
qed

lemma keys_safe [simp]:
  "json_safe p AgentState" "json_safe p CurrentRevision" "json_safe p LastError"
  "json_safe p RebootPending" "json_safe p ForceReboot"
  by (rule json_safe_ascii; simp add: key_defs)+

lemma values_safe [simp]:
  "json_safe p StateDone" "json_safe p StateIdle" "json_safe p StateApplying" "json_safe p StateError"
  "json_safe p ''true''" "json_safe p ''rebooting''"
  by (rule json_safe_ascii; simp add: value_defs)+

section \<open>What the API server does with a patch\<close>

text \<open>The texts the writer sends.\<close>

definition member_text :: "(string \<Rightarrow> bool) \<Rightarrow> string \<times> string option \<Rightarrow> string" where
  "member_text p kv =
     go_quote p (fst kv) @ '':'' @ (case snd kv of None \<Rightarrow> ''null'' | Some v \<Rightarrow> go_quote p v)"

definition patch_text :: "(string \<Rightarrow> bool) \<Rightarrow> (string \<times> string option) list \<Rightarrow> string" where
  "patch_text p kvs = patch_open @ Join (map (member_text p) kvs) '','' @ patch_close"

text \<open>
  \<open>ann\<close> is the part of the node's annotations that only the agent writes. A patch that is
  accepted was JSON and has been merged; a patch that failed changed nothing; retrying runs
  the call again after conflicts only.
\<close>

locale node_patch_api =
  fixes w :: "'s NodeWriter" and ann :: "'s \<Rightarrow> annots"
  assumes patch_ok:
      "nw_PatchNode w s (nw_nodeName w) (patch_text (nw_isprint w) kvs) = (None, s') \<Longrightarrow>
         \<exists>read. read_patch (patch_text (nw_isprint w) kvs) = Some read \<and>
           ann s' = merge_annotations read (ann s)"
    and patch_failed: "nw_PatchNode w s n text = (Some e, s') \<Longrightarrow> ann s' = ann s"
    and patch_retry: "attempts f s (nw_RetryOnConflict w f s)"
begin

lemma patch_effect:
  assumes "patch w (patch_text (nw_isprint w) kvs) s = (e, s')"
  shows "case e of
      None \<Rightarrow> \<exists>read. read_patch (patch_text (nw_isprint w) kvs) = Some read \<and>
                ann s' = merge_annotations read (ann s)
    | Some err \<Rightarrow> ann s' = ann s"
proof -
  let ?f = "\<lambda>s. nw_PatchNode w s (nw_nodeName w) (patch_text (nw_isprint w) kvs)"
  let ?Q = "\<lambda>r. case fst r of
      None \<Rightarrow> \<exists>read. read_patch (patch_text (nw_isprint w) kvs) = Some read \<and>
                ann (snd r) = merge_annotations read (ann s)
    | Some err \<Rightarrow> ann (snd r) = ann s"
  have "?Q (nw_RetryOnConflict w ?f s)"
  proof (rule attempts_rule [OF patch_retry, where I = "\<lambda>t. ann t = ann s"])
    show "ann t1 = ann s" if "ann t = ann s" "?f t = (Some err, t1)" for t err t1
      using that patch_failed by metis
    show "?Q (?f t)" if "ann t = ann s" for t
      using that patch_ok [of t kvs] patch_failed [of t]
      by (cases "?f t"; cases "fst (?f t)") fastforce+
  qed simp
  then have "?Q (e, s')" using assms by (simp only: patch_def)
  then show ?thesis by (simp only: fst_conv snd_conv)
qed

lemma patch_one:
  assumes "patch w (patch_open @ Q w k @ '':'' @ Q w v @ patch_close) s = (e, s')"
  shows "ann s' = (if e = None then (ann s)(k \<mapsto> v) else ann s)"
    and "e = None \<Longrightarrow> json_safe (nw_isprint w) k \<and> json_safe (nw_isprint w) v"
proof -
  have "patch_open @ Q w k @ '':'' @ Q w v @ patch_close = patch_text (nw_isprint w) [(k, Some v)]"
    by (simp add: patch_text_def member_text_def)
  from patch_effect [OF assms [unfolded this], folded this]
  show "ann s' = (if e = None then (ann s)(k \<mapsto> v) else ann s)"
    "e = None \<Longrightarrow> json_safe (nw_isprint w) k \<and> json_safe (nw_isprint w) v"
    unfolding read_one by (cases e; auto simp: merge_annotations_def split: if_splits)+
qed

lemma patch_removed:
  assumes "patch w (patch_open @ Q w k @ '':null'' @ patch_close) s = (e, s')"
  shows "ann s' = (if e = None then (ann s)(k := None) else ann s)"
proof -
  have "patch_open @ Q w k @ '':null'' @ patch_close = patch_text (nw_isprint w) [(k, None)]"
    by (simp add: patch_text_def member_text_def)
  from patch_effect [OF assms [unfolded this], folded this]
  show ?thesis
    unfolding read_removed by (cases e) (auto simp: merge_annotations_def split: if_splits)
qed

lemma patch_two:
  assumes "patch w (patch_open @ Q w k @ '':'' @ Q w v @ '','' @ Q w k' @ '':'' @ Q w v' @ patch_close) s = (e, s')"
  shows "ann s' = (if e = None then (ann s)(k \<mapsto> v, k' \<mapsto> v') else ann s)"
    and "e = None \<Longrightarrow> json_safe (nw_isprint w) v \<and> json_safe (nw_isprint w) v'"
proof -
  have "patch_open @ Q w k @ '':'' @ Q w v @ '','' @ Q w k' @ '':'' @ Q w v' @ patch_close =
      patch_text (nw_isprint w) [(k, Some v), (k', Some v')]"
    by (simp add: patch_text_def member_text_def)
  from patch_effect [OF assms [unfolded this], folded this]
  show "ann s' = (if e = None then (ann s)(k \<mapsto> v, k' \<mapsto> v') else ann s)"
    "e = None \<Longrightarrow> json_safe (nw_isprint w) v \<and> json_safe (nw_isprint w) v'"
    unfolding read_two by (cases e; auto simp: merge_annotations_def split: if_splits)+
qed

lemma write_effects:
  "SetState w v s = (e, s') \<Longrightarrow> ann s' = (if e = None then (ann s)(AgentState \<mapsto> v) else ann s)"
  "SetCurrentRevision w v s = (e, s') \<Longrightarrow> ann s' = (if e = None then (ann s)(CurrentRevision \<mapsto> v) else ann s)"
  "SetLastError w v s = (e, s') \<Longrightarrow> ann s' = (if e = None then (ann s)(LastError \<mapsto> v) else ann s)"
  "ClearLastError w s = (e, s') \<Longrightarrow> ann s' = (if e = None then (ann s)(LastError := None) else ann s)"
  "SetRebootPending w True s = (e, s') \<Longrightarrow> ann s' = (if e = None then (ann s)(RebootPending \<mapsto> ''true'') else ann s)"
  "SetRebootPending w False s = (e, s') \<Longrightarrow> ann s' = (if e = None then (ann s)(RebootPending := None) else ann s)"
  "ClearForceReboot w s = (e, s') \<Longrightarrow> ann s' = (if e = None then (ann s)(ForceReboot := None) else ann s)"
  "SetStateWithError w v m s = (e, s') \<Longrightarrow>
     ann s' = (if e = None then (ann s)(AgentState \<mapsto> v, LastError \<mapsto> m) else ann s)"
  "SetDone w v s = (e, s') \<Longrightarrow>
     ann s' = (if e = None then (ann s)(AgentState \<mapsto> StateDone, CurrentRevision \<mapsto> v) else ann s)"
  unfolding SetState_def SetCurrentRevision_def SetLastError_def ClearLastError_def SetRebootPending_def
    ClearForceReboot_def SetStateWithError_def SetDone_def patchAnnotation_def removeAnnotation_def
    if_True if_False
  by (rule patch_one(1) patch_removed patch_two(1), assumption)+

lemma write_safe:
  "SetState w v s = (None, s') \<Longrightarrow> json_safe (nw_isprint w) v"
  "SetStateWithError w v m s = (None, s') \<Longrightarrow> json_safe (nw_isprint w) m"
  "SetDone w v s = (None, s') \<Longrightarrow> json_safe (nw_isprint w) v"
  unfolding SetState_def SetStateWithError_def SetDone_def patchAnnotation_def
  by (blast dest: patch_one(2) patch_two(2))+

end

text \<open>A part of the state that no patch touches, and no operation of the writer.\<close>

definition writer_keeps :: "'s NodeWriter \<Rightarrow> ('s \<Rightarrow> 'v) \<Rightarrow> bool" where
  "writer_keeps w v \<longleftrightarrow> (\<forall>s n t. v (snd (nw_PatchNode w s n t)) = v s)"

lemma patch_keeps:
  assumes "\<And>f s. attempts f s (nw_RetryOnConflict w f s)" and "writer_keeps w v"
  shows "v (snd (patch w t s)) = v s"
proof -
  let ?f = "\<lambda>s. nw_PatchNode w s (nw_nodeName w) t"
  have k: "v (snd (?f u)) = v u" for u using assms(2) by (simp add: writer_keeps_def)
  have "v (snd (nw_RetryOnConflict w ?f s)) = v s"
  proof (rule attempts_rule [OF assms(1), where I = "\<lambda>u. v u = v s"])
    show "v u1 = v s" if "v u = v s" "?f u = (Some e, u1)" for u e u1
      using that k [of u] by simp
  qed (use k in simp_all)
  then show ?thesis by (simp add: patch_def)
qed

lemma writes_keep:
  assumes "\<And>f s. attempts f s (nw_RetryOnConflict w f s)" and "writer_keeps w v"
  shows "v (snd (SetState w x s)) = v s" "v (snd (SetCurrentRevision w x s)) = v s"
    "v (snd (SetLastError w x s)) = v s" "v (snd (ClearLastError w s)) = v s"
    "v (snd (SetRebootPending w b s)) = v s" "v (snd (ClearForceReboot w s)) = v s"
    "v (snd (SetStateWithError w x m s)) = v s" "v (snd (SetDone w x s)) = v s"
  unfolding SetState_def SetCurrentRevision_def SetLastError_def ClearLastError_def SetRebootPending_def
    ClearForceReboot_def SetStateWithError_def SetDone_def patchAnnotation_def removeAnnotation_def
  by (simp_all add: patch_keeps [OF assms])

text \<open>
  C28: The agent's reports are atomic and faithful. Under the contract of the API server each of
  the eight operations of the node writer, if it returns no error, has changed exactly the
  annotations it is named for, to exactly the strings it was given, and if it returns an error
  it has changed none: \<open>SetDone\<close> sets the state and the current revision, \<open>SetStateWithError\<close>
  the state and the error message, both or neither. The contract takes an error of the API to
  mean that the patch was not applied.
\<close>

theorem node_reports_atomic:
  assumes "node_patch_api w ann"
  shows "(SetState w v s = (e, s') \<longrightarrow>
      ann s' = (if e = None then (ann s)(AgentState \<mapsto> v) else ann s)) \<and>
    (SetCurrentRevision w v s = (e, s') \<longrightarrow>
      ann s' = (if e = None then (ann s)(CurrentRevision \<mapsto> v) else ann s)) \<and>
    (SetLastError w v s = (e, s') \<longrightarrow>
      ann s' = (if e = None then (ann s)(LastError \<mapsto> v) else ann s)) \<and>
    (ClearLastError w s = (e, s') \<longrightarrow>
      ann s' = (if e = None then (ann s)(LastError := None) else ann s)) \<and>
    (SetRebootPending w b s = (e, s') \<longrightarrow>
      ann s' = (if e = None then (ann s)(RebootPending := (if b then Some ''true'' else None)) else ann s)) \<and>
    (ClearForceReboot w s = (e, s') \<longrightarrow>
      ann s' = (if e = None then (ann s)(ForceReboot := None) else ann s)) \<and>
    (SetStateWithError w v m s = (e, s') \<longrightarrow>
      ann s' = (if e = None then (ann s)(AgentState \<mapsto> v, LastError \<mapsto> m) else ann s)) \<and>
    (SetDone w v s = (e, s') \<longrightarrow>
      ann s' = (if e = None then (ann s)(AgentState \<mapsto> StateDone, CurrentRevision \<mapsto> v) else ann s))"
  using node_patch_api.write_effects [OF assms] by (cases b) (intro conjI impI; simp)+

text \<open>
  An error message can keep the error itself from being reported. \<open>%q\<close> is not JSON: where
  the message of a failed apply holds a byte that \<open>%q\<close> writes as an escape JSON does not know
  (a bell, a vertical tab, a delete or another control character, invalid UTF-8), the patch is
  refused and \<open>SetStateWithError\<close> returns an error and leaves the annotations, and with them
  the state the agent last reported, as they were.
\<close>

theorem unprintable_error_not_reported:
  assumes "node_patch_api w ann"
    and "byte b < 32 \<and> b \<notin> {CHR 0x08, CHR 0x0C, CHR 0x0A, CHR 0x0D, CHR 0x09} \<or> byte b = 127"
    and "list_all (\<lambda>c. byte c < 128) before"
  shows "\<exists>err s'. SetStateWithError w st (before @ b # after) s = (Some err, s') \<and> ann s' = ann s"
proof -
  have "\<not> json_plain b" "byte b < 128" using assms(2) by (auto simp: json_plain_def)
  then have "\<not> json_safe p (before @ b # after)" for p
    using assms(3) by (induction before) (auto simp: json_safe.simps(2))
  then have "fst (SetStateWithError w st (before @ b # after) s) \<noteq> None"
    using node_patch_api.write_safe(2) [OF assms(1)] by (metis prod.collapse)
  then show ?thesis
    using node_patch_api.write_effects(8) [OF assms(1), of st "before @ b # after" s]
    by (cases "SetStateWithError w st (before @ b # after) s") auto
qed

section \<open>A server in memory\<close>

text \<open>
  The annotations sit anywhere in a state: \<open>get\<close> reads them, \<open>put\<close> replaces them. Runes
  outside ASCII count as printable.
\<close>

definition mem_PatchNode ::
  "('s \<Rightarrow> annots) \<Rightarrow> (annots \<Rightarrow> 's \<Rightarrow> 's) \<Rightarrow> 's \<Rightarrow> string \<Rightarrow> string \<Rightarrow> go_error option \<times> 's" where
  "mem_PatchNode get put s n text =
     (case read_patch text of
        None \<Rightarrow> (Some (ApiErr OtherReason ''invalid patch''), s)
      | Some kvs \<Rightarrow> (None, put (merge_annotations kvs (get s)) s))"

definition mem_writer :: "('s \<Rightarrow> annots) \<Rightarrow> (annots \<Rightarrow> 's \<Rightarrow> 's) \<Rightarrow> string \<Rightarrow> 's NodeWriter" where
  "mem_writer get put name =
     \<lparr>nw_nodeName = name, nw_PatchNode = mem_PatchNode get put,
      nw_RetryOnConflict = retry_upto 3, nw_isprint = (\<lambda>r. True)\<rparr>"

lemma mem_writer_api:
  assumes "\<And>a s. get (put a s) = a"
  shows "node_patch_api (mem_writer get put name) get"
  by unfold_locales
    (auto simp: mem_writer_def mem_PatchNode_def assms retry_upto_attempts split: option.splits)

lemma mem_writer_keeps:
  assumes "\<And>a s. v (put a s) = v s"
  shows "writer_keeps (mem_writer get put name) v"
  by (simp add: writer_keeps_def mem_writer_def mem_PatchNode_def assms split: option.split)

interpretation writer: node_patch_api "mem_writer (\<lambda>a. a) (\<lambda>a _. a) name" "\<lambda>a. a" for name
  by (rule mem_writer_api) simp

text \<open>The outcome of a write on this server, for the strings that are JSON-safe.\<close>

lemma mem_patch:
  "patch (mem_writer get put name) text s =
     (case read_patch text of
        None \<Rightarrow> (Some (ApiErr OtherReason ''invalid patch''), s)
      | Some kvs \<Rightarrow> (None, put (merge_annotations kvs (get s)) s))"
  by (simp add: patch_def mem_writer_def mem_PatchNode_def IsConflict_def numeral_3_eq_3 split: option.split)

lemma mem_writes:
  "json_safe (\<lambda>r. True) v \<Longrightarrow> SetState (mem_writer get put name) v s = (None, put ((get s)(AgentState \<mapsto> v)) s)"
  "ClearLastError (mem_writer get put name) s = (None, put ((get s)(LastError := None)) s)"
  "SetRebootPending (mem_writer get put name) True s = (None, put ((get s)(RebootPending \<mapsto> ''true'')) s)"
  "SetRebootPending (mem_writer get put name) False s = (None, put ((get s)(RebootPending := None)) s)"
  "ClearForceReboot (mem_writer get put name) s = (None, put ((get s)(ForceReboot := None)) s)"
  "json_safe (\<lambda>r. True) v \<Longrightarrow> json_safe (\<lambda>r. True) m \<Longrightarrow>
     SetStateWithError (mem_writer get put name) v m s = (None, put ((get s)(AgentState \<mapsto> v, LastError \<mapsto> m)) s)"
  "json_safe (\<lambda>r. True) v \<Longrightarrow>
     SetDone (mem_writer get put name) v s = (None, put ((get s)(AgentState \<mapsto> StateDone, CurrentRevision \<mapsto> v)) s)"
proof -
  have p: "nw_isprint (mem_writer get put name) = (\<lambda>r. True)" by (simp add: mem_writer_def)
  note d = SetState_def ClearLastError_def SetRebootPending_def ClearForceReboot_def SetStateWithError_def
    SetDone_def patchAnnotation_def removeAnnotation_def mem_patch p read_one read_removed read_two
    merge_annotations_def
  show "json_safe (\<lambda>r. True) v \<Longrightarrow> SetState (mem_writer get put name) v s = (None, put ((get s)(AgentState \<mapsto> v)) s)"
    "ClearLastError (mem_writer get put name) s = (None, put ((get s)(LastError := None)) s)"
    "SetRebootPending (mem_writer get put name) True s = (None, put ((get s)(RebootPending \<mapsto> ''true'')) s)"
    "SetRebootPending (mem_writer get put name) False s = (None, put ((get s)(RebootPending := None)) s)"
    "ClearForceReboot (mem_writer get put name) s = (None, put ((get s)(ForceReboot := None)) s)"
    "json_safe (\<lambda>r. True) v \<Longrightarrow> json_safe (\<lambda>r. True) m \<Longrightarrow>
       SetStateWithError (mem_writer get put name) v m s = (None, put ((get s)(AgentState \<mapsto> v, LastError \<mapsto> m)) s)"
    "json_safe (\<lambda>r. True) v \<Longrightarrow>
       SetDone (mem_writer get put name) v s = (None, put ((get s)(AgentState \<mapsto> StateDone, CurrentRevision \<mapsto> v)) s)"
    unfolding d by simp_all
qed

theorem node_reports_atomic_witness:
  "snd (SetDone (mem_writer (\<lambda>a. a) (\<lambda>a _. a) ''n1'') ''w-2'' [AgentState \<mapsto> StateApplying])
     = [AgentState \<mapsto> StateDone, CurrentRevision \<mapsto> ''w-2'']"
proof -
  have "json_safe (\<lambda>r. True) ''w-2''" by (rule json_safe_ascii) simp
  then show ?thesis
    using node_reports_atomic [OF writer.node_patch_api_axioms [of "''n1''"], where v = "''w-2''"
        and s = "[AgentState \<mapsto> StateApplying]" and e = None
        and s' = "snd (SetDone (mem_writer (\<lambda>a. a) (\<lambda>a _. a) ''n1'') ''w-2'' [AgentState \<mapsto> StateApplying])"]
    by (simp add: mem_writes)
qed

theorem unprintable_error_not_reported_witness:
  "\<exists>err. SetStateWithError (mem_writer (\<lambda>a. a) (\<lambda>a _. a) ''n1'') StateError (''unit x'' @ [CHR 0x07])
     [AgentState \<mapsto> StateApplying] = (Some err, [AgentState \<mapsto> StateApplying])"
  using unprintable_error_not_reported [OF writer.node_patch_api_axioms [of "''n1''"], where b = "CHR 0x07"
      and before = "''unit x''" and after = "[]" and st = StateError and s = "[AgentState \<mapsto> StateApplying]"]
  by simp

end
