(* ===== verification/Reboot.thy ===== *)
theory Reboot
  imports Agent_Apply Node_Writer Cleanup
begin

text \<open>
  Reboots, \<open>internal/agent/reboot\<close>: the state files of \<open>state.go\<close>, the decision of
  \<open>handler.go\<close> and the executors of \<open>executor.go\<close>. The executor is a function of the state; the
  clock is the host's. The local time zone is UTC, so \<open>Format(time.RFC3339)\<close> prints UTC.
  \<open>GetSystemBootTime\<close>, which no code calls, is left out.
\<close>

section \<open>strings.TrimSpace\<close>

definition space_points :: "nat list" where
  "space_points = [9, 10, 11, 12, 13, 32, 133, 160, 5760, 8192, 8193, 8194, 8195, 8196, 8197, 8198,
     8199, 8200, 8201, 8202, 8232, 8233, 8239, 8287, 12288]"

definition space_texts :: "string list" where
  "space_texts = map utf8_of space_points"

text \<open>Cut the words of a list off the front as long as one of them is there.\<close>

function (sequential) trim_front :: "string list \<Rightarrow> string \<Rightarrow> string" where
  "trim_front ws s =
     (case find (\<lambda>w. w \<noteq> [] \<and> HasPrefix s w) ws of
        None \<Rightarrow> s
      | Some w \<Rightarrow> trim_front ws (drop (length w) s))"
  by pat_completeness auto
termination
proof (relation "measure (length \<circ> snd)")
  fix ws :: "string list" and s w
  assume "find (\<lambda>w. w \<noteq> [] \<and> HasPrefix s w) ws = Some w"
  then have "w \<noteq> [] \<and> HasPrefix s w" by (metis (mono_tags, lifting) find_Some_iff)
  then have "0 < length w" "length w \<le> length s"
    by (auto simp: HasPrefix_iff prefix_length_le)
  then have "length (drop (length w) s) < length s" unfolding length_drop by linarith
  then show "((ws, drop (length w) s), ws, s) \<in> measure (length \<circ> snd)" by simp
qed simp

declare trim_front.simps [simp del]

definition TrimSpace :: "string \<Rightarrow> string" where
  "TrimSpace s = rev (trim_front (map rev space_texts) (rev (trim_front space_texts s)))"

lemma trim_front_stop:
  assumes "\<forall>w\<in>set ws. w = [] \<or> hd w \<noteq> c"
  shows "trim_front ws (c # s) = c # s"
proof -
  have "\<not> (w \<noteq> [] \<and> HasPrefix (c # s) w)" if "w \<in> set ws" for w
    using assms that by (cases w) (auto simp: HasPrefix_def)
  then have "find (\<lambda>w. w \<noteq> [] \<and> HasPrefix (c # s) w) ws = None"
    by (auto simp: find_None_iff)
  then show ?thesis by (simp add: trim_front.simps)
qed

lemma Format_RFC3339_ends: "\<exists>c s s'. Format_RFC3339 t = c # s \<and> Format_RFC3339 t = s' @ ''Z'' \<and> is_digit c"
proof -
  obtain y m d where c: "civil_of_days (t div 1000000000 div 86400 + 719162) = (y, m, d)"
    by (metis prod_cases3)
  have "is_digit (digit (nat (n mod 10)))" for n :: int by (rule is_digit_digit) simp
  moreover obtain u where "Format_RFC3339 t = pad4 y @ u @ ''Z''"
    using c by (simp add: Format_RFC3339_def Let_def)
  ultimately show ?thesis
    by (metis append.assoc append_Cons pad2_def pad4_def)
qed

lemma utf8_ends:
  assumes "n < 65536"
  shows "if n < 128 then byte (hd (utf8_of n)) = n \<and> byte (last (utf8_of n)) = n
    else 128 \<le> byte (hd (utf8_of n)) \<and> 128 \<le> byte (last (utf8_of n))"
proof -
  have m: "byte (char_of k) = k" if "k < 256" for k :: nat using that by simp
  consider "n < 128" | "128 \<le> n" "n < 2048" | "2048 \<le> n" by linarith
  then show ?thesis
  proof cases
    case 1
    then show ?thesis by (simp add: utf8_of_def)
  next
    case 2
    then have "n div 64 < 32" by (simp add: less_mult_imp_div_less)
    then have "192 + n div 64 < 256" "128 + n mod 64 < 256" using mod_less_divisor [of 64 n] by linarith+
    then show ?thesis using 2 m by (simp add: utf8_of_def)
  next
    case 3
    have "n div 4096 < 16" using assms by (simp add: less_mult_imp_div_less)
    then have "224 + n div 4096 < 256" "128 + n mod 64 < 256" using mod_less_divisor [of 64 n] by linarith+
    then show ?thesis using 3 assms m by (simp add: utf8_of_def)
  qed
qed

lemma TrimSpace_Format: "TrimSpace (Format_RFC3339 t) = Format_RFC3339 t"
proof -
  obtain c s s' where f: "Format_RFC3339 t = c # s" "Format_RFC3339 t = s' @ ''Z''" "is_digit c"
    using Format_RFC3339_ends by blast
  have "hd w \<noteq> c \<and> hd (rev w) \<noteq> CHR ''Z''" if w: "w \<in> set space_texts" for w
  proof -
    have c: "48 \<le> byte c" "byte c \<le> 57" using f(3) by (auto simp: is_digit_def)
    have Z: "byte (CHR ''Z'') = 90" by simp
    obtain n where n: "n \<in> set space_points" "w = utf8_of n" using w unfolding space_texts_def set_map by blast
    have "\<forall>n\<in>set space_points. n < 65536 \<and> (n < 48 \<or> 128 \<le> n)" by (simp add: space_points_def)
    then have "n < 65536" "n < 48 \<or> 128 \<le> n" using n(1) by blast+
    then have "byte (hd w) < 48 \<or> 128 \<le> byte (hd w)" "byte (last w) < 48 \<or> 128 \<le> byte (last w)"
      using utf8_ends [of n] n(2) by (auto split: if_splits)
    moreover have "hd (rev w) = last w" by (simp add: hd_rev)
    ultimately show ?thesis using c Z by force
  qed
  note w = this
  have "trim_front space_texts (c # s) = c # s"
    using w by (intro trim_front_stop) blast
  then have 1: "trim_front space_texts (Format_RFC3339 t) = Format_RFC3339 t" by (simp add: f(1))
  have "\<forall>w\<in>set (map rev space_texts). w = [] \<or> hd w \<noteq> CHR ''Z''"
    using w by auto
  then have "trim_front (map rev space_texts) (CHR ''Z'' # rev s') = CHR ''Z'' # rev s'"
    by (rule trim_front_stop)
  then show ?thesis unfolding TrimSpace_def 1 unfolding f(2) by simp
qed

section \<open>state.go\<close>

definition stateDir :: string where "stateDir = ''/var/lib/mco''"
definition lastRebootFile :: string where "lastRebootFile = ''last-reboot''"
definition bootMarkerDir :: string where "bootMarkerDir = ''/run/mco''"
definition bootMarkerFile :: string where "bootMarkerFile = ''boot-marker''"

definition statePath :: "string \<Rightarrow> string \<Rightarrow> string" where
  "statePath hostRoot filename =
     (if filename = [] then path_join [hostRoot, stateDir]
      else path_join [hostRoot, stateDir, filename])"

definition ReadLastRebootTime :: "'s host \<Rightarrow> string \<Rightarrow> 's \<Rightarrow> time result \<times> 's" where
  "ReadLastRebootTime h hostRoot s =
     (case ReadFile h s (statePath hostRoot lastRebootFile) of
        (Inl err, s1) \<Rightarrow> (Inl err, s1)
      | (Inr data, s1) \<Rightarrow>
          (case Parse_RFC3339 (TrimSpace data) of
             None \<Rightarrow> (Inl (Wrap ''failed to parse last reboot time'' (Err ''parsing time'')), s1)
           | Some t \<Rightarrow> (Inr t, s1)))"

definition WriteLastRebootTime :: "'s host \<Rightarrow> string \<Rightarrow> time \<Rightarrow> 's \<Rightarrow> go_error option \<times> 's" where
  "WriteLastRebootTime h hostRoot t s =
     (case MkdirAll h s (statePath hostRoot []) 493 of
        (Some err, s1) \<Rightarrow> (Some (Wrap ''failed to create state directory'' err), s1)
      | (None, s1) \<Rightarrow>
          let path = statePath hostRoot lastRebootFile; data = Format_RFC3339 t; tmpPath = path @ ''.tmp'' in
          (case WriteFile h s1 tmpPath data 420 of
             (Some err, s2) \<Rightarrow> (Some (Wrap ''failed to write last reboot time'' err), s2)
           | (None, s2) \<Rightarrow>
               (case Rename h s2 tmpPath path of
                  (Some err, s3) \<Rightarrow>
                    (Some (Wrap ''failed to rename last reboot file'' err), snd (Remove h s3 tmpPath))
                | (None, s3) \<Rightarrow> (None, s3))))"

definition BootMarkerExists :: "'s host \<Rightarrow> string \<Rightarrow> 's \<Rightarrow> bool \<times> 's" where
  "BootMarkerExists h hostRoot s =
     (case StatFile h s (path_join [hostRoot, bootMarkerDir, bootMarkerFile]) of
        (err, s1) \<Rightarrow> (err = None, s1))"

definition WriteBootMarker :: "'s host \<Rightarrow> string \<Rightarrow> 's \<Rightarrow> go_error option \<times> 's" where
  "WriteBootMarker h hostRoot s =
     (let dir = path_join [hostRoot, bootMarkerDir] in
      case MkdirAll h s dir 493 of
        (Some err, s1) \<Rightarrow> (Some (Wrap ''failed to create boot marker directory'' err), s1)
      | (None, s1) \<Rightarrow>
          (case Now h s1 of
             (now, s2) \<Rightarrow>
               (case WriteFile h s2 (path_join [dir, bootMarkerFile]) (Format_RFC3339 now) 420 of
                  (Some err, s3) \<Rightarrow> (Some (Wrap ''failed to write boot marker'' err), s3)
                | (None, s3) \<Rightarrow> (None, s3))))"

section \<open>handler.go\<close>

record 's Handler =
  hd_hostRoot :: string
  hd_writer :: "'s NodeWriter"
  hd_executor :: "'s \<Rightarrow> go_error option \<times> 's"
  hd_host :: "'s host"

definition NewHandler ::
  "'s host \<Rightarrow> string \<Rightarrow> 's NodeWriter \<Rightarrow> ('s \<Rightarrow> go_error option \<times> 's) \<Rightarrow> 's Handler" where
  "NewHandler h hostRoot w ex =
     \<lparr>hd_hostRoot = hostRoot, hd_writer = w, hd_executor = ex, hd_host = h\<rparr>"

definition setPending :: "'s Handler \<Rightarrow> 's \<Rightarrow> go_error option \<times> 's" where
  "setPending r s = SetRebootPending (hd_writer r) True s"

text \<open>Errors of the preparations are logged and dropped.\<close>

definition executeReboot :: "'s Handler \<Rightarrow> 's \<Rightarrow> go_error option \<times> 's" where
  "executeReboot r s =
     (let (now, s0) = Now (hd_host r) s;
          s1 = snd (WriteLastRebootTime (hd_host r) (hd_hostRoot r) now s0);
          s2 = snd (SetState (hd_writer r) ''rebooting'' s1);
          s3 = snd (ClearForceReboot (hd_writer r) s2);
          s4 = snd (SetRebootPending (hd_writer r) False s3)
      in hd_executor r s4)"

definition handleIfRequired :: "'s Handler \<Rightarrow> int \<Rightarrow> 's \<Rightarrow> go_error option \<times> 's" where
  "handleIfRequired r minIntervalSeconds s =
     (case ReadLastRebootTime (hd_host r) (hd_hostRoot r) s of
        (Inl err, s1) \<Rightarrow> executeReboot r s1
      | (Inr lastReboot, s1) \<Rightarrow>
          if minIntervalSeconds \<le> 0 then executeReboot r s1
          else (case Now (hd_host r) s1 of
                  (now, s2) \<Rightarrow>
                    let elapsed = Sub now lastReboot; required = Seconds minIntervalSeconds in
                    if elapsed < required then setPending r s2 else executeReboot r s2))"

definition HandleReboot :: "'s Handler \<Rightarrow> RenderedMachineConfig \<Rightarrow> Node \<Rightarrow> 's \<Rightarrow> go_error option \<times> 's" where
  "HandleReboot r rmc node s =
     (if \<not> rrs_Required (rmcs_Reboot (rmc_Spec rmc)) then (None, s)
      else if GetBoolAnnotation (node_Annotations node) ForceReboot then executeReboot r s
      else
        let strategy0 = rrs_Strategy (rmcs_Reboot (rmc_Spec rmc));
            strategy = (if strategy0 = [] then ''Never'' else strategy0)
        in if strategy = ''Never'' then setPending r s
           else if strategy = ''IfRequired'' then
             handleIfRequired r (rrs_MinIntervalSeconds (rmcs_Reboot (rmc_Spec rmc))) s
           else setPending r s)"

definition startup_body :: "'s Handler \<Rightarrow> Node \<Rightarrow> 's \<Rightarrow> go_error option \<times> 's" where
  "startup_body r node s =
     (if \<not> GetBoolAnnotation (node_Annotations node) RebootPending then (None, s)
      else case ReadLastRebootTime (hd_host r) (hd_hostRoot r) s of
        (Inl err, s1) \<Rightarrow> (None, s1)
      | (Inr t, s1) \<Rightarrow>
          (case BootMarkerExists (hd_host r) (hd_hostRoot r) s1 of
             (True, s2) \<Rightarrow> (None, s2)
           | (False, s2) \<Rightarrow>
               (case SetRebootPending (hd_writer r) False s2 of
                  (Some err, s3) \<Rightarrow> (Some err, s3)
                | (None, s3) \<Rightarrow>
                    let desiredRevision = GetAnnotation (node_Annotations node) DesiredRevision in
                    if desiredRevision \<noteq> [] then SetDone (hd_writer r) desiredRevision s3
                    else (None, s3))))"

text \<open>The deferred function writes the boot marker after the body, whatever the body returned.\<close>

definition CheckRebootPendingOnStartup :: "'s Handler \<Rightarrow> Node \<Rightarrow> 's \<Rightarrow> go_error option \<times> 's" where
  "CheckRebootPendingOnStartup r node s =
     (case startup_body r node s of
        (e, s1) \<Rightarrow> (e, snd (WriteBootMarker (hd_host r) (hd_hostRoot r) s1)))"

section \<open>executor.go\<close>

text \<open>
  \<open>syscall.Sync\<close> and running a command are calls of the host that the executor is given;
  \<open>NoOpExecutor\<close> only records that it was called.
\<close>

definition SystemdExecutor ::
  "('s \<Rightarrow> 's) \<Rightarrow> (string list \<Rightarrow> 's \<Rightarrow> go_error option \<times> 's) \<Rightarrow> string \<Rightarrow> 's \<Rightarrow> go_error option \<times> 's" where
  "SystemdExecutor sync run hostRoot s =
     run [''chroot'', hostRoot, ''systemctl'', ''reboot''] (sync s)"

definition NoOpExecutor :: "(bool \<Rightarrow> 's \<Rightarrow> 's) \<Rightarrow> 's \<Rightarrow> go_error option \<times> 's" where
  "NoOpExecutor setCalled s = (None, setCalled True s)"

lemmas reboot_defs [mco_eval] =
  stateDir_def lastRebootFile_def bootMarkerDir_def bootMarkerFile_def statePath_def
  ReadLastRebootTime_def WriteLastRebootTime_def BootMarkerExists_def WriteBootMarker_def
  NewHandler_def setPending_def executeReboot_def handleIfRequired_def HandleReboot_def
  startup_body_def CheckRebootPendingOnStartup_def SystemdExecutor_def NoOpExecutor_def

section \<open>The world of a reboot\<close>

text \<open>
  What a reboot leaves behind: the attempted writes of the time, the state and the two marks,
  and what they did. A write that fails leaves its part as it was; no other annotation changes.
\<close>

definition reboot_traces ::
  "'s Handler \<Rightarrow> ('s \<Rightarrow> string \<rightharpoonup> hfile) \<Rightarrow> ('s \<Rightarrow> annots) \<Rightarrow> 's \<Rightarrow> 's \<Rightarrow> bool" where
  "reboot_traces r files ann s s' \<longleftrightarrow>
     (\<exists>now u e u'. fst (Now (hd_host r) u) = now \<and>
        WriteLastRebootTime (hd_host r) (hd_hostRoot r) now (snd (Now (hd_host r) u)) = (e, u') \<and>
        (e = None \<longrightarrow> (\<exists>f. files s' (statePath (hd_hostRoot r) lastRebootFile) = Some f \<and>
           hf_content f = Format_RFC3339 now))) \<and>
     (\<exists>u e u'. SetState (hd_writer r) ''rebooting'' u = (e, u') \<and>
        ann s' AgentState = (if e = None then Some ''rebooting'' else ann s AgentState)) \<and>
     (\<exists>u e u'. ClearForceReboot (hd_writer r) u = (e, u') \<and>
        ann s' ForceReboot = (if e = None then None else ann s ForceReboot)) \<and>
     (\<exists>u e u'. SetRebootPending (hd_writer r) False u = (e, u') \<and>
        ann s' RebootPending = (if e = None then None else ann s RebootPending)) \<and>
     (\<forall>k. k \<notin> {AgentState, ForceReboot, RebootPending} \<longrightarrow> ann s' k = ann s k)"

context host_fs
begin

lemma WriteLastRebootTime_ok:
  assumes "WriteLastRebootTime h root t s = (None, s')"
  shows "\<exists>f. files s' (statePath root lastRebootFile) = Some f \<and> hf_content f = Format_RFC3339 t"
proof -
  let ?p = "statePath root lastRebootFile"
  obtain s1 s2 where "WriteFile h s1 (?p @ ''.tmp'') (Format_RFC3339 t) 420 = (None, s2)"
    "Rename h s2 (?p @ ''.tmp'') ?p = (None, s')"
    using assms by (auto simp: WriteLastRebootTime_def Let_def split: prod.splits option.splits)
  then show ?thesis using write_ok rename_ok by fastforce
qed

lemma WriteBootMarker_ok:
  "WriteBootMarker h root s = (None, s') \<Longrightarrow>
     files s' (path_join [path_join [root, bootMarkerDir], bootMarkerFile]) \<noteq> None"
  by (auto simp: WriteBootMarker_def Let_def split: prod.splits option.splits dest: write_ok)

lemma ReadLastRebootTime_missing:
  "files s (statePath root lastRebootFile) = None \<Longrightarrow> ReadLastRebootTime h root s = (t, s') \<Longrightarrow> isl t"
  using read_ok by (fastforce simp: ReadLastRebootTime_def split: prod.splits sum.splits)

end

text \<open>
  \<open>reboots\<close> counts the executions of the reboot command. The host's calls and the patches of
  the node do not reboot and do not write each other's state; what the executor does to the
  annotations is nothing, and the file with the time of the last reboot survives it.
\<close>

locale reboot_world =
  host_fs "hd_host r" files temps + node_patch_api "hd_writer r" ann
  for r :: "'s Handler" and files temps and ann :: "'s \<Rightarrow> annots" +
  fixes reboots :: "'s \<Rightarrow> nat"
  assumes host_ann: "host_keeps (hd_host r) ann"
    and host_reboots: "host_keeps (hd_host r) reboots"
    and writer_files: "writer_keeps (hd_writer r) files"
    and writer_reboots: "writer_keeps (hd_writer r) reboots"
    and executor_counts: "hd_executor r s = (e, s') \<Longrightarrow> reboots s' = reboots s + 1 \<and> ann s' = ann s"
    and executor_file: "hd_executor r s = (e, s') \<Longrightarrow>
      files s' (statePath (hd_hostRoot r) lastRebootFile) = files s (statePath (hd_hostRoot r) lastRebootFile)"
begin

lemma write_keeps:
  assumes "writer_keeps (hd_writer r) v"
  shows "v (snd (patch (hd_writer r) t s)) = v s"
  using patch_keeps [OF patch_retry assms] .
lemma write_files:
  "files (snd (SetState (hd_writer r) x s)) = files s" "files (snd (ClearForceReboot (hd_writer r) s)) = files s"
  "files (snd (SetRebootPending (hd_writer r) b s)) = files s" "files (snd (SetDone (hd_writer r) x s)) = files s"
  by (rule writes_keep [OF patch_retry writer_files])+

lemma write_reboots:
  "reboots (snd (SetState (hd_writer r) x s)) = reboots s" "reboots (snd (ClearForceReboot (hd_writer r) s)) = reboots s"
  "reboots (snd (SetRebootPending (hd_writer r) b s)) = reboots s" "reboots (snd (SetDone (hd_writer r) x s)) = reboots s"
  by (rule writes_keep [OF patch_retry writer_reboots])+

lemma state_keeps:
  assumes "host_keeps (hd_host r) v"
  shows "ReadLastRebootTime (hd_host r) root s = (t, s') \<Longrightarrow> v s' = v s"
    "v (snd (WriteLastRebootTime (hd_host r) root u s)) = v s"
    "BootMarkerExists (hd_host r) root s = (b, s') \<Longrightarrow> v s' = v s"
    "v (snd (WriteBootMarker (hd_host r) root s)) = v s"
proof -
  note K = host_keepsD [OF assms]
  show "ReadLastRebootTime (hd_host r) root s = (t, s') \<Longrightarrow> v s' = v s"
    by (auto simp: ReadLastRebootTime_def split: prod.splits sum.splits option.splits dest: K)
  show "BootMarkerExists (hd_host r) root s = (b, s') \<Longrightarrow> v s' = v s"
    by (auto simp: BootMarkerExists_def split: prod.splits dest: K)
  have R: "v (snd (Remove (hd_host r) s p)) = v s" for s p
    using assms by (simp add: host_keeps_def)
  show "v (snd (WriteLastRebootTime (hd_host r) root u s)) = v s"
    by (auto simp: WriteLastRebootTime_def Let_def R split: prod.splits option.splits dest!: K)
  show "v (snd (WriteBootMarker (hd_host r) root s)) = v s"
    by (auto simp: WriteBootMarker_def Let_def split: prod.splits option.splits dest!: K)
qed

lemma executeReboot_reboots:
  "executeReboot r s = (e, s') \<Longrightarrow> reboots s' = reboots s + 1"
  using host_keepsD(15) [OF host_reboots]
  by (auto simp: executeReboot_def Let_def write_reboots state_keeps(2) [OF host_reboots]
      split: prod.splits dest!: executor_counts)

lemma executeReboot_traces:
  assumes "executeReboot r s = (e, s')"
  shows "reboot_traces r files ann s s'"
proof -
  let ?h = "hd_host r" and ?w = "hd_writer r" and ?f = "statePath (hd_hostRoot r) lastRebootFile"
  obtain now s0 where n: "Now ?h s = (now, s0)" by fastforce
  obtain e1 s1 where w: "WriteLastRebootTime ?h (hd_hostRoot r) now s0 = (e1, s1)" by fastforce
  obtain e2 s2 where st: "SetState ?w ''rebooting'' s1 = (e2, s2)" by fastforce
  obtain e3 s3 where cf: "ClearForceReboot ?w s2 = (e3, s3)" by fastforce
  obtain e4 s4 where rp: "SetRebootPending ?w False s3 = (e4, s4)" by fastforce
  have ex: "hd_executor r s4 = (e, s')" using assms n w st cf rp by (simp add: executeReboot_def)
  have a: "ann s1 = ann s"
    using host_keepsD(15) [OF host_ann n] state_keeps(2) [OF host_ann, of "hd_hostRoot r" now s0] w by simp
  have keys: "AgentState \<noteq> ForceReboot" "AgentState \<noteq> RebootPending" "ForceReboot \<noteq> RebootPending"
    by (simp_all add: key_defs)
  note eff = write_effects(1) [OF st] write_effects(7) [OF cf] write_effects(6) [OF rp]
    conjunct2 [OF executor_counts [OF ex]]
  have "files s' ?f = files s1 ?f"
    using executor_file [OF ex] write_files(1) [of "''rebooting''" s1] write_files(2) [of s2]
      write_files(3) [of False s3] st cf rp by simp
  then have "e1 = None \<longrightarrow> (\<exists>f. files s' ?f = Some f \<and> hf_content f = Format_RFC3339 now)"
    using WriteLastRebootTime_ok [of "hd_hostRoot r" now s0 s1] w by auto
  moreover have "ann s' AgentState = (if e2 = None then Some ''rebooting'' else ann s AgentState)"
    "ann s' ForceReboot = (if e3 = None then None else ann s ForceReboot)"
    "ann s' RebootPending = (if e4 = None then None else ann s RebootPending)"
    "\<forall>k. k \<notin> {AgentState, ForceReboot, RebootPending} \<longrightarrow> ann s' k = ann s k"
    using eff a keys by simp_all
  moreover have "fst (Now ?h s) = now" "snd (Now ?h s) = s0" using n by simp_all
  ultimately show ?thesis
    unfolding reboot_traces_def using w st cf rp by blast
qed

lemma setPending_effect:
  "setPending r s = (e, s') \<Longrightarrow> reboots s' = reboots s \<and>
     ann s' = (if e = None then (ann s)(RebootPending \<mapsto> ''true'') else ann s)"
  using write_reboots(3) [of True s] write_effects(5) [of s e s'] by (simp add: setPending_def)

end

text \<open>When the policy asks for a reboot now, given what the host reports.\<close>

definition reboot_due :: "'s Handler \<Rightarrow> RenderedMachineConfig \<Rightarrow> Node \<Rightarrow> 's \<Rightarrow> bool" where
  "reboot_due r rmc node s \<longleftrightarrow>
     (let p = rmcs_Reboot (rmc_Spec rmc) in
      rrs_Required p \<and>
      (GetBoolAnnotation (node_Annotations node) ForceReboot \<or>
       rrs_Strategy p = ''IfRequired'' \<and>
       (case ReadLastRebootTime (hd_host r) (hd_hostRoot r) s of
          (Inl err, s1) \<Rightarrow> True
        | (Inr t, s1) \<Rightarrow> rrs_MinIntervalSeconds p \<le> 0 \<or>
            Seconds (rrs_MinIntervalSeconds p) \<le> Sub (fst (Now (hd_host r) s1)) t)))"

context reboot_world
begin

lemma handleIfRequired_cases:
  assumes h: "handleIfRequired r (rrs_MinIntervalSeconds p) s = (e, s')" and p: "p = rmcs_Reboot (rmc_Spec rmc)"
    and req: "rrs_Required p" "\<not> GetBoolAnnotation (node_Annotations node) ForceReboot" "rrs_Strategy p = ''IfRequired''"
  obtains (reboot) u where "reboot_due r rmc node s" "executeReboot r u = (e, s')" "reboots u = reboots s" "ann u = ann s"
    | (pending) u where "\<not> reboot_due r rmc node s" "setPending r u = (e, s')" "reboots u = reboots s" "ann u = ann s"
proof -
  note now = host_keepsD(15) [OF host_reboots] host_keepsD(15) [OF host_ann]
  note rd = state_keeps(1) [OF host_reboots] state_keeps(1) [OF host_ann]
  obtain t s1 where t: "ReadLastRebootTime (hd_host r) (hd_hostRoot r) s = (t, s1)" by fastforce
  obtain m s2 where m: "Now (hd_host r) s1 = (m, s2)" by fastforce
  note fr = rd(1) [OF t] rd(2) [OF t] now(1) [OF m] now(2) [OF m]
  show thesis
  proof (cases t)
    case (Inl err)
    then show thesis using h t fr req p by (intro reboot [of s1]) (auto simp: handleIfRequired_def reboot_due_def)
  next
    case (Inr last)
    show thesis
    proof (cases "0 < rrs_MinIntervalSeconds p \<and> Sub m last < Seconds (rrs_MinIntervalSeconds p)")
      case True
      then show thesis
        using h t fr m Inr req p by (intro pending [of s2]) (auto simp: handleIfRequired_def reboot_due_def)
    next
      case False
      then show thesis
        using h t fr m Inr req p by (intro reboot [of "if rrs_MinIntervalSeconds p \<le> 0 then s1 else s2"])
          (auto simp: handleIfRequired_def reboot_due_def split: if_splits)
    qed
  qed
qed

lemma HandleReboot_cases:
  assumes "HandleReboot r rmc node s = (e, s')"
  obtains (no) "\<not> rrs_Required (rmcs_Reboot (rmc_Spec rmc))" "\<not> reboot_due r rmc node s" "e = None" "s' = s"
    | (reboot) u where "reboot_due r rmc node s" "executeReboot r u = (e, s')" "reboots u = reboots s" "ann u = ann s"
    | (pending) u where "\<not> reboot_due r rmc node s" "setPending r u = (e, s')" "reboots u = reboots s" "ann u = ann s"
proof -
  define p where "p = rmcs_Reboot (rmc_Spec rmc)"
  consider (opt) "\<not> rrs_Required p" | (force) "rrs_Required p" "GetBoolAnnotation (node_Annotations node) ForceReboot"
    | (policy) "rrs_Required p" "\<not> GetBoolAnnotation (node_Annotations node) ForceReboot" "rrs_Strategy p = ''IfRequired''"
    | (other) "rrs_Required p" "\<not> GetBoolAnnotation (node_Annotations node) ForceReboot" "rrs_Strategy p \<noteq> ''IfRequired''"
    by blast
  then show thesis
  proof cases
    case opt
    then show thesis using assms by (intro no) (simp_all add: p_def HandleReboot_def reboot_due_def)
  next
    case force
    then show thesis using assms by (intro reboot [of s]) (simp_all add: p_def HandleReboot_def reboot_due_def)
  next
    case policy
    then have "handleIfRequired r (rrs_MinIntervalSeconds p) s = (e, s')"
      using assms by (simp add: p_def HandleReboot_def Let_def)
    from this p_def policy show thesis by (rule handleIfRequired_cases) (use reboot pending in blast)+
  next
    case other
    then have "setPending r s = (e, s')" "\<not> reboot_due r rmc node s"
      using assms by (simp_all add: p_def HandleReboot_def reboot_due_def Let_def split: if_splits)
    then show thesis by (intro pending [of s]) simp_all
  qed
qed

lemma reboot_traces_from: "ann u = ann s \<Longrightarrow> reboot_traces r files ann u s' \<Longrightarrow> reboot_traces r files ann s s'"
  unfolding reboot_traces_def by (elim subst)

lemma HandleReboot_outcome:
  assumes "HandleReboot r rmc node s = (e, s')"
  shows "reboots s' = reboots s + (if reboot_due r rmc node s then 1 else 0)"
    and "reboot_due r rmc node s \<Longrightarrow> reboot_traces r files ann s s'"
    and "\<not> reboot_due r rmc node s \<Longrightarrow> rrs_Required (rmcs_Reboot (rmc_Spec rmc)) \<Longrightarrow>
      ann s' = (if e = None then (ann s)(RebootPending \<mapsto> ''true'') else ann s)"
    and "\<not> rrs_Required (rmcs_Reboot (rmc_Spec rmc)) \<Longrightarrow> e = None \<and> s' = s"
proof -
  show "reboots s' = reboots s + (if reboot_due r rmc node s then 1 else 0)"
    using assms by (cases rule: HandleReboot_cases) (auto dest: executeReboot_reboots setPending_effect)
  show "reboot_due r rmc node s \<Longrightarrow> reboot_traces r files ann s s'"
    using assms
    by (cases rule: HandleReboot_cases) (auto dest: executeReboot_traces intro: reboot_traces_from)
  show "\<not> reboot_due r rmc node s \<Longrightarrow> rrs_Required (rmcs_Reboot (rmc_Spec rmc)) \<Longrightarrow>
      ann s' = (if e = None then (ann s)(RebootPending \<mapsto> ''true'') else ann s)"
    using assms by (cases rule: HandleReboot_cases) (auto dest: setPending_effect)
  show "\<not> rrs_Required (rmcs_Reboot (rmc_Spec rmc)) \<Longrightarrow> e = None \<and> s' = s"
    using assms by (simp add: HandleReboot_def)
qed

lemma startup_effect:
  assumes "CheckRebootPendingOnStartup r node s = (e, s')"
  shows "if GetBoolAnnotation (node_Annotations node) RebootPending \<and>
        (\<exists>t u. ReadLastRebootTime (hd_host r) (hd_hostRoot r) s = (Inr t, u) \<and>
          \<not> fst (BootMarkerExists (hd_host r) (hd_hostRoot r) u))
     then if e = None then ann s' = (if GetAnnotation (node_Annotations node) DesiredRevision = []
          then (ann s)(RebootPending := None)
          else (ann s)(RebootPending := None, AgentState \<mapsto> StateDone,
                       CurrentRevision \<mapsto> GetAnnotation (node_Annotations node) DesiredRevision))
        else ann s' = ann s \<or> ann s' = (ann s)(RebootPending := None)
     else ann s' = ann s \<and> e = None"
proof -
  let ?h = "hd_host r" and ?root = "hd_hostRoot r" and ?w = "hd_writer r"
  let ?d = "GetAnnotation (node_Annotations node) DesiredRevision"
  note rd = state_keeps(1) [OF host_ann] and bm = state_keeps(3) [OF host_ann]
  have body: "startup_body r node s = (e, s1) \<Longrightarrow> ann s' = ann s1" for s1
    using assms state_keeps(4) [OF host_ann] by (auto simp: CheckRebootPendingOnStartup_def)
  obtain e1 s1 where b: "startup_body r node s = (e1, s1)" by fastforce
  have e: "e1 = e" and a: "ann s' = ann s1"
    using assms b body by (auto simp: CheckRebootPendingOnStartup_def)
  show ?thesis
  proof (cases "GetBoolAnnotation (node_Annotations node) RebootPending")
    case False
    then show ?thesis using a b e by (auto simp: startup_body_def)
  next
    case pend: True
    obtain t u where t: "ReadLastRebootTime ?h ?root s = (t, u)" by fastforce
    obtain m v where m: "BootMarkerExists ?h ?root u = (m, v)" by fastforce
    show ?thesis
    proof (cases "isl t \<or> m")
      case True
      then show ?thesis
        using a b e pend t m rd [OF t] bm [OF m] by (cases t) (auto simp: startup_body_def)
    next
      case False
      obtain e2 x where p: "SetRebootPending ?w False v = (e2, x)" by fastforce
      have "ann s1 = (if ?d = [] then (ann s)(RebootPending := None)
        else (ann s)(RebootPending := None, AgentState \<mapsto> StateDone, CurrentRevision \<mapsto> ?d))"
        if "e = None"
        using False b e that pend t m p rd [OF t] bm [OF m] write_effects(6) [OF p] write_effects(9) [of ?d x]
        by (cases t; cases e2) (auto simp: startup_body_def Let_def split: if_splits)
      moreover have "ann s1 = ann s \<or> ann s1 = (ann s)(RebootPending := None)" if "e \<noteq> None"
        using False b e that pend t m p rd [OF t] bm [OF m] write_effects(6) [OF p] write_effects(9) [of ?d x]
        by (cases t; cases e2) (auto simp: startup_body_def Let_def split: if_splits)
      ultimately show ?thesis using False a pend t m by (cases t) auto
    qed
  qed
qed

lemma startup_marker:
  assumes "CheckRebootPendingOnStartup r node s = (e, s')"
  shows "\<exists>s1 e1. WriteBootMarker (hd_host r) (hd_hostRoot r) s1 = (e1, s') \<and> ann s' = ann s1 \<and>
    (e1 = None \<longrightarrow> files s' (path_join [path_join [hd_hostRoot r, bootMarkerDir], bootMarkerFile]) \<noteq> None)"
proof -
  obtain e0 s1 where b: "startup_body r node s = (e0, s1)" by fastforce
  obtain e1 u where m: "WriteBootMarker (hd_host r) (hd_hostRoot r) s1 = (e1, u)" by fastforce
  have "s' = u" using assms b m by (simp add: CheckRebootPendingOnStartup_def)
  then show ?thesis
    using m state_keeps(4) [OF host_ann, of "hd_hostRoot r" s1] WriteBootMarker_ok [of "hd_hostRoot r" s1 u]
    by (metis snd_conv)
qed

end

lemma ReadLastRebootTime_written:
  assumes "readable_fs h files temps" and "files s (statePath root lastRebootFile) = Some f"
    and "hf_content f = Format_RFC3339 t" and "zero_time \<le> t" "t < 240811142400 * 1000000000"
  shows "fst (ReadLastRebootTime h root s) = Inr (t div 1000000000 * 1000000000)"
  using readable_fs.read_total [OF assms(1,2)] assms(3) Parse_Format_RFC3339 [OF assms(4,5)]
  by (auto simp: ReadLastRebootTime_def TrimSpace_Format)

section \<open>Properties\<close>

text \<open>
  C14: The reboot policy is followed exactly. \<open>HandleReboot\<close> executes one reboot when the
  configuration requires it and the node's force annotation is set, or the strategy is
  \<open>IfRequired\<close> and no last reboot is recorded, no interval is configured, or the interval, as a
  64-bit number of nanoseconds, has passed; in every other case it executes none. A reboot that
  is executed has first recorded its time, reported the state as rebooting and removed the
  marks for a forced and for a pending reboot, as far as these writes did not fail, and changed
  no other annotation. A required reboot that is not due is marked as pending and nothing
  else, unless the write fails; a configuration that requires none changes nothing.
\<close>

theorem HandleReboot_policy:
  assumes "reboot_world r files temps ann reboots" and "HandleReboot r rmc node s = (e, s')"
  shows "reboots s' = reboots s + (if reboot_due r rmc node s then 1 else 0) \<and>
    (reboot_due r rmc node s \<longrightarrow> reboot_traces r files ann s s') \<and>
    (\<not> reboot_due r rmc node s \<longrightarrow> rrs_Required (rmcs_Reboot (rmc_Spec rmc)) \<longrightarrow>
      ann s' = (if e = None then (ann s)(RebootPending \<mapsto> ''true'') else ann s)) \<and>
    (\<not> rrs_Required (rmcs_Reboot (rmc_Spec rmc)) \<longrightarrow> e = None \<and> s' = s)"
  using reboot_world.HandleReboot_outcome [OF assms] by blast

text \<open>
  C29: Two reboots are the minimum interval apart. Let the interval be at most 9223372036
  seconds, the largest that fits a \<open>Duration\<close>. Once the time of a reboot has been written, as
  long as its file survives and can be read, no reboot is executed before the interval has
  passed, counted from the second the recorded time was cut to, unless it is forced.
\<close>

theorem min_interval_enforced:
  assumes "reboot_world r files temps ann reboots" and "readable_fs (hd_host r) files temps"
    and "WriteLastRebootTime (hd_host r) (hd_hostRoot r) t s0 = (None, written)"
    and "files s (statePath (hd_hostRoot r) lastRebootFile) = files written (statePath (hd_hostRoot r) lastRebootFile)"
    and "zero_time \<le> t" and "t < 240811142400 * 1000000000"
    and "rrs_MinIntervalSeconds (rmcs_Reboot (rmc_Spec rmc)) = n" and "0 < n" and "n \<le> 9223372036"
    and "fst (Now (hd_host r) (snd (ReadLastRebootTime (hd_host r) (hd_hostRoot r) s))) = now"
    and "t \<le> now" and "now < t div 1000000000 * 1000000000 + n * 1000000000"
    and "\<not> GetBoolAnnotation (node_Annotations node) ForceReboot"
    and "HandleReboot r rmc node s = (e, s')"
  shows "reboots s' = reboots s"
proof -
  obtain f where "files s (statePath (hd_hostRoot r) lastRebootFile) = Some f" "hf_content f = Format_RFC3339 t"
    using host_fs.WriteLastRebootTime_ok [OF readable_fs.axioms(1) [OF assms(2)] assms(3)] assms(4) by auto
  then have rd: "fst (ReadLastRebootTime (hd_host r) (hd_hostRoot r) s) = Inr (t div 1000000000 * 1000000000)"
    using ReadLastRebootTime_written [OF assms(2)] assms(5,6) by blast
  have "t div 1000000000 * 1000000000 \<le> t" by simp
  then have "0 \<le> now - t div 1000000000 * 1000000000" "now - t div 1000000000 * 1000000000 < n * 1000000000"
    using assms(11,12) by linarith+
  then have "\<not> Seconds n \<le> Sub now (t div 1000000000 * 1000000000)"
    using Seconds_exact [of n] assms(8,9) by (simp add: Sub_def sat64_def)
  then have "\<not> reboot_due r rmc node s"
    using rd assms(7,8,10,13) by (auto simp: reboot_due_def Let_def split: prod.splits sum.splits)
  then show ?thesis
    using reboot_world.HandleReboot_outcome(1) [OF assms(1,14)] by simp
qed

text \<open>
  A very long interval is no interval. The schema bounds \<open>minIntervalSeconds\<close> from below
  only; from 9223372037 up to 18446744073 seconds its conversion to a \<open>Duration\<close> wraps to a
  negative number, and a required reboot is executed at once however recent the last one is.
\<close>

theorem min_interval_overflow:
  assumes "reboot_world r files temps ann reboots"
    and "rrs_Required (rmcs_Reboot (rmc_Spec rmc))" and "rrs_Strategy (rmcs_Reboot (rmc_Spec rmc)) = ''IfRequired''"
    and "9223372037 \<le> rrs_MinIntervalSeconds (rmcs_Reboot (rmc_Spec rmc))"
    and "rrs_MinIntervalSeconds (rmcs_Reboot (rmc_Spec rmc)) \<le> 18446744073"
    and "ReadLastRebootTime (hd_host r) (hd_hostRoot r) s = (Inr recorded, u)"
    and "recorded \<le> fst (Now (hd_host r) u)"
    and "HandleReboot r rmc node s = (e, s')"
  shows "reboots s' = reboots s + 1"
proof -
  let ?n = "rrs_MinIntervalSeconds (rmcs_Reboot (rmc_Spec rmc))"
  have "(?n * 1000000000 + 2 ^ 63) mod 2 ^ 64 = ?n * 1000000000 + 2 ^ 63 - 2 ^ 64"
    by (rule int_mod_pos_eq [where q = 1]) (use assms(4,5) in simp_all)
  then have "Seconds ?n \<le> 0" using assms(5) by (simp add: Seconds_def wrap64_def)
  moreover have "0 \<le> Sub (fst (Now (hd_host r) u)) recorded" using assms(7) by (simp add: Sub_def sat64_def)
  ultimately have "reboot_due r rmc node s"
    using assms(2,3,6) by (simp add: reboot_due_def Let_def)
  then show ?thesis
    using reboot_world.HandleReboot_outcome(1) [OF assms(1,8)] by simp
qed

text \<open>
  C32: The start-up check completes a reboot. At agent start the annotations change exactly when
  a reboot was pending, a time of the last reboot is recorded and the boot marker is missing:
  then the pending mark is removed and, if a revision is desired, the node is done at that
  revision; when one of the two writes fails, nothing or only the pending mark has changed. In
  every other case the check changes no annotation. Whatever happens before, the check ends by
  writing the boot marker; unless that write fails, which is only logged, the marker is there.
\<close>

theorem startup_check_exact:
  assumes "reboot_world r files temps ann reboots" and "CheckRebootPendingOnStartup r node s = (e, s')"
  shows "(if GetBoolAnnotation (node_Annotations node) RebootPending \<and>
        (\<exists>t u. ReadLastRebootTime (hd_host r) (hd_hostRoot r) s = (Inr t, u) \<and>
          \<not> fst (BootMarkerExists (hd_host r) (hd_hostRoot r) u))
     then if e = None then ann s' = (if GetAnnotation (node_Annotations node) DesiredRevision = []
          then (ann s)(RebootPending := None)
          else (ann s)(RebootPending := None, AgentState \<mapsto> StateDone,
                       CurrentRevision \<mapsto> GetAnnotation (node_Annotations node) DesiredRevision))
        else ann s' = ann s \<or> ann s' = (ann s)(RebootPending := None)
     else ann s' = ann s \<and> e = None) \<and>
    (\<exists>s1 e1. WriteBootMarker (hd_host r) (hd_hostRoot r) s1 = (e1, s') \<and> ann s' = ann s1 \<and>
      (e1 = None \<longrightarrow> files s' (path_join [path_join [hd_hostRoot r, bootMarkerDir], bootMarkerFile]) \<noteq> None))"
  by (intro conjI reboot_world.startup_effect [OF assms] reboot_world.startup_marker [OF assms])

text \<open>
  A reboot by hand is not noticed. With the strategy \<open>Never\<close> the agent only marks the reboot
  as pending and records no time. If no time was recorded before, the start-up check after the
  operator has rebooted the node, boot marker missing or not, leaves the annotations as they
  are: the reboot stays pending and the revision is never reported as current.
\<close>

theorem manual_reboot_not_detected:
  assumes "reboot_world r files temps ann reboots"
    and "rrs_Required (rmcs_Reboot (rmc_Spec rmc))" and "rrs_Strategy (rmcs_Reboot (rmc_Spec rmc)) = ''Never''"
    and "\<not> GetBoolAnnotation (node_Annotations node) ForceReboot"
    and "files s (statePath (hd_hostRoot r) lastRebootFile) = None"
    and "HandleReboot r rmc node s = (None, before)"
    and "files restarted (statePath (hd_hostRoot r) lastRebootFile) = files before (statePath (hd_hostRoot r) lastRebootFile)"
    and "CheckRebootPendingOnStartup r node' restarted = (e, after)"
  shows "GetBoolAnnotation (ann before) RebootPending \<and> ann after = ann restarted"
proof -
  have p: "setPending r s = (None, before)"
    using assms(2-4,6) by (simp add: HandleReboot_def)
  have "ann before = (ann s)(RebootPending \<mapsto> ''true'')"
    using reboot_world.setPending_effect [OF assms(1) p] by simp
  moreover have "files before = files s"
    using p reboot_world.write_files(3) [OF assms(1), of True s] by (simp add: setPending_def)
  then have "\<not> (\<exists>t u. ReadLastRebootTime (hd_host r) (hd_hostRoot r) restarted = (Inr t, u))"
    using host_fs.ReadLastRebootTime_missing [OF reboot_world.axioms(1) [OF assms(1)], of restarted "hd_hostRoot r"]
      assms(5,7) by auto
  ultimately show ?thesis
    using reboot_world.startup_effect [OF assms(1,8)]
    by (auto simp: GetBoolAnnotation_def ValueTrue_def split: if_splits)
qed

section \<open>Instances\<close>

definition box_execute :: "box \<Rightarrow> go_error option \<times> box" where
  "box_execute s = (None, s\<lparr>bx_reboots := bx_reboots s + 1\<rparr>)"

abbreviation box_writer :: "box NodeWriter" where
  "box_writer \<equiv> mem_writer bx_ann (\<lambda>a s. s\<lparr>bx_ann := a\<rparr>) ''n1''"

definition box_handler :: "box Handler" where
  "box_handler = NewHandler box_host ''/host'' box_writer box_execute"

lemma box_handler_parts:
  "hd_host box_handler = box_host" "hd_hostRoot box_handler = ''/host''"
  "hd_writer box_handler = box_writer" "hd_executor box_handler = box_execute"
  by (simp_all add: box_handler_def NewHandler_def)

interpretation box_reboot: reboot_world box_handler "\<lambda>s. dk_files (bx_disk s)" "\<lambda>s. dk_temps (bx_disk s)"
  bx_ann bx_reboots
proof (intro reboot_world.intro reboot_world_axioms.intro, unfold box_handler_parts)
  show "host_fs box_host (\<lambda>s. dk_files (bx_disk s)) (\<lambda>s. dk_temps (bx_disk s))"
    by (rule box_fs.host_fs_axioms)
  show "node_patch_api box_writer bx_ann" by (rule mem_writer_api) simp
  show "host_keeps box_host bx_ann" "host_keeps box_host bx_reboots" by (rule disk_keeps, simp)+
  show "writer_keeps box_writer (\<lambda>s. dk_files (bx_disk s))" "writer_keeps box_writer bx_reboots"
    by (rule mem_writer_keeps, simp)+
qed (auto simp: box_execute_def)

definition ex_policy :: "string \<Rightarrow> int \<Rightarrow> RenderedMachineConfig" where
  "ex_policy strategy n = ex_revision ''w-2'' ''workers'' 0\<lparr>rmc_Spec :=
     rmc_Spec (ex_revision ''w-2'' ''workers'' 0)\<lparr>rmcs_Reboot :=
       \<lparr>rrs_Required = True, rrs_Strategy = strategy, rrs_MinIntervalSeconds = n\<rparr>\<rparr>\<rparr>"

abbreviation ex_idle :: Node where "ex_idle \<equiv> ex_running ''w-1''"

theorem HandleReboot_policy_witness:
  "bx_reboots (snd (HandleReboot box_handler (ex_policy ''IfRequired'' 1800) ex_idle ex_box)) = 1 \<and>
   bx_ann (snd (HandleReboot box_handler (ex_policy ''Never'' 1800) ex_idle ex_box)) RebootPending = Some ''true''"
proof -
  let ?a = "HandleReboot box_handler (ex_policy ''IfRequired'' 1800) ex_idle ex_box"
  let ?b = "HandleReboot box_handler (ex_policy ''Never'' 1800) ex_idle ex_box"
  have path: "statePath ''/host'' lastRebootFile = ''/host/var/lib/mco/last-reboot''"
    by (simp add: reboot_defs path_defs strings_defs)
  have "reboot_due box_handler (ex_policy ''IfRequired'' 1800) ex_idle ex_box"
    by (simp add: reboot_due_def box_handler_parts ex_policy_def ReadLastRebootTime_def path)
      (simp add: ex_box_def ex_disk_def disk_host_def)
  moreover have "\<not> reboot_due box_handler (ex_policy ''Never'' 1800) ex_idle ex_box"
    "rrs_Required (rmcs_Reboot (rmc_Spec (ex_policy ''Never'' 1800)))"
    by (simp_all add: reboot_due_def ex_policy_def ex_running_def GetBoolAnnotation_def ValueTrue_def)
  moreover have "fst ?b = None"
    by (simp add: HandleReboot_def ex_policy_def ex_running_def GetBoolAnnotation_def setPending_def
        box_handler_parts mem_writes ValueTrue_def)
  moreover have "bx_reboots ex_box = 0" by (simp add: ex_box_def)
  ultimately show ?thesis
    using HandleReboot_policy [OF box_reboot.reboot_world_axioms prod.collapse [of ?a, symmetric]]
      HandleReboot_policy [OF box_reboot.reboot_world_axioms prod.collapse [of ?b, symmetric]]
    by simp
qed

lemma box_path: "statePath ''/host'' lastRebootFile = ''/host/var/lib/mco/last-reboot''"
  by (simp add: reboot_defs path_defs strings_defs)

abbreviation ex_written :: "go_error option \<times> box" where
  "ex_written \<equiv> WriteLastRebootTime box_host ''/host'' 0 ex_box"

lemma ex_written_ok: "fst ex_written = None"
  by (simp add: WriteLastRebootTime_def Let_def disk_host_def ex_box_def)

theorem min_interval_enforced_witness:
  "bx_reboots (snd (HandleReboot box_handler (ex_policy ''IfRequired'' 1800) ex_idle (snd ex_written))) = 0"
proof -
  have n: "bx_reboots (snd ex_written) = 0" "dk_now (bx_disk (snd ex_written)) = 0"
    by (simp_all add: WriteLastRebootTime_def Let_def disk_host_def ex_box_def ex_disk_def)
  have same: "snd (ReadLastRebootTime box_host ''/host'' s) = s" for s
    by (simp add: ReadLastRebootTime_def disk_host_def split: option.split)
  have "ex_written = (None, snd ex_written)" using ex_written_ok by (simp add: prod_eq_iff)
  moreover have "fst (Now box_host (snd ex_written)) = 0" using n by (simp add: disk_host_def)
  ultimately have "bx_reboots (snd (HandleReboot box_handler (ex_policy ''IfRequired'' 1800) ex_idle (snd ex_written)))
      = bx_reboots (snd ex_written)"
    by (intro min_interval_enforced [OF box_reboot.reboot_world_axioms, where t = 0 and now = 0
          and n = 1800 and written = "snd ex_written" and node = ex_idle and rmc = "ex_policy ''IfRequired'' 1800"
          and e = "fst (HandleReboot box_handler (ex_policy ''IfRequired'' 1800) ex_idle (snd ex_written))"])
      (simp_all add: box_handler_parts box_fs.readable_fs_axioms same ex_policy_def ex_running_def
        GetBoolAnnotation_def ValueTrue_def zero_time_def)
  then show ?thesis using n by simp
qed

lemma ex_written_read:
  "ReadLastRebootTime box_host ''/host'' (snd ex_written) = (Inr 0, snd ex_written)"
proof -
  obtain f where "dk_files (bx_disk (snd ex_written)) (statePath ''/host'' lastRebootFile) = Some f"
    "hf_content f = Format_RFC3339 0"
    using box_fs.WriteLastRebootTime_ok [of "''/host''" 0 ex_box "snd ex_written"] ex_written_ok
    by (metis prod.collapse)
  then show ?thesis
    using Parse_Format_RFC3339 [of 0]
    by (simp add: ReadLastRebootTime_def disk_host_def TrimSpace_Format zero_time_def)
qed

theorem min_interval_overflow_witness:
  "bx_reboots (snd (HandleReboot box_handler (ex_policy ''IfRequired'' 9223372037) ex_idle (snd ex_written))) = 1"
proof -
  let ?run = "HandleReboot box_handler (ex_policy ''IfRequired'' 9223372037) ex_idle (snd ex_written)"
  have n: "bx_reboots (snd ex_written) = 0" "dk_now (bx_disk (snd ex_written)) = 0"
    by (simp_all add: WriteLastRebootTime_def Let_def disk_host_def ex_box_def ex_disk_def)
  have "bx_reboots (snd ?run) = bx_reboots (snd ex_written) + 1"
  proof (rule min_interval_overflow [OF box_reboot.reboot_world_axioms])
    show "HandleReboot box_handler (ex_policy ''IfRequired'' 9223372037) ex_idle (snd ex_written) = (fst ?run, snd ?run)"
      by simp
    show "ReadLastRebootTime (hd_host box_handler) (hd_hostRoot box_handler) (snd ex_written) = (Inr 0, snd ex_written)"
      unfolding box_handler_parts by (rule ex_written_read)
    show "0 \<le> fst (Now (hd_host box_handler) (snd ex_written))"
      unfolding box_handler_parts using n(2) by (simp add: disk_host_def)
  qed (simp_all add: ex_policy_def)
  then show ?thesis using n(1) by simp
qed

definition ex_pending :: Node where
  "ex_pending = ex_idle\<lparr>node_Annotations := [RebootPending \<mapsto> ''true'', DesiredRevision \<mapsto> ''w-2'']\<rparr>"

lemma ex_marker_missing:
  "fst (BootMarkerExists box_host ''/host'' (snd ex_written)) = False"
proof -
  have p: "path_join [''/host'', bootMarkerDir, bootMarkerFile] = ''/host/run/mco/boot-marker''"
    "statePath ''/host'' lastRebootFile = ''/host/var/lib/mco/last-reboot''"
    by (simp_all add: reboot_defs path_defs strings_defs)
  show ?thesis
    unfolding BootMarkerExists_def WriteLastRebootTime_def p
    by (simp add: Let_def disk_host_def ex_box_def ex_disk_def)
qed

abbreviation ex_startup :: "go_error option \<times> box" where
  "ex_startup \<equiv> CheckRebootPendingOnStartup box_handler ex_pending (snd ex_written)"

lemma ex_startup_ok: "fst ex_startup = None"
proof -
  have s: "json_safe (\<lambda>r. True) ''w-2''" by (rule json_safe_ascii) simp
  define u where "u = snd ex_written"
  obtain v where v: "BootMarkerExists box_host ''/host'' u = (False, v)"
    using ex_marker_missing [folded u_def] by (cases "BootMarkerExists box_host ''/host'' u") simp
  have rd: "ReadLastRebootTime box_host ''/host'' u = (Inr 0, u)"
    unfolding u_def by (rule ex_written_read)
  have "fst (startup_body box_handler ex_pending u) = None"
    unfolding startup_body_def box_handler_parts rd
    by (simp add: v ex_pending_def mem_writes s GetBoolAnnotation_def ValueTrue_def)
  then show ?thesis
    unfolding u_def [symmetric] CheckRebootPendingOnStartup_def by (simp add: case_prod_unfold)
qed

theorem startup_check_exact_witness:
  "bx_ann (snd ex_startup) = (bx_ann (snd ex_written))
     (RebootPending := None, AgentState \<mapsto> StateDone, CurrentRevision \<mapsto> ''w-2'')"
  using startup_check_exact [OF box_reboot.reboot_world_axioms prod.collapse [of ex_startup, symmetric]]
    ex_startup_ok ex_marker_missing ex_written_read
  by (simp add: box_handler_parts ex_pending_def GetBoolAnnotation_def ValueTrue_def)

theorem manual_reboot_not_detected_witness:
  "bx_ann (snd (CheckRebootPendingOnStartup box_handler ex_pending
     (snd (HandleReboot box_handler (ex_policy ''Never'' 1800) ex_idle ex_box)))) =
   bx_ann (snd (HandleReboot box_handler (ex_policy ''Never'' 1800) ex_idle ex_box))"
proof -
  let ?b = "HandleReboot box_handler (ex_policy ''Never'' 1800) ex_idle ex_box"
  let ?s = "CheckRebootPendingOnStartup box_handler ex_pending (snd ?b)"
  have "fst ?b = None"
    by (simp add: HandleReboot_def ex_policy_def ex_running_def GetBoolAnnotation_def setPending_def
        box_handler_parts mem_writes ValueTrue_def)
  then have b: "?b = (None, snd ?b)" by (simp add: prod_eq_iff)
  have f: "dk_files (bx_disk ex_box) (statePath (hd_hostRoot box_handler) lastRebootFile) = None"
    unfolding box_handler_parts box_path by (simp add: ex_box_def ex_disk_def)
  show ?thesis
    using manual_reboot_not_detected [OF box_reboot.reboot_world_axioms _ _ _ f b refl
        prod.collapse [of ?s, symmetric]]
    by (simp add: ex_policy_def ex_running_def GetBoolAnnotation_def ValueTrue_def)
qed

end
