(* ===== verification/Agent_Diff.thy ===== *)
theory Agent_Diff
  imports MCO_Types Go_Strings
begin

text \<open>
  The agent's comparison of two rendered configurations, \<open>internal/agent/diff.go\<close>, and the
  decision whether moving between them needs a reboot,
  \<open>internal/agent/reboot_decision.go\<close>.

  The two diffs are the same algorithm over files and over units. The locale \<open>keyed_diff\<close>
  states what both compute; its lemmas are proved once and interpreted on \<open>DiffFiles\<close> and
  \<open>DiffUnits\<close>. The properties read a configuration as a partial map from paths to files and
  from names to units, so that they do not mention the diff at all.
\<close>

section \<open>diff.go\<close>

datatype ChangeType = ChangeTypeAdded | ChangeTypeModified | ChangeTypeRemoved

text \<open>The string constants behind the change types, as \<open>%s\<close> prints them.\<close>

primrec change_text :: "ChangeType \<Rightarrow> string" where
  "change_text ChangeTypeAdded = ''added''"
| "change_text ChangeTypeModified = ''modified''"
| "change_text ChangeTypeRemoved = ''removed''"

record FileChange =
  fch_Path :: string
  fch_ChangeType :: ChangeType

record UnitChange =
  uch_Name :: string
  uch_ChangeType :: ChangeType

definition boolPtrEqual :: "bool option \<Rightarrow> bool option \<Rightarrow> bool" where
  "boolPtrEqual a b =
     (if a = None \<and> b = None then True
      else if a = None \<or> b = None then False
      else the a = the b)"

definition filesEqual :: "FileSpec \<Rightarrow> FileSpec \<Rightarrow> bool" where
  "filesEqual a b \<longleftrightarrow>
     file_Content a = file_Content b \<and> file_Mode a = file_Mode b \<and>
     file_Owner a = file_Owner b \<and> file_State a = file_State b"

definition unitsEqual :: "UnitSpec \<Rightarrow> UnitSpec \<Rightarrow> bool" where
  "unitsEqual a b =
     (if \<not> boolPtrEqual (unit_Enabled a) (unit_Enabled b) then False
      else unit_State a = unit_State b \<and> unit_Mask a = unit_Mask b)"

text \<open>The maps that both functions build first: a later element replaces an earlier one.\<close>

definition keyed :: "('a \<Rightarrow> string) \<Rightarrow> 'a list \<Rightarrow> (string \<rightharpoonup> 'a)" where
  "keyed key xs = foldl (\<lambda>m x. m(key x \<mapsto> x)) Map.empty xs"

definition DiffFiles :: "FileSpec list \<Rightarrow> FileSpec list \<Rightarrow> FileChange list" where
  "DiffFiles current new =
     (let currentMap = keyed file_Path current;
          newMap = keyed file_Path new;
          changes = foldl (\<lambda>changes f.
              case currentMap (file_Path f) of
                None \<Rightarrow> changes @
                  [\<lparr>fch_Path = file_Path f, fch_ChangeType = ChangeTypeAdded\<rparr>]
              | Some old \<Rightarrow>
                  if \<not> filesEqual old f then changes @
                    [\<lparr>fch_Path = file_Path f, fch_ChangeType = ChangeTypeModified\<rparr>]
                  else changes) [] new;
          changes = foldl (\<lambda>changes f.
              case newMap (file_Path f) of
                None \<Rightarrow> changes @
                  [\<lparr>fch_Path = file_Path f, fch_ChangeType = ChangeTypeRemoved\<rparr>]
              | Some _ \<Rightarrow> changes) changes current
      in sort_slice (\<lambda>a b. fch_Path a < fch_Path b) changes)"

definition DiffUnits :: "UnitSpec list \<Rightarrow> UnitSpec list \<Rightarrow> UnitChange list" where
  "DiffUnits current new =
     (let currentMap = keyed unit_Name current;
          newMap = keyed unit_Name new;
          changes = foldl (\<lambda>changes u.
              case currentMap (unit_Name u) of
                None \<Rightarrow> changes @
                  [\<lparr>uch_Name = unit_Name u, uch_ChangeType = ChangeTypeAdded\<rparr>]
              | Some old \<Rightarrow>
                  if \<not> unitsEqual old u then changes @
                    [\<lparr>uch_Name = unit_Name u, uch_ChangeType = ChangeTypeModified\<rparr>]
                  else changes) [] new;
          changes = foldl (\<lambda>changes u.
              case newMap (unit_Name u) of
                None \<Rightarrow> changes @
                  [\<lparr>uch_Name = unit_Name u, uch_ChangeType = ChangeTypeRemoved\<rparr>]
              | Some _ \<Rightarrow> changes) changes current
      in sort_slice (\<lambda>a b. uch_Name a < uch_Name b) changes)"

section \<open>reboot_decision.go\<close>

record RebootDecision =
  dec_Required :: bool
  dec_Reasons :: "string list"
  dec_Method :: string

definition MethodDiffBased :: string where "MethodDiffBased = ''diff-based''"
definition MethodLegacyFirstApply :: string where
  "MethodLegacyFirstApply = ''legacy-first-apply''"
definition MethodLegacyFallback :: string where "MethodLegacyFallback = ''legacy-fallback''"
definition MethodSameRevision :: string where "MethodSameRevision = ''same-revision''"

definition hasRebootRequirements :: "RenderedMachineConfig \<Rightarrow> bool" where
  "hasRebootRequirements rmc \<longleftrightarrow>
     0 < length (rbr_Files (rmcs_RebootRequirements (rmc_Spec rmc))) \<or>
     0 < length (rbr_Units (rmcs_RebootRequirements (rmc_Spec rmc)))"

text \<open>Reading a Go map of booleans: a missing key reads as false.\<close>

definition flag_of :: "(string \<times> bool) list \<Rightarrow> string \<Rightarrow> bool" where
  "flag_of m k \<longleftrightarrow> map_of m k = Some True"

definition change_requires ::
  "(string \<times> bool) list \<Rightarrow> (string \<times> bool) list \<Rightarrow> ChangeType \<Rightarrow> string \<Rightarrow> bool" where
  "change_requires cur_reqs new_reqs ct k =
     (case ct of
        ChangeTypeAdded \<Rightarrow> flag_of new_reqs k
      | ChangeTypeModified \<Rightarrow> flag_of new_reqs k
      | ChangeTypeRemoved \<Rightarrow> flag_of cur_reqs k)"

definition diffBasedReboot ::
  "RenderedMachineConfig \<Rightarrow> RenderedMachineConfig \<Rightarrow> RebootDecision" where
  "diffBasedReboot current new =
     (let cs = rmc_Spec current; ns = rmc_Spec new;
          fileChanges = DiffFiles (rc_Files (rmcs_Config cs)) (rc_Files (rmcs_Config ns));
          reasons = foldl (\<lambda>reasons change.
              if change_requires (rbr_Files (rmcs_RebootRequirements cs))
                   (rbr_Files (rmcs_RebootRequirements ns))
                   (fch_ChangeType change) (fch_Path change)
              then reasons @ [''file '' @ fch_Path change @ '' ('' @
                     change_text (fch_ChangeType change) @ '') requires reboot'']
              else reasons) [] fileChanges;
          unitChanges = DiffUnits (systemd_Units (rc_Systemd (rmcs_Config cs)))
                          (systemd_Units (rc_Systemd (rmcs_Config ns)));
          reasons = foldl (\<lambda>reasons change.
              if change_requires (rbr_Units (rmcs_RebootRequirements cs))
                   (rbr_Units (rmcs_RebootRequirements ns))
                   (uch_ChangeType change) (uch_Name change)
              then reasons @ [''unit '' @ uch_Name change @ '' ('' @
                     change_text (uch_ChangeType change) @ '') requires reboot'']
              else reasons) reasons unitChanges
      in \<lparr>dec_Required = 0 < length reasons, dec_Reasons = reasons,
          dec_Method = MethodDiffBased\<rparr>)"

text \<open>
  \<open>RMCFetcher\<close> is an interface of the source: a function of the name and of the state it
  works on. The agent's own \<open>FetchRMC\<close> is one.
\<close>

type_synonym 's fetcher = "string \<Rightarrow> 's \<Rightarrow> RenderedMachineConfig result \<times> 's"

definition DetermineReboot ::
  "'s fetcher \<Rightarrow> string \<Rightarrow> RenderedMachineConfig \<Rightarrow> 's \<Rightarrow> RebootDecision \<times> 's" where
  "DetermineReboot fetch currentRevision newRMC s =
     (let legacy = rrs_Required (rmcs_Reboot (rmc_Spec newRMC)) in
      if currentRevision = [] then
        (\<lparr>dec_Required = legacy, dec_Reasons = [''first apply''],
          dec_Method = MethodLegacyFirstApply\<rparr>, s)
      else if currentRevision = rmc_Name newRMC then
        (\<lparr>dec_Required = False, dec_Reasons = [], dec_Method = MethodSameRevision\<rparr>, s)
      else case fetch currentRevision s of
        (Inl err, s') \<Rightarrow>
          (\<lparr>dec_Required = legacy, dec_Reasons = [''fallback: current RMC not available''],
            dec_Method = MethodLegacyFallback\<rparr>, s')
      | (Inr currentRMC, s') \<Rightarrow>
          if \<not> hasRebootRequirements newRMC \<and> \<not> hasRebootRequirements currentRMC then
            (\<lparr>dec_Required = legacy,
              dec_Reasons = [''fallback: RebootRequirements not populated''],
              dec_Method = MethodLegacyFallback\<rparr>, s')
          else (diffBasedReboot currentRMC newRMC, s'))"

lemmas diff_defs [mco_eval] =
  boolPtrEqual_def filesEqual_def unitsEqual_def keyed_def DiffFiles_def DiffUnits_def
  MethodDiffBased_def MethodLegacyFirstApply_def MethodLegacyFallback_def
  MethodSameRevision_def hasRebootRequirements_def flag_of_def change_requires_def
  diffBasedReboot_def DetermineReboot_def


section \<open>What a diff promises\<close>

text \<open>The difference of two partial maps at one key.\<close>

fun change_at :: "'a option \<Rightarrow> 'a option \<Rightarrow> ChangeType option" where
  "change_at None None = None"
| "change_at None (Some y) = Some ChangeTypeAdded"
| "change_at (Some x) None = Some ChangeTypeRemoved"
| "change_at (Some x) (Some y) = (if x = y then None else Some ChangeTypeModified)"

lemma change_at_None [simp]: "change_at a b = None \<longleftrightarrow> a = b"
  by (cases a; cases b) auto

lemma change_at_eq:
  "change_at a b = Some ChangeTypeAdded \<longleftrightarrow> a = None \<and> b \<noteq> None"
  "change_at a b = Some ChangeTypeRemoved \<longleftrightarrow> a \<noteq> None \<and> b = None"
  "change_at a b = Some ChangeTypeModified \<longleftrightarrow> a \<noteq> None \<and> b \<noteq> None \<and> a \<noteq> b"
  by (cases a; cases b; auto)+

lemma keyed_snoc [simp]: "keyed key (xs @ [x]) = (keyed key xs)(key x \<mapsto> x)"
  by (simp add: keyed_def)

lemma keyed_Nil [simp]: "keyed key [] = Map.empty"
  by (simp add: keyed_def)

lemma keyed_SomeD: "keyed key xs k = Some x \<Longrightarrow> x \<in> set xs \<and> key x = k"
  by (induction xs rule: rev_induct) (auto split: if_splits)

lemma keyed_None: "keyed key xs k = None \<longleftrightarrow> k \<notin> key ` set xs"
  by (induction xs rule: rev_induct) auto

lemma keyed_None_sym: "None = keyed key xs k \<longleftrightarrow> k \<notin> key ` set xs"
  by (metis keyed_None)

lemma keyed_Some:
  "distinct (map key xs) \<Longrightarrow> keyed key xs k = Some x \<longleftrightarrow> x \<in> set xs \<and> key x = k"
  by (induction xs rule: rev_induct) (auto dest: keyed_SomeD intro: rev_image_eqI)

lemma keyed_eq_iff:
  assumes "distinct (map key xs)" and "distinct (map key ys)"
  shows "keyed key xs = keyed key ys \<longleftrightarrow> set xs = set ys"
proof
  assume eq: "keyed key xs = keyed key ys"
  show "set xs = set ys"
    using keyed_Some [OF assms(1)] keyed_Some [OF assms(2)] unfolding eq by blast
next
  assume "set xs = set ys"
  then have "keyed key xs k = Some x \<longleftrightarrow> keyed key ys k = Some x" for k x
    using keyed_Some [OF assms(1)] keyed_Some [OF assms(2)] by simp
  then show "keyed key xs = keyed key ys"
    by (metis ext option.exhaust)
qed

text \<open>Both loops, as the list of pairs they append.\<close>

definition new_side ::
  "('a \<Rightarrow> string) \<Rightarrow> ('a \<Rightarrow> 'a \<Rightarrow> bool) \<Rightarrow> 'a list \<Rightarrow> 'a \<Rightarrow> (string \<times> ChangeType) list" where
  "new_side key same cur x =
     (case keyed key cur (key x) of
        None \<Rightarrow> [(key x, ChangeTypeAdded)]
      | Some y \<Rightarrow> if same y x then [] else [(key x, ChangeTypeModified)])"

definition old_side :: "('a \<Rightarrow> string) \<Rightarrow> 'a list \<Rightarrow> 'a \<Rightarrow> (string \<times> ChangeType) list" where
  "old_side key new x =
     (case keyed key new (key x) of None \<Rightarrow> [(key x, ChangeTypeRemoved)] | Some y \<Rightarrow> [])"

lemmas side_defs = new_side_def old_side_def

lemma distinct_concat_map_keys:
  assumes "distinct (map key xs)" and "\<And>x. g x = [] \<or> (\<exists>t. g x = [(key x, t)])"
  shows "distinct (map fst (concat (map g xs))) \<and>
    set (map fst (concat (map g xs))) \<subseteq> key ` set xs"
  using assms(1)
proof (induction xs)
  case (Cons x xs)
  then have IH: "distinct (map fst (concat (map g xs)))"
      "set (map fst (concat (map g xs))) \<subseteq> key ` set xs" "key x \<notin> key ` set xs"
    by simp_all
  from assms(2) [of x] show ?case
  proof
    assume "g x = []"
    then show ?thesis using IH by auto
  next
    assume "\<exists>t. g x = [(key x, t)]"
    then obtain t where "g x = [(key x, t)]" ..
    then show ?thesis using IH by auto
  qed
qed simp

lemma side_shape:
  "new_side key same cur x = [] \<or> (\<exists>t. new_side key same cur x = [(key x, t)])"
  "old_side key new x = [] \<or> (\<exists>t. old_side key new x = [(key x, t)])"
  by (auto simp: side_defs split: option.split)

lemma side_key:
  "(k, t) \<in> set (new_side key same cur x) \<Longrightarrow> key x = k"
  "(k, t) \<in> set (old_side key new x) \<Longrightarrow> key x = k"
  using side_shape(1) [of key same cur x] side_shape(2) [of key new x] by auto

locale keyed_diff =
  fixes key :: "'a \<Rightarrow> string" and same :: "'a \<Rightarrow> 'a \<Rightarrow> bool"
    and diff :: "'a list \<Rightarrow> 'a list \<Rightarrow> 'c list" and pair :: "'c \<Rightarrow> string \<times> ChangeType"
  assumes same_iff: "key a = key b \<Longrightarrow> same a b \<longleftrightarrow> a = b"
    and diff_mset: "mset (map pair (diff cur new)) =
      mset (concat (map (new_side key same cur) new) @ concat (map (old_side key new) cur))"
    and diff_sorted: "sorted (map (fst \<circ> pair) (diff cur new))"
begin

lemma diff_set:
  "pair ` set (diff cur new) =
    (\<Union>x\<in>set new. set (new_side key same cur x)) \<union> (\<Union>x\<in>set cur. set (old_side key new x))"
  using arg_cong [OF diff_mset, of set_mset cur new] by simp

lemma diff_keys_distinct:
  assumes "distinct (map key cur)" and "distinct (map key new)"
  shows "distinct (map (fst \<circ> pair) (diff cur new))"
proof -
  have n: "distinct (map fst (concat (map (new_side key same cur) new)))"
    using distinct_concat_map_keys 
      [OF assms(2), where g = "new_side key same cur", OF side_shape(1)] by (rule conjunct1)
  have o: "distinct (map fst (concat (map (old_side key new) cur)))"
    using distinct_concat_map_keys 
      [OF assms(1), where g = "old_side key new", OF side_shape(2)] by (rule conjunct1)
  have "fst ` (\<Union>x\<in>set new. set (new_side key same cur x)) \<inter>
    fst ` (\<Union>x\<in>set cur. set (old_side key new x)) = {}"
    by (auto simp: side_defs keyed_None keyed_None_sym split: option.splits if_splits)
  then have "distinct (map fst (concat (map (new_side key same cur) new) @
      concat (map (old_side key new) cur)))"
    using n o by simp
  then show ?thesis
    using arg_cong [OF diff_mset, of "image_mset fst" cur new]
    by (metis (no_types, lifting) map_map mset_eq_imp_distinct_iff mset_map)
qed

lemma diff_exact:
  assumes "distinct (map key cur)" and "distinct (map key new)"
  shows "(k, t) \<in> pair ` set (diff cur new) \<longleftrightarrow>
    change_at (keyed key cur k) (keyed key new k) = Some t"
proof -
  have new: "(k, t) \<in> (\<Union>x\<in>set new. set (new_side key same cur x)) \<longleftrightarrow>
    (\<exists>x. keyed key new k = Some x \<and> (k, t) \<in> set (new_side key same cur x))"
    unfolding keyed_Some [OF assms(2)] by (blast dest: side_key)
  have old: "(k, t) \<in> (\<Union>x\<in>set cur. set (old_side key new x)) \<longleftrightarrow>
    (\<exists>x. keyed key cur k = Some x \<and> (k, t) \<in> set (old_side key new x))"
    unfolding keyed_Some [OF assms(1)] by (blast dest: side_key)
  have key: "keyed key new k = Some x \<Longrightarrow> key x = k" "keyed key cur k = Some x \<Longrightarrow> key x = k" for x
    by (auto dest: keyed_SomeD)
  show ?thesis
  proof (cases "keyed key cur k")
    case None
    then show ?thesis
      unfolding diff_set Un_iff new old
      by (cases "keyed key new k") (auto simp: new_side_def key)
  next
    case (Some x)
    then show ?thesis
      unfolding diff_set Un_iff new old
      by (cases "keyed key new k")
        (auto simp: side_defs key same_iff)
  qed
qed

lemma diff_empty:
  assumes "distinct (map key cur)" and "distinct (map key new)"
  shows "diff cur new = [] \<longleftrightarrow> set cur = set new"
proof -
  have "diff cur new = [] \<longleftrightarrow> (\<forall>k. change_at (keyed key cur k) (keyed key new k) = None)"
    using diff_exact [OF assms] by (metis empty_iff image_is_empty list.set(1) old.prod.exhaust
        option.exhaust option.distinct(1) set_empty ex_in_conv)
  then show ?thesis
    by (simp add: keyed_eq_iff [OF assms, symmetric] fun_eq_iff)
qed

lemma diff_some:
  assumes "distinct (map key cur)" and "distinct (map key new)"
  shows "(\<exists>c\<in>set (diff cur new). P (snd (pair c)) (fst (pair c))) \<longleftrightarrow>
    (\<exists>k t. change_at (keyed key cur k) (keyed key new k) = Some t \<and> P t k)"
  unfolding diff_exact [OF assms, symmetric] image_iff by (metis fst_conv snd_conv surjective_pairing)

end


definition file_change_pair :: "FileChange \<Rightarrow> string \<times> ChangeType" where
  "file_change_pair c = (fch_Path c, fch_ChangeType c)"

definition unit_change_pair :: "UnitChange \<Rightarrow> string \<times> ChangeType" where
  "unit_change_pair c = (uch_Name c, uch_ChangeType c)"

lemma change_pair_eq:
  "file_change_pair c = (p, t) \<longleftrightarrow> c = \<lparr>fch_Path = p, fch_ChangeType = t\<rparr>"
  "unit_change_pair d = (p, t) \<longleftrightarrow> d = \<lparr>uch_Name = p, uch_ChangeType = t\<rparr>"
  by (cases c, auto simp: file_change_pair_def) (cases d, auto simp: unit_change_pair_def)

lemma change_pair_image:
  "(p, t) \<in> file_change_pair ` A \<longleftrightarrow> \<lparr>fch_Path = p, fch_ChangeType = t\<rparr> \<in> A"
  "(p, t) \<in> unit_change_pair ` B \<longleftrightarrow> \<lparr>uch_Name = p, uch_ChangeType = t\<rparr> \<in> B"
  by (simp_all add: image_iff eq_commute [of "(p, t)"] change_pair_eq)

lemma mset_map_sort_slice: "mset (map f (sort_slice lt xs)) = mset (map f xs)"
  by simp

lemma foldl_append_concat: "foldl (\<lambda>acc x. acc @ g x) a xs = a @ concat (map g xs)"
  by (induction xs arbitrary: a) simp_all

lemma DiffFiles_alt:
  "DiffFiles current new =
     sort_slice (\<lambda>a b. fch_Path a < fch_Path b)
       (map (\<lambda>(p, t). \<lparr>fch_Path = p, fch_ChangeType = t\<rparr>)
         (concat (map (new_side file_Path filesEqual current) new) @
          concat (map (old_side file_Path new) current)))"
proof -
  let ?mk = "map (\<lambda>(p, t). \<lparr>fch_Path = p, fch_ChangeType = t\<rparr>)"
  have new: "(case keyed file_Path current (file_Path f) of
        None \<Rightarrow> cs @ [\<lparr>fch_Path = file_Path f, fch_ChangeType = ChangeTypeAdded\<rparr>]
      | Some old \<Rightarrow> if \<not> filesEqual old f
          then cs @ [\<lparr>fch_Path = file_Path f, fch_ChangeType = ChangeTypeModified\<rparr>] else cs)
    = cs @ ?mk (new_side file_Path filesEqual current f)" for cs f
    by (simp add: new_side_def split: option.split)
  have old: "(case keyed file_Path new (file_Path f) of
        None \<Rightarrow> cs @ [\<lparr>fch_Path = file_Path f, fch_ChangeType = ChangeTypeRemoved\<rparr>]
      | Some _ \<Rightarrow> cs)
    = cs @ ?mk (old_side file_Path new f)" for cs f
    by (simp add: old_side_def split: option.split)
  show ?thesis
    unfolding DiffFiles_def Let_def new old foldl_append_concat
    by (simp add: map_concat comp_def)
qed

lemma DiffUnits_alt:
  "DiffUnits current new =
     sort_slice (\<lambda>a b. uch_Name a < uch_Name b)
       (map (\<lambda>(n, t). \<lparr>uch_Name = n, uch_ChangeType = t\<rparr>)
         (concat (map (new_side unit_Name unitsEqual current) new) @
          concat (map (old_side unit_Name new) current)))"
proof -
  let ?mk = "map (\<lambda>(n, t). \<lparr>uch_Name = n, uch_ChangeType = t\<rparr>)"
  have new: "(case keyed unit_Name current (unit_Name u) of
        None \<Rightarrow> cs @ [\<lparr>uch_Name = unit_Name u, uch_ChangeType = ChangeTypeAdded\<rparr>]
      | Some old \<Rightarrow> if \<not> unitsEqual old u
          then cs @ [\<lparr>uch_Name = unit_Name u, uch_ChangeType = ChangeTypeModified\<rparr>] else cs)
    = cs @ ?mk (new_side unit_Name unitsEqual current u)" for cs u
    by (simp add: new_side_def split: option.split)
  have old: "(case keyed unit_Name new (unit_Name u) of
        None \<Rightarrow> cs @ [\<lparr>uch_Name = unit_Name u, uch_ChangeType = ChangeTypeRemoved\<rparr>]
      | Some _ \<Rightarrow> cs)
    = cs @ ?mk (old_side unit_Name new u)" for cs u
    by (simp add: old_side_def split: option.split)
  show ?thesis
    unfolding DiffUnits_def Let_def new old foldl_append_concat
    by (simp add: map_concat comp_def)
qed

lemma boolPtrEqual_iff [simp]: "boolPtrEqual a b \<longleftrightarrow> a = b"
  by (cases a; cases b) (auto simp: boolPtrEqual_def)

interpretation files: keyed_diff file_Path filesEqual DiffFiles file_change_pair
proof
  show "file_Path a = file_Path b \<Longrightarrow> filesEqual a b \<longleftrightarrow> a = b" for a b
    by (auto simp: filesEqual_def)
  show "mset (map file_change_pair (DiffFiles cur new)) =
    mset (concat (map (new_side file_Path filesEqual cur) new) @
      concat (map (old_side file_Path new) cur))" for cur new
    unfolding DiffFiles_alt mset_map_sort_slice map_map
    by (simp add: file_change_pair_def comp_def case_prod_unfold)
  have "fst \<circ> file_change_pair = fch_Path"
    by (simp add: fun_eq_iff file_change_pair_def)
  then show "sorted (map (fst \<circ> file_change_pair) (DiffFiles cur new))" for cur new
    unfolding DiffFiles_alt by (simp only: sorted_sort_slice)
qed

interpretation units: keyed_diff unit_Name unitsEqual DiffUnits unit_change_pair
proof
  show "unit_Name a = unit_Name b \<Longrightarrow> unitsEqual a b \<longleftrightarrow> a = b" for a b
    by (auto simp: unitsEqual_def)
  show "mset (map unit_change_pair (DiffUnits cur new)) =
    mset (concat (map (new_side unit_Name unitsEqual cur) new) @
      concat (map (old_side unit_Name new) cur))" for cur new
    unfolding DiffUnits_alt mset_map_sort_slice map_map
    by (simp add: unit_change_pair_def comp_def case_prod_unfold)
  have "fst \<circ> unit_change_pair = uch_Name"
    by (simp add: fun_eq_iff unit_change_pair_def)
  then show "sorted (map (fst \<circ> unit_change_pair) (DiffUnits cur new))" for cur new
    unfolding DiffUnits_alt by (simp only: sorted_sort_slice)
qed

section \<open>The diff of two configurations\<close>

text \<open>
  C31: The file diff and the unit diff are exact. For two lists without duplicate paths (names),
  \<open>DiffFiles\<close> (\<open>DiffUnits\<close>) reports a path exactly when the two configurations differ
  there: as added, removed or modified according to which of the two has it; every path once
  and in increasing order; and the diff is empty exactly when both lists hold the same files
  (units).
\<close>

theorem diff_exact_and_sorted:
  assumes "distinct (map file_Path fs)" and "distinct (map file_Path fs')"
    and "distinct (map unit_Name us)" and "distinct (map unit_Name us')"
  shows "(\<lparr>fch_Path = p, fch_ChangeType = t\<rparr> \<in> set (DiffFiles fs fs') \<longleftrightarrow>
      change_at (keyed file_Path fs p) (keyed file_Path fs' p) = Some t) \<and>
    sorted_wrt (<) (map fch_Path (DiffFiles fs fs')) \<and>
    (DiffFiles fs fs' = [] \<longleftrightarrow> set fs = set fs') \<and>
    (\<lparr>uch_Name = n, uch_ChangeType = u\<rparr> \<in> set (DiffUnits us us') \<longleftrightarrow>
      change_at (keyed unit_Name us n) (keyed unit_Name us' n) = Some u) \<and>
    sorted_wrt (<) (map uch_Name (DiffUnits us us')) \<and>
    (DiffUnits us us' = [] \<longleftrightarrow> set us = set us')"
proof (intro conjI)
  show "\<lparr>fch_Path = p, fch_ChangeType = t\<rparr> \<in> set (DiffFiles fs fs') \<longleftrightarrow>
      change_at (keyed file_Path fs p) (keyed file_Path fs' p) = Some t"
    using files.diff_exact [OF assms(1,2)] by (simp add: change_pair_image)
  show "\<lparr>uch_Name = n, uch_ChangeType = u\<rparr> \<in> set (DiffUnits us us') \<longleftrightarrow>
      change_at (keyed unit_Name us n) (keyed unit_Name us' n) = Some u"
    using units.diff_exact [OF assms(3,4)] by (simp add: change_pair_image)
  have *: "fst \<circ> file_change_pair = fch_Path" "fst \<circ> unit_change_pair = uch_Name"
    by (simp_all add: fun_eq_iff file_change_pair_def unit_change_pair_def)
  show "sorted_wrt (<) (map fch_Path (DiffFiles fs fs'))"
    using files.diff_sorted [of fs fs'] files.diff_keys_distinct [OF assms(1,2)]
    unfolding * by (simp add: strict_sorted_iff)
  show "sorted_wrt (<) (map uch_Name (DiffUnits us us'))"
    using units.diff_sorted [of us us'] units.diff_keys_distinct [OF assms(3,4)]
    unfolding * by (simp add: strict_sorted_iff)
qed (rule files.diff_empty [OF assms(1,2)] units.diff_empty [OF assms(3,4)])+

section \<open>When a reboot is required\<close>

text \<open>A rendered configuration as partial maps, and the shape \<open>Merge\<close> gives it.\<close>

definition rmc_file :: "RenderedMachineConfig \<Rightarrow> string \<rightharpoonup> FileSpec" where
  "rmc_file rmc = keyed file_Path (rc_Files (rmcs_Config (rmc_Spec rmc)))"

definition rmc_unit :: "RenderedMachineConfig \<Rightarrow> string \<rightharpoonup> UnitSpec" where
  "rmc_unit rmc = keyed unit_Name (systemd_Units (rc_Systemd (rmcs_Config (rmc_Spec rmc))))"

definition rmc_distinct :: "RenderedMachineConfig \<Rightarrow> bool" where
  "rmc_distinct rmc \<longleftrightarrow>
     distinct (map file_Path (rc_Files (rmcs_Config (rmc_Spec rmc)))) \<and>
     distinct (map unit_Name (systemd_Units (rc_Systemd (rmcs_Config (rmc_Spec rmc)))))"

definition file_needs_reboot :: "RenderedMachineConfig \<Rightarrow> string \<Rightarrow> bool" where
  "file_needs_reboot rmc = flag_of (rbr_Files (rmcs_RebootRequirements (rmc_Spec rmc)))"

definition unit_needs_reboot :: "RenderedMachineConfig \<Rightarrow> string \<Rightarrow> bool" where
  "unit_needs_reboot rmc = flag_of (rbr_Units (rmcs_RebootRequirements (rmc_Spec rmc)))"

lemma foldl_reasons:
  "foldl (\<lambda>rs c. if P c then rs @ [g c] else rs) rs xs = rs @ map g (filter P xs)"
  by (induction xs arbitrary: rs) simp_all

lemma diffBasedReboot_required:
  "dec_Required (diffBasedReboot cur new) \<longleftrightarrow>
     (\<exists>c\<in>set (DiffFiles (rc_Files (rmcs_Config (rmc_Spec cur)))
                (rc_Files (rmcs_Config (rmc_Spec new)))).
        change_requires (rbr_Files (rmcs_RebootRequirements (rmc_Spec cur)))
          (rbr_Files (rmcs_RebootRequirements (rmc_Spec new)))
          (snd (file_change_pair c)) (fst (file_change_pair c))) \<or>
     (\<exists>c\<in>set (DiffUnits (systemd_Units (rc_Systemd (rmcs_Config (rmc_Spec cur))))
                (systemd_Units (rc_Systemd (rmcs_Config (rmc_Spec new))))).
        change_requires (rbr_Units (rmcs_RebootRequirements (rmc_Spec cur)))
          (rbr_Units (rmcs_RebootRequirements (rmc_Spec new)))
          (snd (unit_change_pair c)) (fst (unit_change_pair c)))"
  unfolding diffBasedReboot_def Let_def foldl_reasons
  by (simp add: filter_empty_conv file_change_pair_def unit_change_pair_def)

lemma change_requires_at:
  "(\<exists>t. change_at a b = Some t \<and> change_requires cr nr t k) \<longleftrightarrow>
     a \<noteq> b \<and> (if b = None then flag_of cr k else flag_of nr k)"
  by (cases a; cases b) (auto simp: change_requires_def)

lemma diffBasedReboot_iff:
  assumes "rmc_distinct cur" and "rmc_distinct new"
  shows "dec_Required (diffBasedReboot cur new) \<longleftrightarrow>
    (\<exists>p. rmc_file cur p \<noteq> rmc_file new p \<and>
       file_needs_reboot (if rmc_file new p = None then cur else new) p) \<or>
    (\<exists>n. rmc_unit cur n \<noteq> rmc_unit new n \<and>
       unit_needs_reboot (if rmc_unit new n = None then cur else new) n)"
proof -
  note d = assms [unfolded rmc_distinct_def]
  show ?thesis
    unfolding diffBasedReboot_required
      files.diff_some [OF conjunct1 [OF d(1)] conjunct1 [OF d(2)]]
      units.diff_some [OF conjunct2 [OF d(1)] conjunct2 [OF d(2)]]
      change_requires_at rmc_file_def rmc_unit_def file_needs_reboot_def unit_needs_reboot_def
    by (simp only: if_distrib if_distribR cong: if_cong)
qed

text \<open>
  C20: The agent reboots for what changed and for nothing else. On a transition between two
  different revisions whose current configuration can be fetched, with per-file reboot
  requirements recorded in at least one of them, \<open>DetermineReboot\<close> requires a reboot
  exactly when some file or unit differs between the two configurations and is marked as
  requiring one: by the new configuration if that still has it, by the old one if it was
  removed.
\<close>

theorem reboot_iff_requiring_change:
  assumes "revision \<noteq> []" and "revision \<noteq> rmc_Name new" and "fetch revision s = (Inr cur, s')"
    and "hasRebootRequirements new \<or> hasRebootRequirements cur"
    and "rmc_distinct cur" and "rmc_distinct new"
  shows "dec_Required (fst (DetermineReboot fetch revision new s)) \<longleftrightarrow>
    (\<exists>p. rmc_file cur p \<noteq> rmc_file new p \<and>
       file_needs_reboot (if rmc_file new p = None then cur else new) p) \<or>
    (\<exists>n. rmc_unit cur n \<noteq> rmc_unit new n \<and>
       unit_needs_reboot (if rmc_unit new n = None then cur else new) n)"
  using assms(1-4) diffBasedReboot_iff [OF assms(5,6)]
  by (auto simp: DetermineReboot_def Let_def)

section \<open>Instances\<close>

definition ex_motd :: FileSpec where
  "ex_motd = \<lparr>file_Path = ''/etc/motd'', file_Content = ''hi'', file_Mode = 420,
     file_Owner = ''root:root'', file_State = ''present''\<rparr>"

definition ex_sysctl :: FileSpec where
  "ex_sysctl = \<lparr>file_Path = ''/etc/sysctl.d/9.conf'', file_Content = ''a=1'', file_Mode = 420,
     file_Owner = ''root:root'', file_State = ''present''\<rparr>"

definition ex_unit :: UnitSpec where
  "ex_unit = \<lparr>unit_Name = ''chronyd.service'', unit_Enabled = Some True,
     unit_State = ''started'', unit_Mask = False\<rparr>"

text \<open>
  Two revisions: the second drops the message of the day, whose removal is harmless, changes
  a kernel setting that needs a reboot and keeps the unit.
\<close>

definition ex_rendered ::
  "string \<Rightarrow> FileSpec list \<Rightarrow> (string \<times> bool) list \<Rightarrow> RenderedMachineConfig" where
  "ex_rendered name fs reqs =
     \<lparr>rmc_Name = name, rmc_Labels = Map.empty, rmc_CreationTimestamp = 0,
      rmc_OwnerPool = Some ''workers'',
      rmc_Spec = \<lparr>rmcs_PoolName = ''workers'', rmcs_Revision = name, rmcs_ConfigHash = name,
        rmcs_Config = \<lparr>rc_Files = fs, rc_Systemd = \<lparr>systemd_Units = [ex_unit]\<rparr>\<rparr>,
        rmcs_Sources = [],
        rmcs_RebootRequirements = \<lparr>rbr_Files = reqs, rbr_Units = []\<rparr>,
        rmcs_Reboot = \<lparr>rrs_Required = False, rrs_Strategy = ''IfRequired'',
          rrs_MinIntervalSeconds = 0\<rparr>\<rparr>\<rparr>"

definition ex_rmc_old :: RenderedMachineConfig where
  "ex_rmc_old = ex_rendered ''w-1'' [ex_motd, ex_sysctl] [(file_Path ex_motd, False)]"

definition ex_rmc_new :: RenderedMachineConfig where
  "ex_rmc_new = ex_rendered ''w-2'' [ex_sysctl\<lparr>file_Content := ''a=2''\<rparr>]
     [(file_Path ex_sysctl, True)]"

lemmas ex_rmc_defs [mco_eval] =
  ex_motd_def ex_sysctl_def ex_unit_def ex_rendered_def ex_rmc_old_def ex_rmc_new_def

theorem diff_exact_and_sorted_witness:
  "\<lparr>fch_Path = ''/etc/motd'', fch_ChangeType = ChangeTypeRemoved\<rparr> \<in>
     set (DiffFiles [ex_motd, ex_sysctl] [ex_sysctl]) \<and>
   DiffUnits [ex_unit] [ex_unit] = []"
  using diff_exact_and_sorted [where fs = "[ex_motd, ex_sysctl]" and fs' = "[ex_sysctl]"
      and us = "[ex_unit]" and us' = "[ex_unit]" and p = "''/etc/motd''"
      and t = ChangeTypeRemoved]
    diff_exact_and_sorted [where fs = "[ex_motd]" and fs' = "[ex_motd]"
      and us = "[ex_unit]" and us' = "[ex_unit]"]
  by (simp add: ex_rmc_defs keyed_def)

theorem reboot_iff_requiring_change_witness:
  "dec_Required (fst (DetermineReboot (\<lambda>n s. (Inr ex_rmc_old, s)) ''w-1'' ex_rmc_new ()))"
proof -
  have "rmc_file ex_rmc_old (file_Path ex_sysctl) \<noteq> rmc_file ex_rmc_new (file_Path ex_sysctl)"
    "file_needs_reboot (if rmc_file ex_rmc_new (file_Path ex_sysctl) = None
       then ex_rmc_old else ex_rmc_new) (file_Path ex_sysctl)"
    by (simp_all add: rmc_file_def file_needs_reboot_def flag_of_def keyed_def ex_rmc_defs)
  moreover have "rmc_distinct ex_rmc_old" "rmc_distinct ex_rmc_new"
    by (simp_all add: rmc_distinct_def ex_rmc_defs)
  moreover have "hasRebootRequirements ex_rmc_new" "''w-1'' \<noteq> rmc_Name ex_rmc_new"
    by (simp_all add: hasRebootRequirements_def ex_rmc_defs)
  ultimately show ?thesis
    using reboot_iff_requiring_change [where fetch = "\<lambda>n s. (Inr ex_rmc_old, s)"
        and revision = "''w-1''" and new = ex_rmc_new and cur = ex_rmc_old and s = "()"
        and s' = "()"] by blast
qed

end
