(* ===== verification/RMC_Cache.thy ===== *)
theory RMC_Cache
  imports Agent_Diff
begin

text \<open>
  The agent's cache of rendered configurations, \<open>internal/agent/rmc_cache.go\<close>. The map is an
  association list because \<open>Len\<close> counts it; the clock is the argument \<open>now\<close> of the
  operations that read it. Every operation holds the cache's mutex from its first to its last
  line, so operations are atomic and the interleavings of callers are sequences of them.
\<close>

section \<open>rmc_cache.go\<close>

definition DefaultRMCCacheTTL :: duration where
  "DefaultRMCCacheTTL = 5 * 60 * 1000000000"

record cachedRMC =
  cached_rmc :: RenderedMachineConfig
  cached_fetchedAt :: time

record RMCCache =
  cache_items :: "(string \<times> cachedRMC) list"
  cache_ttl :: duration

definition NewRMCCache :: "duration \<Rightarrow> RMCCache" where
  "NewRMCCache ttl =
     \<lparr>cache_items = [], cache_ttl = (if ttl \<le> 0 then DefaultRMCCacheTTL else ttl)\<rparr>"

definition Cache_Get :: "time \<Rightarrow> RMCCache \<Rightarrow> string \<Rightarrow> RenderedMachineConfig option" where
  "Cache_Get now c name =
     (case map_of (cache_items c) name of
        None \<Rightarrow> None
      | Some item \<Rightarrow>
          if cache_ttl c \<le> Sub now (cached_fetchedAt item) then None
          else Some (cached_rmc item))"

definition Cache_Set :: "time \<Rightarrow> RMCCache \<Rightarrow> string \<Rightarrow> RenderedMachineConfig \<Rightarrow> RMCCache" where
  "Cache_Set now c name rmc =
     c\<lparr>cache_items := AList.update name \<lparr>cached_rmc = rmc, cached_fetchedAt = now\<rparr>
        (cache_items c)\<rparr>"

definition Cache_Delete :: "RMCCache \<Rightarrow> string \<Rightarrow> RMCCache" where
  "Cache_Delete c name = c\<lparr>cache_items := AList.delete name (cache_items c)\<rparr>"

definition Cache_Clear :: "RMCCache \<Rightarrow> RMCCache" where
  "Cache_Clear c = c\<lparr>cache_items := []\<rparr>"

definition Cache_Len :: "RMCCache \<Rightarrow> nat" where
  "Cache_Len c = length (cache_items c)"

definition Cache_Cleanup :: "time \<Rightarrow> RMCCache \<Rightarrow> RMCCache" where
  "Cache_Cleanup now c =
     c\<lparr>cache_items :=
        filter (\<lambda>(name, item). \<not> cache_ttl c \<le> Sub now (cached_fetchedAt item)) (cache_items c)\<rparr>"

lemmas cache_defs [mco_eval] =
  DefaultRMCCacheTTL_def NewRMCCache_def Cache_Get_def Cache_Set_def Cache_Delete_def
  Cache_Clear_def Cache_Len_def Cache_Cleanup_def

section \<open>Invariant\<close>

text \<open>Keys are distinct, as in a Go map, and the time to live is a positive \<open>Duration\<close>.\<close>

definition cache_ok :: "RMCCache \<Rightarrow> bool" where
  "cache_ok c \<longleftrightarrow> distinct (map fst (cache_items c)) \<and> 0 < cache_ttl c \<and> cache_ttl c < 2 ^ 63"

lemma cache_ok_preserved [simp]:
  "ttl < 2 ^ 63 \<Longrightarrow> cache_ok (NewRMCCache ttl)"
  "cache_ok c \<Longrightarrow> cache_ok (Cache_Set now c n r)"
  "cache_ok c \<Longrightarrow> cache_ok (Cache_Delete c n)"
  "cache_ok c \<Longrightarrow> cache_ok (Cache_Clear c)"
  "cache_ok c \<Longrightarrow> cache_ok (Cache_Cleanup now c)"
  by (simp_all add: cache_ok_def cache_defs distinct_update distinct_delete distinct_map_filter)

lemma map_of_filter_pred:
  "distinct (map fst xs) \<Longrightarrow>
    map_of (filter (\<lambda>(k, v). P v) xs) n = (case map_of xs n of
      None \<Rightarrow> None | Some v \<Rightarrow> if P v then Some v else None)"
proof (induction xs)
  case (Cons x xs)
  moreover have "n \<notin> fst ` set xs \<Longrightarrow> map_of xs n = None" for n
    by (simp add: map_of_eq_None_iff)
  ultimately show ?case by (cases x) auto
qed simp

lemma expired_iff:
  assumes "0 < ttl" and "ttl < 2 ^ 63"
  shows "ttl \<le> Sub t u \<longleftrightarrow> ttl \<le> t - u"
  using assms by (auto simp: Sub_def sat64_def)

section \<open>The cache as a log of its operations\<close>

text \<open>
  The operations that write the cache, each with the time at which it read the clock, and
  the specification: a lookup scans the log, newest entry first.
\<close>

datatype cache_op =
    OpSet time string RenderedMachineConfig
  | OpDelete string
  | OpClear
  | OpCleanup time

primrec cache_step :: "cache_op \<Rightarrow> RMCCache \<Rightarrow> RMCCache" where
  "cache_step (OpSet t n r) c = Cache_Set t c n r"
| "cache_step (OpDelete n) c = Cache_Delete c n"
| "cache_step OpClear c = Cache_Clear c"
| "cache_step (OpCleanup t) c = Cache_Cleanup t c"

primrec cache_run :: "RMCCache \<Rightarrow> cache_op list \<Rightarrow> RMCCache" where
  "cache_run c [] = c"
| "cache_run c (op # ops) = cache_step op (cache_run c ops)"

fun log_get :: "time \<Rightarrow> duration \<Rightarrow> cache_op list \<Rightarrow> string \<Rightarrow> RenderedMachineConfig option" where
  "log_get now ttl [] n = None"
| "log_get now ttl (OpSet t m r # ops) n =
     (if m = n then (if now - t < ttl then Some r else None) else log_get now ttl ops n)"
| "log_get now ttl (OpDelete m # ops) n = (if m = n then None else log_get now ttl ops n)"
| "log_get now ttl (OpClear # ops) n = None"
| "log_get now ttl (OpCleanup t # ops) n = log_get now ttl ops n"

fun op_time_le :: "time \<Rightarrow> cache_op \<Rightarrow> bool" where
  "op_time_le now (OpSet t n r) \<longleftrightarrow> t \<le> now"
| "op_time_le now (OpCleanup t) \<longleftrightarrow> t \<le> now"
| "op_time_le now op \<longleftrightarrow> True"

lemma cache_step_ok: "cache_ok c \<Longrightarrow> cache_ok (cache_step op c)"
  by (cases op) simp_all

lemma cache_run_ok: "cache_ok c \<Longrightarrow> cache_ok (cache_run c ops)"
  by (induction ops) (simp_all add: cache_step_ok)

lemma cache_step_ttl [simp]: "cache_ttl (cache_step op c) = cache_ttl c"
  by (cases op) (simp_all add: cache_defs)

lemma cache_run_ttl [simp]: "cache_ttl (cache_run c ops) = cache_ttl c"
  by (induction ops) simp_all

lemma Cache_Get_Set:
  assumes "cache_ok c"
  shows "Cache_Get now (Cache_Set t c m r) n =
    (if m = n then (if now - t < cache_ttl c then Some r else None) else Cache_Get now c n)"
  using assms expired_iff [of "cache_ttl c" now t]
  by (auto simp: Cache_Get_def Cache_Set_def cache_ok_def update_conv split: option.split)

lemma Cache_Get_Delete:
  "Cache_Get now (Cache_Delete c m) n = (if m = n then None else Cache_Get now c n)"
  by (auto simp: Cache_Get_def Cache_Delete_def delete_conv split: option.split)

lemma Cache_Get_Cleanup:
  assumes "cache_ok c" and "t \<le> now"
  shows "Cache_Get now (Cache_Cleanup t c) n = Cache_Get now c n"
proof -
  have "map_of (cache_items (Cache_Cleanup t c)) n = (case map_of (cache_items c) n of
      None \<Rightarrow> None
    | Some i \<Rightarrow> if \<not> cache_ttl c \<le> Sub t (cached_fetchedAt i) then Some i else None)"
    using assms(1) map_of_filter_pred [where n = n and xs = "cache_items c"
        and P = "\<lambda>i. \<not> cache_ttl c \<le> Sub t (cached_fetchedAt i)"]
    by (simp add: Cache_Cleanup_def cache_ok_def)
  moreover have "cache_ttl c \<le> Sub t u \<Longrightarrow> cache_ttl c \<le> Sub now u" for u
    using assms expired_iff [of "cache_ttl c"] by (fastforce simp: cache_ok_def)
  ultimately show ?thesis
    by (auto simp: Cache_Get_def Cache_Cleanup_def split: option.split)
qed

text \<open>
  C30: The cache refines its log. After any sequence of \<open>Set\<close>, \<open>Delete\<close>, \<open>Clear\<close> and
  \<open>Cleanup\<close> calls on a new cache, \<open>Get\<close> at a time not before them returns exactly the value
  that the newest relevant call left: the configuration last set under that name, if it was
  set less than the time to live ago and not deleted since. \<open>Cleanup\<close> is invisible. A time
  to live that is not positive means five minutes.
\<close>

theorem RMCCache_refines_log:
  assumes "ttl < 2 ^ 63" and "list_all (op_time_le now) ops"
  shows "Cache_Get now (cache_run (NewRMCCache ttl) ops) name =
    log_get now (if ttl \<le> 0 then 300 * 1000000000 else ttl) ops name"
  using assms(2)
proof (induction ops)
  case Nil
  then show ?case by (simp add: cache_defs)
next
  case (Cons op ops)
  have ok: "cache_ok (cache_run (NewRMCCache ttl) ops)"
    using assms(1) by (simp add: cache_run_ok)
  have ttl: "cache_ttl (NewRMCCache ttl) = (if ttl \<le> 0 then 300 * 1000000000 else ttl)"
    by (simp add: cache_defs)
  show ?case
    using Cons ok
    by (cases op) (simp_all add: Cache_Get_Set Cache_Get_Delete Cache_Get_Cleanup ttl,
        simp add: Cache_Clear_def Cache_Get_def)
qed

text \<open>
  A configuration set four minutes ago survives a cleanup; after six minutes it is gone.
\<close>

definition ex_cached :: "RenderedMachineConfig \<Rightarrow> cache_op list" where
  "ex_cached r = [OpCleanup (180 * 1000000000), OpSet 0 ''w-1'' r]"

theorem RMCCache_refines_log_witness:
  "Cache_Get (240 * 1000000000) (cache_run (NewRMCCache 0) (ex_cached ex_rmc_old)) ''w-1''
     = Some ex_rmc_old \<and>
   Cache_Get (360 * 1000000000) (cache_run (NewRMCCache 0) (ex_cached ex_rmc_old)) ''w-1''
     = None"
  using RMCCache_refines_log [where ttl = 0 and now = "240 * 1000000000" and name = "''w-1''"
      and ops = "ex_cached ex_rmc_old"]
    RMCCache_refines_log [where ttl = 0 and now = "360 * 1000000000" and name = "''w-1''"
      and ops = "ex_cached ex_rmc_old"]
  by (simp add: ex_cached_def)

end
