(* ===== verification/Agent.thy ===== *)
theory Agent
  imports Reboot RMC_Cache "HOL-Library.Word"
begin

text \<open>
  The agent, \<open>internal/agent/agent.go\<close>: from an event of the node's watch to the applied
  configuration and the report on the node. The agent's fields are the record \<open>'s Agent\<close>; the
  world outside it (API server, host, systemd) is a state \<open>'s\<close>, and each operation maps the
  agent and the world to a result and both of them.

  \<^item> A context is a function of the world, as in \<open>Agent_Apply\<close>. \<open>context.WithCancel\<close> gives a
    child with a number of its own; the agent remembers the numbers that were cancelled.
  \<^item> \<open>k8s.io/apimachinery\<close>'s \<open>wait\<close> package is the parameter \<open>lib\<close>: the exponential back-off
    runs a condition and the predicate \<open>Interrupted\<close> tells its timeout errors.
  \<^item> The watch is a list of what the select statement of \<open>watchNode\<close> meets: the end of the
    context, the closed channel or an event.
\<close>

section \<open>The agent's fields\<close>

record 's Agent =
  ag_nodeName :: string
  ag_GetRMC :: "'s \<Rightarrow> string \<Rightarrow> RenderedMachineConfig result \<times> 's"
  ag_applier :: "'s Applier"
  ag_writer :: "'s NodeWriter"
  ag_rebootHandler :: "'s Handler"
  ag_hostRoot :: string
  ag_rmcCache :: RMCCache
  ag_pendingRebootRevision :: string
  ag_currentUpdateCancel :: "nat option"
  ag_currentDesiredRev :: string
  ag_currentUpdateID :: "64 word"
  ag_contexts :: nat
  ag_cancelled :: "nat list"

record 's Config =
  cfg_NodeName :: string
  cfg_K8sClient :: "(string \<Rightarrow> 's NodeWriter) option"
  cfg_MCOClient :: "('s \<Rightarrow> string \<Rightarrow> RenderedMachineConfig result \<times> 's) option"
  cfg_HostRoot :: string
  cfg_SystemdConn :: "'s systemd_conn option"
  cfg_NoReboot :: bool

text \<open>
  \<open>NewWithContext\<close>, with the host it runs on, the D-Bus connection it can make, and the two
  executors. \<open>cfg_K8sClient\<close> stands for \<open>NewNodeWriter\<close> over the client.
\<close>

definition NewWithContext ::
  "'s host \<Rightarrow> 's systemd_conn result \<Rightarrow> ('s \<Rightarrow> go_error option \<times> 's) \<Rightarrow> ('s \<Rightarrow> go_error option \<times> 's) \<Rightarrow>
     's Config \<Rightarrow> 's Agent result" where
  "NewWithContext h dbus noop systemctl cfg =
     (if cfg_NodeName cfg = [] then Inl (Err ''node name is required'')
      else case cfg_K8sClient cfg of
        None \<Rightarrow> Inl (Err ''kubernetes client is required'')
      | Some k8s \<Rightarrow>
     (case cfg_MCOClient cfg of
        None \<Rightarrow> Inl (Err ''MCO client is required'')
      | Some getRMC \<Rightarrow>
     (case (case cfg_SystemdConn cfg of Some conn \<Rightarrow> Inr conn | None \<Rightarrow> dbus) of
        Inl err \<Rightarrow> Inl (Wrap ''failed to create systemd connection'' err)
      | Inr conn \<Rightarrow>
          let writer = k8s (cfg_NodeName cfg);
              executor = (if cfg_NoReboot cfg then noop else systemctl)
          in Inr \<lparr>ag_nodeName = cfg_NodeName cfg, ag_GetRMC = getRMC,
                  ag_applier = NewApplier h (cfg_HostRoot cfg) conn, ag_writer = writer,
                  ag_rebootHandler = NewHandler h (cfg_HostRoot cfg) writer executor,
                  ag_hostRoot = cfg_HostRoot cfg, ag_rmcCache = NewRMCCache DefaultRMCCacheTTL,
                  ag_pendingRebootRevision = [], ag_currentUpdateCancel = None,
                  ag_currentDesiredRev = [], ag_currentUpdateID = 0, ag_contexts = 0, ag_cancelled = []\<rparr>)))"

abbreviation ag_host :: "'s Agent \<Rightarrow> 's host" where
  "ag_host a \<equiv> hd_host (ag_rebootHandler a)"

section \<open>Fetching rendered configurations\<close>

type_synonym 's fetch_state = "'s \<times> RenderedMachineConfig option \<times> go_error option"

record 's wait_lib =
  ExponentialBackoff :: "nat \<Rightarrow> ('s fetch_state \<Rightarrow> bool result \<times> 's fetch_state) \<Rightarrow> 's fetch_state \<Rightarrow>
    go_error option \<times> 's fetch_state"
  Interrupted :: "go_error \<Rightarrow> bool"

text \<open>The condition that is polled; it assigns the variables \<open>rmc\<close> and \<open>lastErr\<close> around it.\<close>

definition fetch_condition ::
  "('s \<Rightarrow> go_error option) \<Rightarrow> 's Agent \<Rightarrow> string \<Rightarrow> 's fetch_state \<Rightarrow> bool result \<times> 's fetch_state" where
  "fetch_condition ctx a name st =
     (case st of (s, rmc, lastErr) \<Rightarrow>
        (case ctx s of
           Some err \<Rightarrow> (Inl err, (s, rmc, lastErr))
         | None \<Rightarrow>
             (case ag_GetRMC a s name of
                (Inl err, s1) \<Rightarrow>
                  (if IsNotFound err then Inr False else Inl err, (s1, None, Some err))
              | (Inr r, s1) \<Rightarrow> (Inr True, (s1, Some r, lastErr)))))"

text \<open>
  A back-off that ends without an error ends after the condition was met, with \<open>rmc\<close> assigned;
  the last case stands for a nil pointer that no run returns.
\<close>

definition fetchRMCWithRetry ::
  "'s wait_lib \<Rightarrow> ('s \<Rightarrow> go_error option) \<Rightarrow> 's Agent \<Rightarrow> string \<Rightarrow> 's \<Rightarrow> RenderedMachineConfig result \<times> 's" where
  "fetchRMCWithRetry lib ctx a name s =
     (case ExponentialBackoff lib 4 (fetch_condition ctx a name) (s, None, None) of
        (Some err, (s1, rmc, lastErr)) \<Rightarrow>
          (if IsContextErr err then Inl err
           else if Interrupted lib err \<and> lastErr \<noteq> None then Inl (the lastErr)
           else Inl err, s1)
      | (None, (s1, rmc, lastErr)) \<Rightarrow>
          (case rmc of Some r \<Rightarrow> Inr r | None \<Rightarrow> Inl (Err ''nil RenderedMachineConfig''), s1))"

definition FetchRMC :: "string \<Rightarrow> 's Agent \<times> 's \<Rightarrow> RenderedMachineConfig result \<times> 's Agent \<times> 's" where
  "FetchRMC name w =
     (case w of (a, s) \<Rightarrow>
        (case Now (ag_host a) s of
           (now, s0) \<Rightarrow>
             (case Cache_Get now (ag_rmcCache a) name of
                Some cached \<Rightarrow> (Inr cached, (a, s0))
              | None \<Rightarrow>
                  (case ag_GetRMC a s0 name of
                     (Inl err, s1) \<Rightarrow>
                       (if IsNotFound err
                        then Inl (Err (''RMC '' @ name @ '' not found (may have been garbage collected)''))
                        else Inl (Wrap (''failed to fetch RMC '' @ name) err), (a, s1))
                   | (Inr rmc, s1) \<Rightarrow>
                       (case Now (ag_host a) s1 of
                          (now', s2) \<Rightarrow>
                            (Inr rmc, (a\<lparr>ag_rmcCache := Cache_Set now' (ag_rmcCache a) name rmc\<rparr>, s2)))))))"

section \<open>Applying a configuration\<close>

definition report_done :: "string \<Rightarrow> 's Agent \<times> 's \<Rightarrow> go_error option \<times> 's Agent \<times> 's" where
  "report_done name w =
     (case w of (a, s) \<Rightarrow>
        let a1 = a\<lparr>ag_pendingRebootRevision := []\<rparr> in
        (case SetDone (ag_writer a1) name s of
           (Some err, s1) \<Rightarrow> (Some (Wrap ''set done state'' err), (a1, s1))
         | (None, s1) \<Rightarrow> (None, (a1, s1))))"

definition with_required :: "RenderedMachineConfig \<Rightarrow> bool \<Rightarrow> RenderedMachineConfig" where
  "with_required rmc b =
     rmc\<lparr>rmc_Spec := (rmc_Spec rmc)\<lparr>rmcs_Reboot := (rmcs_Reboot (rmc_Spec rmc))\<lparr>rrs_Required := b\<rparr>\<rparr>\<rparr>"

text \<open>The part of \<open>applyConfig\<close> after something was applied.\<close>

definition settle_reboot ::
  "RenderedMachineConfig \<Rightarrow> Node \<Rightarrow> 's Agent \<times> 's \<Rightarrow> go_error option \<times> 's Agent \<times> 's" where
  "settle_reboot rmc node w =
     (let currentRevision = GetAnnotation (node_Annotations node) CurrentRevision in
      case DetermineReboot FetchRMC currentRevision rmc w of
        (decision, (a, s)) \<Rightarrow>
          (case HandleReboot (ag_rebootHandler a) (with_required rmc (dec_Required decision)) node s of
             (Some err, s1) \<Rightarrow>
               (Some err, (a, snd (SetStateWithError (ag_writer a) StateError
                                     (''reboot handling: '' @ error_text err) s1)))
           | (None, s1) \<Rightarrow>
               if dec_Required decision then (None, (a\<lparr>ag_pendingRebootRevision := rmc_Name rmc\<rparr>, s1))
               else report_done (rmc_Name rmc) (a, s1)))"

definition applyConfig ::
  "('s \<Rightarrow> go_error option) \<Rightarrow> RenderedMachineConfig \<Rightarrow> Node \<Rightarrow> 's Agent \<times> 's \<Rightarrow>
     go_error option \<times> 's Agent \<times> 's" where
  "applyConfig ctx rmc node w =
     (case w of (a, s) \<Rightarrow>
        (case SetState (ag_writer a) StateApplying s of
           (Some err, s1) \<Rightarrow> (Some (Wrap ''set applying state'' err), (a, s1))
         | (None, s1) \<Rightarrow>
             let s2 = snd (ClearLastError (ag_writer a) s1) in
             (case ApplySpec ctx (ag_applier a) (rmc_Spec rmc) s2 of
                (result, s3) \<Rightarrow>
                  (case ar_Error result of
                     Some err \<Rightarrow>
                       (Some err, (a, snd (SetStateWithError (ag_writer a) StateError (error_text err) s3)))
                   | None \<Rightarrow>
                       if ar_FilesApplied result = 0 \<and> ar_UnitsApplied result = 0
                       then report_done (rmc_Name rmc) (a, s3)
                       else settle_reboot rmc node (a, s3)))))"

definition handleNodeUpdate ::
  "'s wait_lib \<Rightarrow> ('s \<Rightarrow> go_error option) \<Rightarrow> Node \<Rightarrow> 's Agent \<times> 's \<Rightarrow> go_error option \<times> 's Agent \<times> 's" where
  "handleNodeUpdate lib ctx node w =
     (case w of (a, s) \<Rightarrow>
        let an = node_Annotations node;
            desired = GetAnnotation an DesiredRevision; current = GetAnnotation an CurrentRevision
        in if IsNodePaused an then (None, (a, s))
           else if desired = [] then (None, (a, s))
           else if desired = current then (None, (a, s))
           else if ag_pendingRebootRevision a = desired \<or> GetBoolAnnotation an RebootPending then
             (case fetchRMCWithRetry lib ctx a desired s of
                (Inl err, s1) \<Rightarrow> (None, (a, s1))
              | (Inr rmc, s1) \<Rightarrow> (None, (a, snd (HandleReboot (ag_rebootHandler a) rmc node s1))))
           else
             (case fetchRMCWithRetry lib ctx a desired s of
                (Inl err, s1) \<Rightarrow>
                  (Some (Wrap (''fetch RMC '' @ desired) err),
                   (a, snd (SetStateWithError (ag_writer a) StateError (''fetch RMC: '' @ error_text err) s1)))
              | (Inr rmc, s1) \<Rightarrow> applyConfig ctx rmc node (a, s1)))"

section \<open>The watch\<close>

definition processNodeUpdateWithCancel ::
  "'s wait_lib \<Rightarrow> ('s \<Rightarrow> go_error option) \<Rightarrow> Node \<Rightarrow> 's Agent \<times> 's \<Rightarrow> go_error option \<times> 's Agent \<times> 's" where
  "processNodeUpdateWithCancel lib ctx node w =
     (case w of (a, s) \<Rightarrow>
        let desired = GetAnnotation (node_Annotations node) DesiredRevision;
            a1 = (case ag_currentUpdateCancel a of
                    Some c \<Rightarrow>
                      if desired \<noteq> ag_currentDesiredRev a
                      then a\<lparr>ag_cancelled := c # ag_cancelled a, ag_currentUpdateCancel := None\<rparr>
                      else a
                  | None \<Rightarrow> a);
            cancel = ag_contexts a1;
            updateCtx = (\<lambda>s. if cancel \<in> set (ag_cancelled a1)
                              then Some (ContextErr ''context canceled'') else ctx s);
            a2 = a1\<lparr>ag_contexts := ag_contexts a1 + 1, ag_currentUpdateCancel := Some cancel,
                    ag_currentDesiredRev := desired, ag_currentUpdateID := ag_currentUpdateID a1 + 1\<rparr>;
            myUpdateID = ag_currentUpdateID a2
        in case handleNodeUpdate lib updateCtx node (a2, s) of
             (err, (a3, s1)) \<Rightarrow>
               (err, (if ag_currentUpdateID a3 = myUpdateID
                      then a3\<lparr>ag_currentUpdateCancel := None, ag_currentDesiredRev := []\<rparr> else a3, s1)))"

datatype watch_event = WatchAdded Node | WatchModified Node | WatchDeleted | WatchBookmark | WatchError string
  | WatchOther

datatype watch_item = ContextDone go_error | ChannelClosed | Received watch_event

fun watchNode ::
  "'s wait_lib \<Rightarrow> ('s \<Rightarrow> go_error option) \<Rightarrow> watch_item list \<Rightarrow> 's Agent \<times> 's \<Rightarrow> go_error option \<times> 's Agent \<times> 's" where
  "watchNode lib ctx [] w = (None, w)"
| "watchNode lib ctx (ContextDone err # items) w = (Some err, w)"
| "watchNode lib ctx (ChannelClosed # items) w = (None, w)"
| "watchNode lib ctx (Received (WatchError e) # items) w = (Some (Err (''watch error: '' @ e)), w)"
| "watchNode lib ctx (Received (WatchAdded node) # items) w =
     watchNode lib ctx items (snd (processNodeUpdateWithCancel lib ctx node w))"
| "watchNode lib ctx (Received (WatchModified node) # items) w =
     watchNode lib ctx items (snd (processNodeUpdateWithCancel lib ctx node w))"
| "watchNode lib ctx (Received e # items) w = watchNode lib ctx items w"

text \<open>
  The start of \<open>Run\<close>: \<open>polled\<close> is what polling the API server for the node gave. The rest of
  \<open>Run\<close> calls \<open>watchNode\<close> again and again until the context ends; each call is a list of items.
\<close>

definition Run_startup :: "Node result \<Rightarrow> 's Agent \<times> 's \<Rightarrow> 's Agent \<times> 's" where
  "Run_startup polled w =
     (case w of (a, s) \<Rightarrow>
        let s1 = (case polled of
                    Inl err \<Rightarrow> s
                  | Inr node \<Rightarrow> snd (CheckRebootPendingOnStartup (ag_rebootHandler a) node s))
        in (a, snd (SetState (ag_writer a) StateIdle s1)))"

fun Run_watches ::
  "'s wait_lib \<Rightarrow> ('s \<Rightarrow> go_error option) \<Rightarrow> watch_item list list \<Rightarrow> 's Agent \<times> 's \<Rightarrow> 's Agent \<times> 's" where
  "Run_watches lib ctx [] w = w"
| "Run_watches lib ctx (items # rest) w = Run_watches lib ctx rest (snd (watchNode lib ctx items w))"

lemmas agent_defs [mco_eval] =
  NewWithContext_def fetch_condition_def fetchRMCWithRetry_def FetchRMC_def report_done_def
  with_required_def settle_reboot_def applyConfig_def handleNodeUpdate_def
  processNodeUpdateWithCancel_def Run_startup_def

section \<open>What an update changes of the agent\<close>

text \<open>Handling an update writes two of the agent's fields: the cache and the pending revision.\<close>

definition only_progress :: "'s Agent \<Rightarrow> 's Agent \<Rightarrow> bool" where
  "only_progress a a' \<longleftrightarrow>
     a' = a\<lparr>ag_rmcCache := ag_rmcCache a', ag_pendingRebootRevision := ag_pendingRebootRevision a'\<rparr>"

lemma only_progress_refl [simp]: "only_progress a a"
  by (simp add: only_progress_def)

lemma only_progress_step [simp]:
  "only_progress a (a'\<lparr>ag_pendingRebootRevision := x\<rparr>) = only_progress a a'"
  "only_progress a (a'\<lparr>ag_rmcCache := c\<rparr>) = only_progress a a'"
  by (cases a; cases a'; simp add: only_progress_def)+

lemma only_progressD:
  assumes "only_progress a a'"
  shows "ag_GetRMC a' = ag_GetRMC a" "ag_applier a' = ag_applier a" "ag_writer a' = ag_writer a"
    "ag_rebootHandler a' = ag_rebootHandler a" "ag_currentUpdateCancel a' = ag_currentUpdateCancel a"
    "ag_currentUpdateID a' = ag_currentUpdateID a" "ag_contexts a' = ag_contexts a"
    "ag_cancelled a' = ag_cancelled a"
  using assms by (cases a; cases a'; simp add: only_progress_def)+

lemma FetchRMC_progress: "FetchRMC name (a, s) = (x, (a', s')) \<Longrightarrow> only_progress a a'"
  by (auto simp: FetchRMC_def split: prod.splits option.splits sum.splits)

lemma DetermineReboot_progress:
  "DetermineReboot FetchRMC cur rmc (a, s) = (d, (a', s')) \<Longrightarrow> only_progress a a'"
  by (auto simp: DetermineReboot_def Let_def split: prod.splits sum.splits if_splits dest: FetchRMC_progress)

lemma report_done_progress: "report_done name (a, s) = (e, (a', s')) \<Longrightarrow> only_progress a a'"
  by (auto simp: report_done_def Let_def split: prod.splits option.splits)

lemma settle_reboot_progress:
  assumes "settle_reboot rmc node (a, s) = (e, (a', s'))"
  shows "only_progress a a'"
proof -
  obtain d a1 s1 where d: "DetermineReboot FetchRMC (GetAnnotation (node_Annotations node) CurrentRevision) rmc (a, s) = (d, (a1, s1))"
    by (metis prod_cases3)
  have a1: "only_progress a a1" by (rule DetermineReboot_progress [OF d])
  have rep: "only_progress a b" if "report_done n (a1, t) = (x, (b, t'))" for n t x b t'
    using report_done_progress [OF that] a1 by (cases a; cases a1; cases b) (simp add: only_progress_def)
  show ?thesis
    using assms d a1 by (auto simp: settle_reboot_def Let_def split: prod.splits option.splits if_splits dest: rep)
qed

lemma handleNodeUpdate_progress:
  assumes "handleNodeUpdate lib ctx node (a, s) = (e, (a', s'))"
  shows "only_progress a a'"
  using assms
  by (auto simp: handleNodeUpdate_def applyConfig_def Let_def
      split: prod.splits option.splits sum.splits if_splits dest: settle_reboot_progress report_done_progress)

lemma process_idle:
  assumes "ag_currentUpdateCancel a = None"
    and "processNodeUpdateWithCancel lib ctx node (a, s) = (e, (a', s'))"
  shows "ag_currentUpdateCancel a' = None \<and> ag_cancelled a' = ag_cancelled a"
proof -
  let ?c = "\<lambda>t. if ag_contexts a \<in> set (ag_cancelled a) then Some (ContextErr ''context canceled'') else ctx t"
  let ?a2 = "a\<lparr>ag_contexts := ag_contexts a + 1, ag_currentUpdateCancel := Some (ag_contexts a),
    ag_currentDesiredRev := GetAnnotation (node_Annotations node) DesiredRevision,
    ag_currentUpdateID := ag_currentUpdateID a + 1\<rparr>"
  obtain e3 a3 s3 where h: "handleNodeUpdate lib ?c node (?a2, s) = (e3, (a3, s3))"
    by (metis prod_cases3)
  note p = only_progressD [OF handleNodeUpdate_progress [OF h]]
  have "a' = a3\<lparr>ag_currentUpdateCancel := None, ag_currentDesiredRev := []\<rparr>"
    using assms h p by (simp add: processNodeUpdateWithCancel_def Let_def)
  then show ?thesis using p by simp
qed

lemma watchNode_idle:
  assumes "ag_currentUpdateCancel (fst w) = None" and "watchNode lib ctx items w = (e, w')"
  shows "ag_currentUpdateCancel (fst w') = None \<and> ag_cancelled (fst w') = ag_cancelled (fst w)"
  using assms
proof (induction lib ctx items w rule: watchNode.induct)
  case (5 lib ctx node items w)
  then show ?case
    using process_idle [of "fst w" lib ctx node "snd w"]
    by (cases "processNodeUpdateWithCancel lib ctx node w") (auto simp: prod_eq_iff)
next
  case (6 lib ctx node items w)
  then show ?case
    using process_idle [of "fst w" lib ctx node "snd w"]
    by (cases "processNodeUpdateWithCancel lib ctx node w") (auto simp: prod_eq_iff)
qed auto

lemma Run_watches_idle:
  assumes "ag_currentUpdateCancel (fst w) = None"
  shows "ag_currentUpdateCancel (fst (Run_watches lib ctx ws w)) = None \<and>
    ag_cancelled (fst (Run_watches lib ctx ws w)) = ag_cancelled (fst w)"
  using assms
proof (induction ws arbitrary: w)
  case (Cons items ws)
  show ?case
    using Cons watchNode_idle [of w lib ctx items "fst (watchNode lib ctx items w)" "snd (watchNode lib ctx items w)"]
    by simp
qed simp

text \<open>
  A stale update is never cancelled. The watch handles one event at a time and each update
  runs to its end inside the call that would cancel it, so when the next event arrives no
  update is in flight: whatever sequence of watches and events a new agent sees, it never
  cancels the context of an update. The cancellation of updates for an outdated revision, which
  the code announces, does not happen.
\<close>

theorem stale_update_never_cancelled:
  assumes "NewWithContext h dbus noop systemctl cfg = Inr a"
  shows "ag_cancelled (fst (Run_watches lib ctx watches (Run_startup polled (a, s)))) = []"
proof -
  have "ag_currentUpdateCancel a = None" "ag_cancelled a = []"
    using assms by (auto simp: NewWithContext_def Let_def split: if_splits option.splits sum.splits)
  then show ?thesis
    using Run_watches_idle [of "Run_startup polled (a, s)" lib ctx watches] by (simp add: Run_startup_def Let_def)
qed

end
