(* ===== verification/Agent_Safety.thy ===== *)
theory Agent_Safety
  imports Agent
begin

text \<open>
  What the agent as a whole guarantees about the node it runs on. The locale \<open>agent_world\<close>
  collects the contracts of the parts the agent is built from: the host, the annotations, the
  reboot executor, systemd, the API it reads rendered configurations from and the back-off.
\<close>

section \<open>What the parts leave alone\<close>

definition systemd_keeps :: "'s systemd_conn \<Rightarrow> ('s \<Rightarrow> 'v) \<Rightarrow> bool" where
  "systemd_keeps c v \<longleftrightarrow>
     (\<forall>s n p. v (snd (GetUnitProperty c s n p)) = v s) \<and>
     (\<forall>s n. v (snd (MaskUnit c s n)) = v s) \<and> (\<forall>s n. v (snd (UnmaskUnit c s n)) = v s) \<and>
     (\<forall>s n. v (snd (EnableUnit c s n)) = v s) \<and> (\<forall>s n. v (snd (DisableUnit c s n)) = v s) \<and>
     (\<forall>s n. v (snd (StartUnit c s n)) = v s) \<and> (\<forall>s n. v (snd (StopUnit c s n)) = v s) \<and>
     (\<forall>s n. v (snd (RestartUnit c s n)) = v s) \<and> (\<forall>s n. v (snd (ReloadUnit c s n)) = v s)"

lemma systemd_keepsD:
  assumes "systemd_keeps c v"
  shows "GetUnitProperty c s n p = (x, s') \<Longrightarrow> v s' = v s"
    "MaskUnit c s n = (e, s') \<Longrightarrow> v s' = v s" "UnmaskUnit c s n = (e, s') \<Longrightarrow> v s' = v s"
    "EnableUnit c s n = (e, s') \<Longrightarrow> v s' = v s" "DisableUnit c s n = (e, s') \<Longrightarrow> v s' = v s"
    "StartUnit c s n = (e, s') \<Longrightarrow> v s' = v s" "StopUnit c s n = (e, s') \<Longrightarrow> v s' = v s"
    "RestartUnit c s n = (e, s') \<Longrightarrow> v s' = v s" "ReloadUnit c s n = (e, s') \<Longrightarrow> v s' = v s"
  using assms unfolding systemd_keeps_def by (metis snd_conv)+

lemma property_keeps:
  assumes "systemd_keeps c v"
  shows "getUnitFileState c n s = (x, s') \<Longrightarrow> v s' = v s" "getActiveState c n s = (x, s') \<Longrightarrow> v s' = v s"
  by (auto simp: getUnitFileState_def getActiveState_def string_property_def
      split: prod.splits sum.splits dest: systemd_keepsD(1) [OF assms])

lemma ApplyUnit_keeps:
  assumes "systemd_keeps c v" and "ApplyUnit c u s = (x, s')"
  shows "v s' = v s"
proof -
  note K = systemd_keepsD(2-9) [OF assms(1)] property_keeps [OF assms(1)]
  have m: "applyMask c n b t = (y, t') \<Longrightarrow> v t' = v t" for n b t y t'
    by (auto simp: applyMask_def split: prod.splits if_splits dest!: K)
  have b: "applyEnabled c n b t = (y, t') \<Longrightarrow> v t' = v t" for n b t y t'
    by (auto simp: applyEnabled_def Let_def split: prod.splits if_splits dest!: K)
  have st: "applyState c n b t = (y, t') \<Longrightarrow> v t' = v t" for n b t y t'
    by (auto simp: applyState_def start_def stop_def Let_def split: prod.splits if_splits dest!: K)
  show ?thesis
    using assms(2)
    by (auto simp: ApplyUnit_def split: prod.splits option.splits if_splits dest!: m b st)
qed

lemma ApplyFile_keeps:
  assumes "host_keeps h v" and "ApplyFile a h f s = (x, s')"
  shows "v s' = v s"
proof -
  note K = host_keepsD [OF assms(1)]
  have n: "needsUpdate h p c t = (y, t') \<Longrightarrow> v t' = v t" for p c t y t'
    by (auto simp: needsUpdate_def split: prod.splits sum.splits dest: K)
  have l: "lookupUID h p t = (y, t') \<Longrightarrow> v t' = v t" "lookupGID h p t = (y, t') \<Longrightarrow> v t' = v t" for p t y t'
    by (auto simp: lookupUID_def lookupGID_def split: prod.splits sum.splits option.splits dest: K)
  have o: "setOwnership h p w t = (y, t') \<Longrightarrow> v t' = v t" for p w t y t'
    by (auto simp: setOwnership_def Let_def split: prod.splits sum.splits if_splits dest!: l K)
  have wt: "write_temp a h p f i t = (y, t') \<Longrightarrow> v t' = v t" for p i t y t'
    by (auto simp: write_temp_def split: prod.splits option.splits if_splits dest!: o K)
  have c: "v (snd (TempCleanup h t i)) = v t" for t i
    using assms(1) by (simp add: host_keeps_def)
  have w: "writeFile a h p f t = (y, t') \<Longrightarrow> v t' = v t" for p t y t'
    by (auto simp: writeFile_def Let_def c split: prod.splits bool.splits option.splits sum.splits dest!: n wt K)
  have d: "deleteFile h p t = (y, t') \<Longrightarrow> v t' = v t" for p t y t'
    by (auto simp: deleteFile_def split: prod.splits option.splits if_splits dest: K)
  show ?thesis
    using assms(2) by (auto simp: ApplyFile_def Let_def split: prod.splits if_splits dest!: w d)
qed

lemma Apply_keeps:
  assumes "host_keeps h v" and "systemd_keeps c v"
    and "Apply ctx \<lparr>ap_files = file_operations fa h, ap_systemd = c\<rparr> config s = (x, s')"
  shows "v s' = v s"
proof -
  have f: "apply_files ctx (file_operations fa h) r0 fs t = (y, t') \<Longrightarrow> v t' = v t" for r0 fs t y t'
    by (induction fs arbitrary: r0 t)
      (auto simp: file_operations_def split: prod.splits option.splits if_splits dest!: ApplyFile_keeps [OF assms(1)])
  have u: "apply_units ctx c r0 us t = (y, t') \<Longrightarrow> v t' = v t" for r0 us t y t'
    by (induction us arbitrary: r0 t)
      (auto split: prod.splits option.splits if_splits dest!: ApplyUnit_keeps [OF assms(2)])
  show ?thesis
    using assms(3) by (auto simp: Apply_def split: prod.splits if_splits dest!: f u)
qed

section \<open>The agent's world\<close>

text \<open>The state in which \<open>applyConfig\<close> starts to apply: the state is written, the last error cleared.\<close>

abbreviation apply_start :: "'s Agent \<Rightarrow> 's \<Rightarrow> 's" where
  "apply_start a s \<equiv> snd (ClearLastError (ag_writer a) (snd (SetState (ag_writer a) StateApplying s)))"

text \<open>
  \<open>files\<close>, \<open>ann\<close> and \<open>reboots\<close> are the views of the contracts below. The back-off keeps every
  property that the polled condition keeps, and ends without an error only after a run of the
  condition that returned true.
\<close>

locale agent_world =
  reboot_world "ag_rebootHandler a" files temps ann reboots
  for a :: "'s Agent" and files temps and ann :: "'s \<Rightarrow> annots" and reboots +
  fixes lib :: "'s wait_lib" and fa :: FileApplier and c :: "'s systemd_conn"
  assumes writer_shared: "ag_writer a = hd_writer (ag_rebootHandler a)"
    and applier_parts: "ag_applier a = \<lparr>ap_files = file_operations fa (ag_host a), ap_systemd = c\<rparr>"
    and systemd_ann: "systemd_keeps c ann" and systemd_reboots: "systemd_keeps c reboots"
    and get_frame: "ag_GetRMC a s n = (x, s') \<Longrightarrow> ann s' = ann s \<and> reboots s' = reboots s"
    and get_name: "ag_GetRMC a s n = (Inr rmc, s') \<Longrightarrow> rmc_Name rmc = n"
    and backoff_keeps: "I st \<Longrightarrow> (\<And>st. I st \<Longrightarrow> I (snd (f st))) \<Longrightarrow> I (snd (ExponentialBackoff lib steps f st))"
    and backoff_met: "ExponentialBackoff lib steps f st = (None, st') \<Longrightarrow> \<exists>st0. f st0 = (Inr True, st')"
begin

lemma fetch_frame:
  assumes "fetchRMCWithRetry lib ctx a name s = (x, s')"
  shows "ann s' = ann s" "reboots s' = reboots s"
proof -
  let ?I = "\<lambda>st :: 's fetch_state. ann (fst st) = ann s \<and> reboots (fst st) = reboots s"
  let ?r = "ExponentialBackoff lib 4 (fetch_condition ctx a name) (s, None, None)"
  have "?I (snd ?r)"
  proof (rule backoff_keeps)
    fix st :: "'s fetch_state" assume "?I st"
    then show "?I (snd (fetch_condition ctx a name st))"
      using get_frame by (auto simp: fetch_condition_def split: prod.splits option.splits sum.splits)
  qed simp
  then show "ann s' = ann s" "reboots s' = reboots s"
    using assms by (auto simp: fetchRMCWithRetry_def split: prod.splits option.splits)
qed

lemma fetch_name:
  assumes "fetchRMCWithRetry lib ctx a name s = (Inr rmc, s')"
  shows "rmc_Name rmc = name"
proof -
  obtain s1 l where "ExponentialBackoff lib 4 (fetch_condition ctx a name) (s, None, None) = (None, (s1, Some rmc, l))"
    using assms by (auto simp: fetchRMCWithRetry_def split: prod.splits option.splits if_splits)
  from backoff_met [OF this] obtain st0 where "fetch_condition ctx a name st0 = (Inr True, (s1, Some rmc, l))"
    by blast
  then show ?thesis
    by (auto simp: fetch_condition_def split: prod.splits option.splits sum.splits if_splits dest: get_name)
qed

lemma FetchRMC_frame:
  assumes "only_progress a b" and "FetchRMC n (b, s) = (x, (b', s'))"
  shows "ann s' = ann s \<and> reboots s' = reboots s"
proof -
  note p = only_progressD [OF assms(1)]
  note now = host_keepsD(15) [OF host_ann] host_keepsD(15) [OF host_reboots]
  obtain m s0 where m: "Now (ag_host a) s = (m, s0)" by fastforce
  obtain y s1 where y: "ag_GetRMC a s0 n = (y, s1)" by fastforce
  obtain m' s2 where m': "Now (ag_host a) s1 = (m', s2)" by fastforce
  have "s' = s0 \<or> s' = s1 \<or> s' = s2"
    using assms(2) p(1,4) m y m' by (auto simp: FetchRMC_def split: option.splits sum.splits)
  then show ?thesis
    using now(1) [OF m] now(2) [OF m] get_frame [OF y] now(1) [OF m'] now(2) [OF m'] by auto
qed

lemma DetermineReboot_frame:
  assumes "DetermineReboot FetchRMC cur rmc (a, s) = (d, (b, s'))"
  shows "ann s' = ann s \<and> reboots s' = reboots s"
  using assms FetchRMC_frame [OF only_progress_refl, of cur s]
  by (auto simp: DetermineReboot_def Let_def split: prod.splits sum.splits if_splits)

lemma apply_frame:
  assumes "ApplySpec ctx (ag_applier a) spec s = (x, s')"
  shows "ann s' = ann s \<and> reboots s' = reboots s"
  using assms Apply_keeps [OF host_ann systemd_ann] Apply_keeps [OF host_reboots systemd_reboots]
  unfolding ApplySpec_def applier_parts by blast

text \<open>A reboot, done or recorded as pending, says nothing about the current revision.\<close>

lemma executeReboot_current:
  assumes "executeReboot (ag_rebootHandler a) s = (e, s')"
  shows "ann s' CurrentRevision = ann s CurrentRevision"
proof -
  let ?r = "ag_rebootHandler a"
  define w where "w = hd_writer ?r"
  obtain m s0 where m: "Now (hd_host ?r) s = (m, s0)" by fastforce
  obtain e1 s1 where w1: "WriteLastRebootTime (hd_host ?r) (hd_hostRoot ?r) m s0 = (e1, s1)" by fastforce
  obtain e2 s2 where w2: "SetState (hd_writer ?r) ''rebooting'' s1 = (e2, s2)" by fastforce
  obtain e3 s3 where w3: "ClearForceReboot (hd_writer ?r) s2 = (e3, s3)" by fastforce
  obtain e4 s4 where w4: "SetRebootPending (hd_writer ?r) False s3 = (e4, s4)" by fastforce
  have "hd_executor ?r s4 = (e, s')"
    using assms m w1 w2 w3 w4 by (simp add: executeReboot_def)
  then have "ann s' = ann s4" using executor_counts by blast
  moreover have "ann s1 = ann s"
    using host_keepsD(15) [OF host_ann m] state_keeps(2) [OF host_ann, of "hd_hostRoot ?r" m s0] w1 by simp
  ultimately show ?thesis
    using write_effects(1) [OF w2] write_effects(7) [OF w3] write_effects(6) [OF w4] by simp
qed

lemma HandleReboot_current:
  assumes "HandleReboot (ag_rebootHandler a) rmc node s = (e, s')"
  shows "ann s' CurrentRevision = ann s CurrentRevision"
proof -
  have p: "setPending (ag_rebootHandler a) t = (x, t') \<Longrightarrow> ann t' CurrentRevision = ann t CurrentRevision" for t x t'
    using setPending_effect by auto
  note now = host_keepsD(15) [OF host_ann] and rd = state_keeps(1) [OF host_ann]
  have i: "handleIfRequired (ag_rebootHandler a) n t = (x, t') \<Longrightarrow> ann t' CurrentRevision = ann t CurrentRevision" for n t x t'
    by (auto simp: handleIfRequired_def Let_def split: prod.splits sum.splits if_splits
        dest!: executeReboot_current p now rd)
  show ?thesis
    using assms by (auto simp: HandleReboot_def Let_def split: if_splits dest!: executeReboot_current p i)
qed

lemma report_done_effect:
  assumes "only_progress a b" and "report_done n (b, s) = (e, (b', s'))"
  shows "ann s' = (if e = None then (ann s)(AgentState \<mapsto> StateDone, CurrentRevision \<mapsto> n) else ann s)"
    "reboots s' = reboots s"
proof -
  have w: "ag_writer b = hd_writer (ag_rebootHandler a)" using only_progressD(3) [OF assms(1)] writer_shared by simp
  obtain e1 s1 where d: "SetDone (hd_writer (ag_rebootHandler a)) n s = (e1, s1)" by fastforce
  have "s' = s1" "e = None \<longleftrightarrow> e1 = None"
    using assms(2) d w by (auto simp: report_done_def Let_def split: option.splits)
  then show "ann s' = (if e = None then (ann s)(AgentState \<mapsto> StateDone, CurrentRevision \<mapsto> n) else ann s)"
    "reboots s' = reboots s"
    using write_effects(9) [OF d] write_reboots(4) [of n s] d by simp_all
qed

lemma settle_reboot_current:
  assumes "settle_reboot rmc node (a, s) = (e, (a', s'))"
    and "ann s' CurrentRevision \<noteq> ann s CurrentRevision"
  shows "e = None \<and> ann s' CurrentRevision = Some (rmc_Name rmc) \<and> ann s' AgentState = Some StateDone \<and>
    reboots s' = reboots s \<and>
    \<not> dec_Required (fst (DetermineReboot FetchRMC (GetAnnotation (node_Annotations node) CurrentRevision) rmc (a, s)))"
proof -
  obtain d b s1 where d: "DetermineReboot FetchRMC (GetAnnotation (node_Annotations node) CurrentRevision) rmc (a, s) = (d, (b, s1))"
    by (metis prod_cases3)
  note fr = DetermineReboot_frame [OF d] and prog = DetermineReboot_progress [OF d]
  have h: "ag_rebootHandler b = ag_rebootHandler a" "ag_writer b = hd_writer (ag_rebootHandler a)"
    using only_progressD [OF prog] writer_shared by simp_all
  obtain e2 s2 where r: "HandleReboot (ag_rebootHandler a) (with_required rmc (dec_Required d)) node s1 = (e2, s2)" by fastforce
  note cur = HandleReboot_current [OF r]
  show ?thesis
  proof (cases "e2 = None \<and> \<not> dec_Required d")
    case True
    then have rep: "report_done (rmc_Name rmc) (b, s2) = (e, (a', s'))"
      using assms(1) d r h by (simp add: settle_reboot_def Let_def)
    have "s2 = s1"
      using HandleReboot_outcome(4) [OF r] True by (simp add: with_required_def)
    then show ?thesis
      using report_done_effect [OF prog rep] assms(2) fr d True by (auto split: if_splits)
  next
    case False
    have "ann s' CurrentRevision = ann s CurrentRevision"
    proof (cases e2)
      case None
      then show ?thesis using assms(1) d r h False fr cur by (simp add: settle_reboot_def Let_def)
    next
      case (Some err)
      obtain e3 s3 where x: "SetStateWithError (hd_writer (ag_rebootHandler a)) StateError
          (''reboot handling: '' @ error_text err) s2 = (e3, s3)" by fastforce
      have "s' = s3" using assms(1) d r h Some x by (simp add: settle_reboot_def Let_def)
      then show ?thesis using write_effects(8) [OF x] cur fr by simp
    qed
    then show ?thesis using assms(2) by blast
  qed
qed

lemma applyConfig_current:
  assumes "applyConfig ctx rmc node (a, s) = (e, (a', s'))"
    and "ann s' CurrentRevision \<noteq> ann s CurrentRevision"
  shows "e = None \<and> ann s' CurrentRevision = Some (rmc_Name rmc) \<and> ann s' AgentState = Some StateDone \<and>
    reboots s' = reboots s \<and>
    (\<exists>r s2. Apply ctx \<lparr>ap_files = file_operations fa (ag_host a), ap_systemd = c\<rparr> (rmcs_Config (rmc_Spec rmc))
        (apply_start a s) = (r, s2) \<and>
      ar_Error r = None \<and>
      (ar_FilesApplied r = 0 \<and> ar_UnitsApplied r = 0 \<or>
       \<not> dec_Required (fst (DetermineReboot FetchRMC (GetAnnotation (node_Annotations node) CurrentRevision) rmc (a, s2)))))"
proof -
  let ?w = "hd_writer (ag_rebootHandler a)"
  obtain e1 s1 where p1: "SetState ?w StateApplying s = (e1, s1)" by fastforce
  obtain e2 s2 where p2: "ClearLastError ?w s1 = (e2, s2)" by fastforce
  obtain r s3 where ap: "ApplySpec ctx (ag_applier a) (rmc_Spec rmc) s2 = (r, s3)" by fastforce
  have c3: "ann s3 CurrentRevision = ann s CurrentRevision"
    using write_effects(1) [OF p1] write_effects(4) [OF p2] apply_frame [OF ap] by simp
  have r3: "reboots s3 = reboots s"
    using p1 p2 apply_frame [OF ap] write_reboots(1) [of StateApplying s]
      writes_keep(4) [OF patch_retry writer_reboots, of s1] by simp
  have e1: "e1 = None"
  proof (rule ccontr)
    assume "e1 \<noteq> None"
    then show False
      using assms p1 write_effects(1) [OF p1] by (auto simp: applyConfig_def writer_shared)
  qed
  have re: "ar_Error r = None"
  proof (rule ccontr)
    assume "ar_Error r \<noteq> None"
    then obtain err where err: "ar_Error r = Some err" by blast
    obtain e4 s4 where x: "SetStateWithError ?w StateError (error_text err) s3 = (e4, s4)" by fastforce
    have "snd (snd (applyConfig ctx rmc node (a, s))) = s4"
      using p1 p2 ap err x e1 by (simp add: applyConfig_def writer_shared Let_def)
    then have "s' = s4" using assms(1) by simp
    then show False using write_effects(8) [OF x] c3 assms(2) by (auto split: if_splits)
  qed
  have ap': "Apply ctx \<lparr>ap_files = file_operations fa (ag_host a), ap_systemd = c\<rparr> (rmcs_Config (rmc_Spec rmc))
      (apply_start a s) = (r, s3)"
    using ap p1 p2 by (simp add: ApplySpec_def applier_parts writer_shared)
  show ?thesis
  proof (cases "ar_FilesApplied r = 0 \<and> ar_UnitsApplied r = 0")
    case True
    then have "report_done (rmc_Name rmc) (a, s3) = (e, (a', s'))"
      using assms(1) p1 p2 ap e1 re by (simp add: applyConfig_def writer_shared Let_def)
    note d = report_done_effect [OF only_progress_refl this]
    show ?thesis using d c3 r3 assms(2) True re ap' by (auto split: if_splits)
  next
    case False
    then have "settle_reboot rmc node (a, s3) = (e, (a', s'))"
      using assms(1) p1 p2 ap e1 re by (auto simp add: applyConfig_def writer_shared Let_def)
    note d = settle_reboot_current [OF this]
    show ?thesis using d c3 r3 assms(2) re ap' by auto
  qed
qed

lemma handleNodeUpdate_current:
  assumes "handleNodeUpdate lib ctx node (a, s) = (e, (a', s'))"
    and "ann s' CurrentRevision \<noteq> ann s CurrentRevision"
  shows "\<not> IsNodePaused (node_Annotations node) \<and> e = None \<and> reboots s' = reboots s \<and>
    ann s' CurrentRevision = Some (GetAnnotation (node_Annotations node) DesiredRevision) \<and>
    ann s' AgentState = Some StateDone \<and>
    (\<exists>rmc s1 r s2. rmc_Name rmc = GetAnnotation (node_Annotations node) DesiredRevision \<and>
      fetchRMCWithRetry lib ctx a (GetAnnotation (node_Annotations node) DesiredRevision) s = (Inr rmc, s1) \<and>
      Apply ctx \<lparr>ap_files = file_operations fa (ag_host a), ap_systemd = c\<rparr> (rmcs_Config (rmc_Spec rmc))
        (apply_start a s1) = (r, s2) \<and>
      ar_Error r = None \<and>
      (ar_FilesApplied r = 0 \<and> ar_UnitsApplied r = 0 \<or>
       \<not> dec_Required (fst (DetermineReboot FetchRMC (GetAnnotation (node_Annotations node) CurrentRevision) rmc (a, s2)))))"
proof -
  let ?an = "node_Annotations node"
  let ?d = "GetAnnotation ?an DesiredRevision"
  obtain x s1 where f: "fetchRMCWithRetry lib ctx a ?d s = (x, s1)" by fastforce
  note fr = fetch_frame [OF f]
  have live: "\<not> IsNodePaused ?an" "?d \<noteq> []" "?d \<noteq> GetAnnotation ?an CurrentRevision"
    using assms by (auto simp: handleNodeUpdate_def Let_def split: if_splits)
  have np: "\<not> (ag_pendingRebootRevision a = ?d \<or> GetBoolAnnotation ?an RebootPending)"
  proof
    assume p: "ag_pendingRebootRevision a = ?d \<or> GetBoolAnnotation ?an RebootPending"
    have "s' = s1 \<or> (\<exists>rmc. s' = snd (HandleReboot (ag_rebootHandler a) rmc node s1))"
      using assms(1) live f p by (auto simp: handleNodeUpdate_def Let_def split: sum.splits)
    then have "ann s' CurrentRevision = ann s1 CurrentRevision"
      using HandleReboot_current [of _ node s1] by (metis prod.collapse)
    then show False using fr assms(2) by simp
  qed
  show ?thesis
  proof (cases x)
    case (Inl err)
    obtain e4 s4 where w: "SetStateWithError (hd_writer (ag_rebootHandler a)) StateError
        (''fetch RMC: '' @ error_text err) s1 = (e4, s4)" by fastforce
    have "snd (snd (handleNodeUpdate lib ctx node (a, s))) = s4"
      using live f np Inl w by (simp add: handleNodeUpdate_def Let_def writer_shared)
    then have "s' = s4" using assms(1) by simp
    then show ?thesis using write_effects(8) [OF w] fr assms(2) by (auto split: if_splits)
  next
    case (Inr rmc)
    then have n: "rmc_Name rmc = ?d" using fetch_name f by blast
    have ap: "applyConfig ctx rmc node (a, s1) = (e, (a', s'))"
      using assms(1) live f np Inr by (simp add: handleNodeUpdate_def Let_def)
    have "ann s' CurrentRevision \<noteq> ann s1 CurrentRevision" using assms(2) fr by simp
    note A = applyConfig_current [OF ap this]
    show ?thesis using A n live fr f Inr by auto
  qed
qed

end

text \<open>
  What an agent does with what it saw of its node: it handles a node as an event, or it starts,
  when polling for the node may also have failed.
\<close>

inductive agent_act ::
  "'s wait_lib \<Rightarrow> ('s \<Rightarrow> go_error option) \<Rightarrow> Node result \<Rightarrow> 's Agent \<times> 's \<Rightarrow> 's Agent \<times> 's \<Rightarrow> bool"
  for lib ctx where
  event: "handleNodeUpdate lib ctx node (a, s) = (e, w) \<Longrightarrow> agent_act lib ctx (Inr node) (a, s) w"
| startup: "Run_startup seen (a, s) = w \<Longrightarrow> agent_act lib ctx seen (a, s) w"

inductive_cases agent_actE: "agent_act lib ctx seen (a, s) (a', s')"

text \<open>At a start: a reboot was pending, its time is on record, and \<open>/run\<close> has been emptied since.\<close>

definition reboot_detected :: "'s Handler \<Rightarrow> Node \<Rightarrow> 's \<Rightarrow> bool" where
  "reboot_detected r node s \<longleftrightarrow>
     GetBoolAnnotation (node_Annotations node) RebootPending \<and>
     (\<exists>t u. ReadLastRebootTime (hd_host r) (hd_hostRoot r) s = (Inr t, u) \<and>
        \<not> fst (BootMarkerExists (hd_host r) (hd_hostRoot r) u))"

context agent_world
begin

lemma startup_reboots:
  assumes "CheckRebootPendingOnStartup (ag_rebootHandler a) node s = (e, s')"
  shows "reboots s' = reboots s"
proof -
  let ?r = "ag_rebootHandler a"
  note rd = state_keeps(1) [OF host_reboots] and bm = state_keeps(3) [OF host_reboots]
  obtain e1 s1 where b: "startup_body ?r node s = (e1, s1)" by fastforce
  have "SetRebootPending (hd_writer ?r) False u = (x, u') \<Longrightarrow> reboots u' = reboots u"
    "SetDone (hd_writer ?r) d u = (x, u') \<Longrightarrow> reboots u' = reboots u" for d u x u'
    using write_reboots(3) [of False u] write_reboots(4) [of d u] by simp_all
  note w = this
  have "reboots s1 = reboots s"
    using b by (auto simp: startup_body_def Let_def
        split: if_splits prod.splits sum.splits bool.splits option.splits dest!: rd bm w)
  then show ?thesis
    using assms b state_keeps(4) [OF host_reboots] by (auto simp: CheckRebootPendingOnStartup_def)
qed

lemma Run_startup_current:
  assumes "Run_startup seen (a, s) = (a', s')" and "ann s' CurrentRevision \<noteq> ann s CurrentRevision"
  shows "\<exists>node. seen = Inr node \<and> reboot_detected (ag_rebootHandler a) node s \<and> reboots s' = reboots s \<and>
    ann s' CurrentRevision = Some (GetAnnotation (node_Annotations node) DesiredRevision)"
proof -
  let ?r = "ag_rebootHandler a"
  have idle: "ann u' CurrentRevision = ann u CurrentRevision" "reboots u' = reboots u"
    if "SetState (hd_writer ?r) StateIdle u = (x, u')" for u x u'
    using write_effects(1) [OF that] write_reboots(1) [of StateIdle u] that by simp_all
  show ?thesis
  proof (cases seen)
    case (Inl err)
    then obtain x where "SetState (hd_writer ?r) StateIdle s = (x, s')"
      using assms(1) by (auto simp: Run_startup_def writer_shared prod_eq_iff)
    then show ?thesis using idle(1) assms(2) by metis
  next
    case (Inr node)
    obtain e u where c: "CheckRebootPendingOnStartup ?r node s = (e, u)" by fastforce
    then obtain x where x: "SetState (hd_writer ?r) StateIdle u = (x, s')"
      using assms(1) Inr by (auto simp: Run_startup_def writer_shared prod_eq_iff)
    have "CurrentRevision \<noteq> RebootPending" "AgentState \<noteq> CurrentRevision" by (simp_all add: key_defs)
    then show ?thesis
      using startup_effect [OF c] startup_reboots [OF c] idle [OF x] assms(2) Inr
      unfolding reboot_detected_def [symmetric] by (auto split: if_splits)
  qed
qed

end

text \<open>The contract is about the fields an update leaves alone, so it outlives every update.\<close>

lemma agent_world_progress:
  assumes "only_progress a b" and "agent_world a files temps ann reboots lib fa c"
  shows "agent_world b files temps ann reboots lib fa c"
  using assms(2) unfolding agent_world_def agent_world_axioms_def only_progressD(1-4) [OF assms(1)] .

section \<open>Properties\<close>

text \<open>
  C3: A node reports a revision as current only after applying it or after a reboot. If handling
  an event or starting the agent changes the node's current-revision annotation, the new value
  is the desired revision of the node the agent saw, no reboot is executed in between, and one
  of two things happened. Either the agent handled an event of a node that is not paused,
  reports the state as done, fetched the rendered configuration of that name and applied it
  without error: if its files have different paths on the host, every file had its content (or
  was gone, if it is to be absent) when the agent came to the units, and either nothing had to
  be changed or the comparison with the current configuration asked for no reboot. Or the agent
  started, the node's mark for a pending reboot was set, the time of a reboot is on record and
  the boot marker was missing. When nothing had to be changed the agent does not ask whether a
  reboot is still owed from an earlier pass.
\<close>

theorem current_revision_only_after_apply:
  assumes "agent_world a files temps ann reboots lib fa c" and "systemd_history c log"
    and "agent_act lib ctx seen (a, s) (a', s')"
    and "ann s' CurrentRevision \<noteq> ann s CurrentRevision"
  shows "\<exists>node desired. seen = Inr node \<and> desired = GetAnnotation (node_Annotations node) DesiredRevision \<and>
    ann s' CurrentRevision = Some desired \<and> reboots s' = reboots s \<and>
    (reboot_detected (ag_rebootHandler a) node s \<or>
     \<not> IsNodePaused (node_Annotations node) \<and> ann s' AgentState = Some StateDone \<and>
     (\<exists>rmc fetched r applied. fetchRMCWithRetry lib ctx a desired s = (Inr rmc, fetched) \<and>
       rmc_Name rmc = desired \<and> ar_Success r \<and>
       ApplySpec ctx (ag_applier a) (rmc_Spec rmc) (apply_start a fetched) = (r, applied) \<and>
       (paths_distinct fa (rmcs_Config (rmc_Spec rmc)) \<longrightarrow>
          (\<forall>f\<in>set (rc_Files (rmcs_Config (rmc_Spec rmc))).
             file_holds (files (after_files ctx (ap_files (ag_applier a)) (rmcs_Config (rmc_Spec rmc)) (apply_start a fetched))) fa f)) \<and>
       (ar_FilesApplied r = 0 \<and> ar_UnitsApplied r = 0 \<or>
        \<not> dec_Required (fst (DetermineReboot FetchRMC (GetAnnotation (node_Annotations node) CurrentRevision) rmc (a, applied))))))"
  using assms(3)
proof (rule agent_actE)
  assume "Run_startup seen (a, s) = (a', s')"
  from agent_world.Run_startup_current [OF assms(1) this assms(4)] show ?thesis by blast
next
  fix node e
  assume seen: "seen = Inr node" and h: "handleNodeUpdate lib ctx node (a, s) = (e, a', s')"
  define desired where "desired = GetAnnotation (node_Annotations node) DesiredRevision"
  note H = agent_world.handleNodeUpdate_current [OF assms(1) h assms(4), folded desired_def]
  note parts = agent_world.applier_parts [OF assms(1)]
  have fs: "host_fs (ag_host a) files temps"
    using assms(1) by (intro reboot_world.axioms(1) agent_world.axioms(1))
  obtain rmc s1 r s2 where A: "rmc_Name rmc = desired" "fetchRMCWithRetry lib ctx a desired s = (Inr rmc, s1)"
    "Apply ctx \<lparr>ap_files = file_operations fa (ag_host a), ap_systemd = c\<rparr> (rmcs_Config (rmc_Spec rmc)) (apply_start a s1) = (r, s2)"
    "ar_Error r = None"
    "ar_FilesApplied r = 0 \<and> ar_UnitsApplied r = 0 \<or>
       \<not> dec_Required (fst (DetermineReboot FetchRMC (GetAnnotation (node_Annotations node) CurrentRevision) rmc (a, s2)))"
    using H by blast
  have S: "ar_Success r"
    using A(3,4) by (auto simp: Apply_def split: prod.splits if_splits)
  have AS: "ApplySpec ctx (ag_applier a) (rmc_Spec rmc) (apply_start a s1) = (r, s2)"
    using A(3) by (simp add: ApplySpec_def parts)
  have M: "paths_distinct fa (rmcs_Config (rmc_Spec rmc)) \<longrightarrow>
      (\<forall>f\<in>set (rc_Files (rmcs_Config (rmc_Spec rmc))).
         file_holds (files (after_files ctx (ap_files (ag_applier a)) (rmcs_Config (rmc_Spec rmc)) (apply_start a s1))) fa f)"
    using Apply_success_parts(1) [OF fs assms(2) A(3,4) _ refl] unfolding parts by auto
  show ?thesis using H A(1,2,5) S AS M seen desired_def by blast
qed

text \<open>
  C22: A failed update leaves the current revision alone. Whenever handling an event returns an
  error (the configuration cannot be fetched, the state cannot be written, a file or a unit
  fails, the reboot or the final report fails) the node's current-revision annotation is what
  it was before.
\<close>

theorem failed_update_keeps_current_revision:
  assumes "agent_world a files temps ann reboots lib fa c"
    and "handleNodeUpdate lib ctx node (a, s) = (Some err, (a', s'))"
  shows "ann s' CurrentRevision = ann s CurrentRevision"
  using agent_world.handleNodeUpdate_current [OF assms] by auto

text \<open>
  A pending reboot can be forgotten. The first pass decides about the reboot from the
  difference of the two configurations; every later event for the pending revision asks the
  stored flag of the new one instead. Where that flag is off (the reboot was due to a file or a
  unit that the new configuration no longer has), the event changes nothing: the reboot stays
  pending, and neither it nor the report of the revision ever happens.
\<close>

theorem pending_reboot_forgotten:
  assumes "agent_world a files temps ann reboots lib fa c"
    and "desired = GetAnnotation (node_Annotations node) DesiredRevision"
    and "ag_pendingRebootRevision a = desired"
    and "fetchRMCWithRetry lib ctx a desired s = (Inr rmc, s')"
    and "\<not> rrs_Required (rmcs_Reboot (rmc_Spec rmc))"
    and "desired \<noteq> []" and "desired \<noteq> GetAnnotation (node_Annotations node) CurrentRevision"
    and "\<not> IsNodePaused (node_Annotations node)"
  shows "handleNodeUpdate lib ctx node (a, s) = (None, (a, s')) \<and> ann s' = ann s \<and> reboots s' = reboots s"
proof -
  have "HandleReboot (ag_rebootHandler a) rmc node s' = (None, s')"
    using assms(5) by (simp add: HandleReboot_def)
  then show ?thesis
    using assms(2-8) agent_world.fetch_frame [OF assms(1,4)]
    by (simp add: handleNodeUpdate_def Let_def)
qed

section \<open>An agent in memory\<close>

definition box_get :: "box \<Rightarrow> string \<Rightarrow> RenderedMachineConfig result \<times> box" where
  "box_get s n =
     (case bx_rmcs s n of
        None \<Rightarrow> (Inl not_found, s)
      | Some r \<Rightarrow> if rmc_Name r = n then (Inr r, s) else (Inl not_found, s))"

definition timed_out :: go_error where "timed_out = Err ''timed out waiting for the condition''"

fun poll :: "nat \<Rightarrow> ('x \<Rightarrow> bool result \<times> 'x) \<Rightarrow> 'x \<Rightarrow> go_error option \<times> 'x" where
  "poll 0 f x = (Some timed_out, x)"
| "poll (Suc n) f x =
     (case f x of
        (Inl err, y) \<Rightarrow> (Some err, y)
      | (Inr True, y) \<Rightarrow> (None, y)
      | (Inr False, y) \<Rightarrow> poll n f y)"

lemma poll_keeps: "I x \<Longrightarrow> (\<And>x. I x \<Longrightarrow> I (snd (f x))) \<Longrightarrow> I (snd (poll n f x))"
proof (induction n arbitrary: x)
  case (Suc n)
  obtain r y where r: "f x = (r, y)" by fastforce
  have "I y" using Suc.prems r by (metis snd_conv)
  then show ?case using Suc r by (auto split: sum.split bool.split)
qed simp

lemma poll_met: "poll n f x = (None, y) \<Longrightarrow> \<exists>z. f z = (Inr True, y)"
  by (induction n arbitrary: x) (auto split: prod.splits sum.splits bool.splits)

definition box_lib :: "box wait_lib" where
  "box_lib = \<lparr>ExponentialBackoff = poll, Interrupted = (\<lambda>e. e = timed_out)\<rparr>"

definition box_config :: "box Config" where
  "box_config = \<lparr>cfg_NodeName = ''n1'', cfg_K8sClient = Some (\<lambda>n. mem_writer bx_ann (\<lambda>a s. s\<lparr>bx_ann := a\<rparr>) n),
     cfg_MCOClient = Some box_get, cfg_HostRoot = ''/host'', cfg_SystemdConn = Some box_systemd, cfg_NoReboot = False\<rparr>"

definition box_agent :: "box Agent" where
  "box_agent = \<lparr>ag_nodeName = ''n1'', ag_GetRMC = box_get,
     ag_applier = NewApplier box_host ''/host'' box_systemd, ag_writer = box_writer,
     ag_rebootHandler = box_handler, ag_hostRoot = ''/host'', ag_rmcCache = NewRMCCache DefaultRMCCacheTTL,
     ag_pendingRebootRevision = [], ag_currentUpdateCancel = None, ag_currentDesiredRev = [],
     ag_currentUpdateID = 0, ag_contexts = 0, ag_cancelled = []\<rparr>"

lemma box_agent_new: "NewWithContext box_host (Inl timed_out) box_execute box_execute box_config = Inr box_agent"
  by (simp add: NewWithContext_def box_config_def box_agent_def box_handler_def Let_def)

lemma box_agent_parts:
  "ag_GetRMC box_agent = box_get" "ag_writer box_agent = box_writer" "ag_rebootHandler box_agent = box_handler"
  "ag_applier box_agent = \<lparr>ap_files = file_operations (NewFileApplier ''/host'') box_host, ap_systemd = box_systemd\<rparr>"
  by (simp_all add: box_agent_def NewApplier_def)

lemma box_systemd_keeps: "(\<And>t s. v (s\<lparr>bx_units := t\<rparr>) = v s) \<Longrightarrow> systemd_keeps box_systemd v"
  by (simp add: systemd_keeps_def mem_systemd_def issue_def inspect_def Let_def)

interpretation box_world: agent_world box_agent "\<lambda>s. dk_files (bx_disk s)" "\<lambda>s. dk_temps (bx_disk s)"
  bx_ann bx_reboots box_lib "NewFileApplier ''/host''" box_systemd
proof (intro agent_world.intro agent_world_axioms.intro, unfold box_agent_parts box_handler_parts)
  show "reboot_world box_handler (\<lambda>s. dk_files (bx_disk s)) (\<lambda>s. dk_temps (bx_disk s)) bx_ann bx_reboots"
    by (rule box_reboot.reboot_world_axioms)
  show "systemd_keeps box_systemd bx_ann" "systemd_keeps box_systemd bx_reboots"
    by (rule box_systemd_keeps, simp)+
  show "I (snd (ExponentialBackoff box_lib steps f st))"
    if "I st" "\<And>st. I st \<Longrightarrow> I (snd (f st))" for I f st steps
    using poll_keeps [of I st f steps] that by (simp add: box_lib_def)
  show "\<exists>st0. f st0 = (Inr True, st')" if "ExponentialBackoff box_lib steps f st = (None, st')" for f st st' steps
    using poll_met [of steps f st st'] that unfolding box_lib_def wait_lib.simps .
qed (auto simp: box_get_def split: option.splits if_splits)

text \<open>A node that moves to a revision whose one file it already has.\<close>

definition ex_target :: RenderedMachineConfig where
  "ex_target = (ex_rendered ''w-2'' [ex_file ''hi''] [])\<lparr>rmc_Spec := (rmc_Spec (ex_rendered ''w-2'' [ex_file ''hi''] []))
     \<lparr>rmcs_Config := \<lparr>rc_Files = [ex_file ''hi''], rc_Systemd = \<lparr>systemd_Units = []\<rparr>\<rparr>\<rparr>\<rparr>"

definition ex_node_box :: box where
  "ex_node_box = ex_box\<lparr>bx_ann := [CurrentRevision \<mapsto> ''w-1''], bx_rmcs := [''w-2'' \<mapsto> ex_target]\<rparr>"

definition ex_event :: Node where
  "ex_event = (ex_running ''w-1'')\<lparr>node_Annotations := [CurrentRevision \<mapsto> ''w-1'', DesiredRevision \<mapsto> ''w-2'']\<rparr>"

abbreviation ex_update :: "go_error option \<times> box Agent \<times> box" where
  "ex_update \<equiv> handleNodeUpdate box_lib (\<lambda>s. None) ex_event (box_agent, ex_node_box)"

lemma ex_fetch: "fetchRMCWithRetry box_lib (\<lambda>s. None) box_agent ''w-2'' s =
    (case bx_rmcs s ''w-2'' of
       None \<Rightarrow> (Inl not_found, s)
     | Some r \<Rightarrow> (if rmc_Name r = ''w-2'' then Inr r else Inl not_found, s))"
proof -
  have "poll 4 f x = poll (Suc (Suc (Suc (Suc 0)))) f x" for f and x :: "box fetch_state"
    by (simp add: eval_nat_numeral)
  then show ?thesis
    by (simp add: fetchRMCWithRetry_def fetch_condition_def box_lib_def box_get_def box_agent_parts
        not_found_def error_defs timed_out_def split: option.split)
qed

lemma ex_box_frame [simp]:
  "bx_disk (ex_node_box\<lparr>bx_ann := m\<rparr>) = ex_disk" "bx_ann ex_node_box = [CurrentRevision \<mapsto> ''w-1'']"
  "bx_rmcs ex_node_box = [''w-2'' \<mapsto> ex_target]" "rmc_Name ex_target = ''w-2''"
  by (simp_all add: ex_node_box_def ex_box_def ex_target_def ex_rendered_def)

lemma ex_target_applied:
  assumes "bx_disk s = ex_disk"
  shows "ApplySpec (\<lambda>s. None) \<lparr>ap_files = file_operations (NewFileApplier ''/host'') box_host, ap_systemd = box_systemd\<rparr>
      (rmc_Spec ex_target) s =
    (\<lparr>ar_Success = True, ar_Error = None, ar_FilesApplied = 0, ar_FilesSkipped = 1,
      ar_UnitsApplied = 0, ar_UnitsSkipped = 0\<rparr>, s)"
proof -
  have "ApplyFile (NewFileApplier ''/host'') box_host (ex_file ''hi'') s =
      (\<lparr>fr_Path = ''/etc/motd'', fr_Applied = False, fr_Error = None\<rparr>, s)"
    using assms by (simp add: ex_host_path ApplyFile_def Let_def)
      (simp add: ex_disk_def ex_file_def files_defs path_defs strings_defs disk_host_def)
  then show ?thesis
    by (simp add: ApplySpec_def Apply_def ex_target_def sortFilesByPath_def sortUnitsByName_def
        file_operations_def empty_result_def)
qed

lemma ex_event_parts:
  "GetAnnotation (node_Annotations ex_event) DesiredRevision = ''w-2''"
  "GetAnnotation (node_Annotations ex_event) CurrentRevision = ''w-1''"
  "\<not> IsNodePaused (node_Annotations ex_event)" "\<not> GetBoolAnnotation (node_Annotations ex_event) RebootPending"
  "ag_pendingRebootRevision box_agent = []"
  by (simp_all add: ex_event_def box_agent_def annotation_defs key_defs value_defs)

lemma ex_update_result:
  "ex_update = (None, box_agent, ex_node_box\<lparr>bx_ann := [AgentState \<mapsto> StateDone, CurrentRevision \<mapsto> ''w-2'']\<rparr>)"
proof -
  have safe: "json_safe (\<lambda>r. True) ''w-2''" by (rule json_safe_ascii) simp
  have idle: "box_agent\<lparr>ag_pendingRebootRevision := []\<rparr> = box_agent" by (simp add: box_agent_def)
  have keys: "LastError \<noteq> AgentState" "LastError \<noteq> CurrentRevision" "AgentState \<noteq> CurrentRevision"
    by (simp_all add: key_defs)
  have "applyConfig (\<lambda>s. None) ex_target ex_event (box_agent, ex_node_box) =
      (None, box_agent, ex_node_box\<lparr>bx_ann := [AgentState \<mapsto> StateDone, CurrentRevision \<mapsto> ''w-2'']\<rparr>)"
    using keys by (simp add: applyConfig_def box_agent_parts mem_writes safe ex_target_applied report_done_def idle
        fun_upd_twist)
  then show ?thesis
    by (simp add: handleNodeUpdate_def ex_event_parts ex_fetch)
qed

theorem current_revision_only_after_apply_witness:
  "bx_ann (snd (snd ex_update)) AgentState = Some StateDone \<and>
   (\<exists>fetched r applied. ApplySpec (\<lambda>s. None) (ag_applier box_agent) (rmc_Spec ex_target) (apply_start box_agent fetched) = (r, applied) \<and>
      ar_Success r)"
proof -
  let ?s = "ex_node_box\<lparr>bx_ann := [AgentState \<mapsto> StateDone, CurrentRevision \<mapsto> ''w-2'']\<rparr>"
  have n: "bx_ann ?s CurrentRevision \<noteq> bx_ann ex_node_box CurrentRevision" by (simp add: key_defs)
  have act: "agent_act box_lib (\<lambda>s. None) (Inr ex_event) (box_agent, ex_node_box) (box_agent, ?s)"
    by (rule agent_act.event [OF ex_update_result])
  have np: "\<not> reboot_detected (ag_rebootHandler box_agent) ex_event ex_node_box"
    by (simp add: reboot_detected_def ex_event_parts)
  obtain rmc fetched r applied where C:
    "fetchRMCWithRetry box_lib (\<lambda>s. None) box_agent ''w-2'' ex_node_box = (Inr rmc, fetched)"
    "ApplySpec (\<lambda>s. None) (ag_applier box_agent) (rmc_Spec rmc) (apply_start box_agent fetched) = (r, applied)"
    "ar_Success r" "bx_ann ?s AgentState = Some StateDone"
    using current_revision_only_after_apply [OF box_world.agent_world_axioms box_units.systemd_history_axioms act n]
      np ex_event_parts(1) by (elim exE conjE disjE) auto
  moreover from this(1) have "rmc = ex_target" by (simp add: ex_fetch)
  ultimately show ?thesis unfolding ex_update_result by auto
qed

abbreviation ex_bare :: box where
  "ex_bare \<equiv> ex_node_box\<lparr>bx_rmcs := Map.empty\<rparr>"

theorem failed_update_keeps_current_revision_witness:
  "\<exists>err a' s'. handleNodeUpdate box_lib (\<lambda>s. None) ex_event (box_agent, ex_bare) = (Some err, (a', s')) \<and>
     bx_ann s' CurrentRevision = Some ''w-1''"
proof -
  obtain err a' s' where h: "handleNodeUpdate box_lib (\<lambda>s. None) ex_event (box_agent, ex_bare) = (Some err, (a', s'))"
    by (simp add: handleNodeUpdate_def ex_event_parts ex_fetch Let_def)
  show ?thesis
    using failed_update_keeps_current_revision [OF box_world.agent_world_axioms h] h by simp
qed

theorem stale_update_never_cancelled_witness:
  "ag_cancelled (fst (Run_watches box_lib (\<lambda>s. None) [[Received (WatchAdded ex_event)], [ChannelClosed]]
     (Run_startup (Inr ex_event) (box_agent, ex_node_box)))) = []"
  by (rule stale_update_never_cancelled [OF box_agent_new])

abbreviation ex_waiting :: "box Agent" where
  "ex_waiting \<equiv> box_agent\<lparr>ag_pendingRebootRevision := ''w-2''\<rparr>"

theorem pending_reboot_forgotten_witness:
  "handleNodeUpdate box_lib (\<lambda>s. None) ex_event (ex_waiting, ex_node_box) = (None, (ex_waiting, ex_node_box))"
proof -
  have w: "agent_world ex_waiting (\<lambda>s. dk_files (bx_disk s)) (\<lambda>s. dk_temps (bx_disk s)) bx_ann bx_reboots
      box_lib (NewFileApplier ''/host'') box_systemd"
    by (rule agent_world_progress [OF _ box_world.agent_world_axioms]) simp
  have "fetchRMCWithRetry box_lib (\<lambda>s. None) ex_waiting ''w-2'' ex_node_box =
      fetchRMCWithRetry box_lib (\<lambda>s. None) box_agent ''w-2'' ex_node_box"
    by (simp add: fetchRMCWithRetry_def fetch_condition_def [abs_def])
  then have f: "fetchRMCWithRetry box_lib (\<lambda>s. None) ex_waiting ''w-2'' ex_node_box = (Inr ex_target, ex_node_box)"
    by (simp add: ex_fetch)
  have r: "\<not> rrs_Required (rmcs_Reboot (rmc_Spec ex_target))" by (simp add: ex_target_def ex_rendered_def)
  show ?thesis
    using pending_reboot_forgotten [OF w ex_event_parts(1) [symmetric] _ f r] by (simp add: ex_event_parts)
qed

end
