(* ===== verification/Events.thy ===== *)
theory Events
  imports MCO_Types
begin

text \<open>
  \<open>internal/controller/events.go\<close>: the events a rollout emits. The recorder of client-go is
  not code of the repository; it is kept as the list of the events it was given, and a missing
  recorder is \<open>None\<close>, for which every method returns at once.
\<close>

section \<open>Reasons\<close>

definition ReasonPoolOverlap :: string where "ReasonPoolOverlap = ''PoolOverlap''"
definition ReasonPoolOverlapResolved :: string where "ReasonPoolOverlapResolved = ''PoolOverlapResolved''"
definition ReasonNodeCordon :: string where "ReasonNodeCordon = ''NodeCordon''"
definition ReasonNodeDrain :: string where "ReasonNodeDrain = ''NodeDrain''"
definition ReasonDrainStuck :: string where "ReasonDrainStuck = ''DrainStuck''"
definition ReasonApplyTimeout :: string where "ReasonApplyTimeout = ''ApplyTimeout''"
definition ReasonDrainComplete :: string where "ReasonDrainComplete = ''DrainComplete''"
definition ReasonNodeUncordon :: string where "ReasonNodeUncordon = ''NodeUncordon''"
definition ReasonRolloutBatch :: string where "ReasonRolloutBatch = ''RolloutBatch''"
definition ReasonRolloutComplete :: string where "ReasonRolloutComplete = ''RolloutComplete''"
definition ReasonDrainFailed :: string where "ReasonDrainFailed = ''DrainFailed''"

lemmas reason_defs [mco_eval] =
  ReasonPoolOverlap_def ReasonPoolOverlapResolved_def ReasonNodeCordon_def ReasonNodeDrain_def
  ReasonDrainStuck_def ReasonApplyTimeout_def ReasonDrainComplete_def ReasonNodeUncordon_def
  ReasonRolloutBatch_def ReasonRolloutComplete_def ReasonDrainFailed_def

section \<open>The recorder\<close>

record Event =
  evt_Pool :: string
  evt_Type :: string
  evt_Reason :: string
  evt_Message :: string

definition EventTypeNormal :: string where "EventTypeNormal = ''Normal''"
definition EventTypeWarning :: string where "EventTypeWarning = ''Warning''"

record EventRecorder =
  er_recorder :: "Event list option"

definition NewEventRecorder :: "Event list option \<Rightarrow> EventRecorder" where
  "NewEventRecorder recorder = \<lparr>er_recorder = recorder\<rparr>"

text \<open>What the methods share: nothing without a recorder, otherwise one event about the pool.\<close>

definition emit :: "string \<Rightarrow> string \<Rightarrow> string \<Rightarrow> MachineConfigPool \<Rightarrow> EventRecorder \<Rightarrow> EventRecorder" where
  "emit ty reason msg pool e =
     (case er_recorder e of
        None \<Rightarrow> e
      | Some l \<Rightarrow>
          e\<lparr>er_recorder := Some (l @ [\<lparr>evt_Pool = pool_Name pool, evt_Type = ty, evt_Reason = reason,
                                      evt_Message = msg\<rparr>])\<rparr>)"

definition PoolOverlapDetected :: "MachineConfigPool \<Rightarrow> string list \<Rightarrow> EventRecorder \<Rightarrow> EventRecorder" where
  "PoolOverlapDetected pool nodes =
     emit EventTypeWarning ReasonPoolOverlap (''Pool overlap detected for nodes: '' @ Join nodes '', '') pool"

definition PoolOverlapResolved :: "MachineConfigPool \<Rightarrow> EventRecorder \<Rightarrow> EventRecorder" where
  "PoolOverlapResolved pool = emit EventTypeNormal ReasonPoolOverlapResolved ''Pool overlap resolved'' pool"

definition NodeCordonStarted :: "MachineConfigPool \<Rightarrow> string \<Rightarrow> EventRecorder \<Rightarrow> EventRecorder" where
  "NodeCordonStarted pool nodeName =
     emit EventTypeWarning ReasonNodeCordon (''Node '' @ nodeName @ '' cordoned for update (unschedulable)'') pool"

definition NodeDrainStarted :: "MachineConfigPool \<Rightarrow> string \<Rightarrow> EventRecorder \<Rightarrow> EventRecorder" where
  "NodeDrainStarted pool nodeName =
     emit EventTypeWarning ReasonNodeDrain (''Drain started on node '' @ nodeName @ '' (evicting pods)'') pool"

definition DrainStuckEvent :: "MachineConfigPool \<Rightarrow> string \<Rightarrow> EventRecorder \<Rightarrow> EventRecorder" where
  "DrainStuckEvent pool nodeName =
     emit EventTypeWarning ReasonDrainStuck (''Drain stuck on node '' @ nodeName @ '', timeout exceeded'') pool"

definition ApplyTimeout :: "MachineConfigPool \<Rightarrow> string \<Rightarrow> int \<Rightarrow> EventRecorder \<Rightarrow> EventRecorder" where
  "ApplyTimeout pool nodeName timeoutSeconds =
     emit EventTypeWarning ReasonApplyTimeout
       (''Node '' @ nodeName @ '' apply timeout exceeded ('' @ Itoa timeoutSeconds @ ''s)'') pool"

definition DrainCompleteEvent :: "MachineConfigPool \<Rightarrow> string \<Rightarrow> EventRecorder \<Rightarrow> EventRecorder" where
  "DrainCompleteEvent pool nodeName =
     emit EventTypeNormal ReasonDrainComplete (''Drain completed on node '' @ nodeName) pool"

definition NodeUncordoned :: "MachineConfigPool \<Rightarrow> string \<Rightarrow> EventRecorder \<Rightarrow> EventRecorder" where
  "NodeUncordoned pool nodeName =
     emit EventTypeNormal ReasonNodeUncordon (''Node '' @ nodeName @ '' uncordoned after successful update'') pool"

definition RolloutBatchStarted :: "MachineConfigPool \<Rightarrow> int \<Rightarrow> string list \<Rightarrow> EventRecorder \<Rightarrow> EventRecorder" where
  "RolloutBatchStarted pool nodeCount nodeNames =
     emit EventTypeNormal ReasonRolloutBatch
       (''Starting update on '' @ Itoa nodeCount @ '' nodes: ''
        @ (if length nodeNames \<le> 3 then Join nodeNames '', ''
           else Join (take 3 nodeNames) '', '' @ '', ... and '' @ Itoa (nodeCount - 3) @ '' more'')) pool"

definition RolloutComplete :: "MachineConfigPool \<Rightarrow> EventRecorder \<Rightarrow> EventRecorder" where
  "RolloutComplete pool = emit EventTypeNormal ReasonRolloutComplete ''All nodes updated to target revision'' pool"

definition DrainFailedEvent :: "MachineConfigPool \<Rightarrow> string \<Rightarrow> string \<Rightarrow> EventRecorder \<Rightarrow> EventRecorder" where
  "DrainFailedEvent pool nodeName reason =
     emit EventTypeWarning ReasonDrainFailed
       (''Drain failed on node '' @ nodeName @ '': '' @ reason @ '' (will retry)'') pool"

lemmas event_defs [mco_eval] =
  NewEventRecorder_def EventTypeNormal_def EventTypeWarning_def emit_def PoolOverlapDetected_def
  PoolOverlapResolved_def NodeCordonStarted_def NodeDrainStarted_def DrainStuckEvent_def ApplyTimeout_def
  DrainCompleteEvent_def NodeUncordoned_def RolloutBatchStarted_def RolloutComplete_def DrainFailedEvent_def

section \<open>Events are only ever added\<close>

text \<open>The events a recorder has seen; a recorder that is missing stays so.\<close>

definition emitted :: "EventRecorder \<Rightarrow> Event list" where
  "emitted e = (case er_recorder e of None \<Rightarrow> [] | Some l \<Rightarrow> l)"

definition recording :: "EventRecorder \<Rightarrow> bool" where
  "recording e \<longleftrightarrow> er_recorder e \<noteq> None"

lemma emit_simps [simp]:
  "recording (emit ty reason msg pool e) = recording e"
  "emitted (emit ty reason msg pool e) =
     emitted e @ (if recording e then [\<lparr>evt_Pool = pool_Name pool, evt_Type = ty, evt_Reason = reason,
                                        evt_Message = msg\<rparr>] else [])"
  by (simp_all add: emit_def emitted_def recording_def split: option.split)

end
