(* ===== verification/Metrics.thy ===== *)
theory Metrics
  imports Pool_Selection
begin

text \<open>
  \<open>internal/controller/metrics.go\<close>: the gauges and counters of the controller. A gauge with a
  pool label is a map from pools to its value, where a label that was never set or was deleted
  is absent; a histogram is the list of its observations, of the type \<open>'f\<close> that stands for
  \<open>float64\<close>. The counts of the gauges are whole numbers.
\<close>

section \<open>metrics.go\<close>

record 'f Metrics =
  mt_poolOverlapNodesTotal :: "string \<rightharpoonup> nat"
  mt_poolOverlapConflictsTotal :: nat
  mt_poolReconcileTotal :: "string \<times> string \<rightharpoonup> nat"
  mt_poolReconcileDuration :: "(string \<times> 'f) list"
  mt_drainDuration :: "((string \<times> string) \<times> 'f) list"
  mt_drainStuckTotal :: "string \<rightharpoonup> nat"
  mt_cordonedNodes :: "string \<rightharpoonup> nat"
  mt_drainingNodes :: "string \<rightharpoonup> nat"

definition Inc :: "'k \<Rightarrow> ('k \<rightharpoonup> nat) \<Rightarrow> ('k \<rightharpoonup> nat)" where
  "Inc k m = m(k \<mapsto> (case m k of None \<Rightarrow> 0 | Some n \<Rightarrow> n) + 1)"

text \<open>The two nested loops that count the conflicting nodes of each pool.\<close>

definition poolConflictCounts :: "OverlapResult \<Rightarrow> string \<rightharpoonup> nat" where
  "poolConflictCounts overlap =
     foldl (\<lambda>counts (node, poolNames). foldl (\<lambda>counts pool. Inc pool counts) counts poolNames)
       Map.empty (ov_ConflictingNodes overlap)"

definition RecordPoolOverlapMetrics :: "OverlapResult option \<Rightarrow> string list \<Rightarrow> 'f Metrics \<Rightarrow> 'f Metrics" where
  "RecordPoolOverlapMetrics overlap pools m =
     (let zeroed = foldl (\<lambda>g pool. g(pool \<mapsto> 0)) (mt_poolOverlapNodesTotal m) pools in
      case overlap of
        None \<Rightarrow> m\<lparr>mt_poolOverlapNodesTotal := zeroed, mt_poolOverlapConflictsTotal := 0\<rparr>
      | Some r \<Rightarrow>
          m\<lparr>mt_poolOverlapNodesTotal := zeroed ++ poolConflictCounts r,
            mt_poolOverlapConflictsTotal := ConflictCount r\<rparr>)"

definition RecordReconcileResult :: "string \<Rightarrow> string \<Rightarrow> 'f Metrics \<Rightarrow> 'f Metrics" where
  "RecordReconcileResult pool result m = m\<lparr>mt_poolReconcileTotal := Inc (pool, result) (mt_poolReconcileTotal m)\<rparr>"

definition RecordReconcileDuration :: "string \<Rightarrow> 'f \<Rightarrow> 'f Metrics \<Rightarrow> 'f Metrics" where
  "RecordReconcileDuration pool durationSeconds m =
     m\<lparr>mt_poolReconcileDuration := mt_poolReconcileDuration m @ [(pool, durationSeconds)]\<rparr>"

definition ResetPoolMetrics :: "string \<Rightarrow> 'f Metrics \<Rightarrow> 'f Metrics" where
  "ResetPoolMetrics pool m =
     m\<lparr>mt_poolOverlapNodesTotal := (mt_poolOverlapNodesTotal m)(pool := None),
       mt_cordonedNodes := (mt_cordonedNodes m)(pool := None),
       mt_drainingNodes := (mt_drainingNodes m)(pool := None)\<rparr>"

definition RecordDrainDuration :: "string \<Rightarrow> string \<Rightarrow> 'f \<Rightarrow> 'f Metrics \<Rightarrow> 'f Metrics" where
  "RecordDrainDuration pool node durationSeconds m =
     m\<lparr>mt_drainDuration := mt_drainDuration m @ [((pool, node), durationSeconds)]\<rparr>"

definition RecordDrainStuck :: "string \<Rightarrow> 'f Metrics \<Rightarrow> 'f Metrics" where
  "RecordDrainStuck pool m = m\<lparr>mt_drainStuckTotal := Inc pool (mt_drainStuckTotal m)\<rparr>"

definition UpdateCordonedNodesGauge :: "string \<Rightarrow> nat \<Rightarrow> 'f Metrics \<Rightarrow> 'f Metrics" where
  "UpdateCordonedNodesGauge pool n m = m\<lparr>mt_cordonedNodes := (mt_cordonedNodes m)(pool \<mapsto> n)\<rparr>"

definition UpdateDrainingNodesGauge :: "string \<Rightarrow> nat \<Rightarrow> 'f Metrics \<Rightarrow> 'f Metrics" where
  "UpdateDrainingNodesGauge pool n m = m\<lparr>mt_drainingNodes := (mt_drainingNodes m)(pool \<mapsto> n)\<rparr>"

lemmas metrics_defs [mco_eval] =
  Inc_def poolConflictCounts_def RecordPoolOverlapMetrics_def RecordReconcileResult_def
  RecordReconcileDuration_def ResetPoolMetrics_def RecordDrainDuration_def RecordDrainStuck_def
  UpdateCordonedNodesGauge_def UpdateDrainingNodesGauge_def

section \<open>The overlap gauge\<close>

text \<open>The loops count how often a pool occurs.\<close>

lemma Inc_fold:
  "foldl (\<lambda>counts k. Inc k counts) m ks k =
     (if k \<in> set ks then Some ((case m k of None \<Rightarrow> 0 | Some n \<Rightarrow> n) + count_list ks k) else m k)"
  by (induction ks arbitrary: m) (auto simp: Inc_def split: option.split)

lemma poolConflictCounts_concat:
  "poolConflictCounts r p =
     (let ps = concat (map snd (ov_ConflictingNodes r))
      in if p \<in> set ps then Some (count_list ps p) else None)"
proof -
  have "foldl (\<lambda>counts (node, poolNames). foldl (\<lambda>counts pool. Inc pool counts) counts poolNames) m xs
      = foldl (\<lambda>counts k. Inc k counts) m (concat (map snd xs))" for m and xs :: "(string \<times> string list) list"
    by (induction xs arbitrary: m) auto
  then show ?thesis by (simp add: poolConflictCounts_def Inc_fold Let_def)
qed

lemma count_concat:
  assumes "\<forall>x\<in>set xs. distinct (snd x)"
  shows "count_list (concat (map snd xs)) p = length (filter (\<lambda>x. p \<in> set (snd x)) xs)"
proof -
  have d: "distinct ys \<Longrightarrow> count_list ys p = (if p \<in> set ys then 1 else 0)" for ys
    by (induction ys) auto
  show ?thesis using assms by (induction xs) (auto simp: d)
qed

lemma zeroed_gauge:
  "foldl (\<lambda>g pool. g(pool \<mapsto> 0)) g ps p = (if p \<in> set ps then Some (0::nat) else g p)"
  by (induction ps arbitrary: g) auto

lemma overlap_gauge:
  assumes "\<forall>x\<in>set (ov_ConflictingNodes r). distinct (snd x)" and "p \<in> set pools"
  shows "mt_poolOverlapNodesTotal (RecordPoolOverlapMetrics (Some r) pools m) p =
    Some (length (GetConflictsForPool r p))"
proof -
  have "length (GetConflictsForPool r p) = count_list (concat (map snd (ov_ConflictingNodes r))) p"
    by (simp add: GetConflictsForPool_def sort_strings_def count_concat [OF assms(1)] case_prod_unfold)
  then show ?thesis
    using assms(2)
    by (auto simp: RecordPoolOverlapMetrics_def poolConflictCounts_concat Let_def zeroed_gauge map_add_def
        count_list_0_iff)
qed

end
