(* ===== verification/Pool_Controller.thy ===== *)
theory Pool_Controller
  imports Node_Update Pool_Status Debounce Cleanup Renderer_Render Events Metrics
begin

text \<open>
  \<open>internal/controller/machineconfigpool_controller.go\<close>: the reconciler of pools, which calls
  every other part of the controller. Its own state is the record \<open>Reconciler\<close>: the debounce
  state, the events and the metrics; the cluster is the state \<open>'s\<close> behind the client.

  \<^item> What is not code of the repository is the record \<open>'s runtime\<close>: the client, the label
    selectors, \<open>controllerutil.SetControllerReference\<close> and \<open>retry.RetryOnConflict\<close>.
  \<^item> \<open>time.Now()\<close> is a function of the state of the cluster, which every call may change.
  \<^item> A closure given to \<open>RetryOnConflict\<close> assigns variables of its caller: the record
    \<open>closure_state\<close> is the cluster with these variables.
  \<^item> An object that is sent to the server stays as it was sent; what the server adds to it
    (version, creation time) is not read afterwards. Logging is left out.
\<close>

section \<open>State\<close>

record Reconciler =
  rec_debounce :: DebounceState
  rec_events :: EventRecorder
  rec_metrics :: "duration Metrics"

record 's closure_state =
  cs_world :: 's
  cs_pool :: MachineConfigPool
  cs_rolloutJustCompleted :: bool
  cs_metrics :: "duration Metrics"

record 's runtime =
  rt_Client :: "'s client"
  rt_asSelector :: as_selector
  rt_SetControllerReference :: "MachineConfigPool \<Rightarrow> RenderedMachineConfig \<Rightarrow> RenderedMachineConfig result"
  rt_Now :: "'s \<Rightarrow> time"
  rt_RetryOnConflict ::
    "('s closure_state \<Rightarrow> go_error option \<times> 's closure_state) \<Rightarrow> 's closure_state \<Rightarrow> go_error option \<times> 's closure_state"

text \<open>The \<open>RequeueAfter\<close> of the result, and the error.\<close>

type_synonym reconcile_result = "duration \<times> go_error option"

section \<open>Rendered configurations\<close>

definition maxCollisionRetries :: int where "maxCollisionRetries = 10"

datatype suffix_result = Reuse RenderedMachineConfig | UseName string

text \<open>The loop over the suffixes, from \<open>suffix\<close> on.\<close>

function try_suffix ::
  "'s client \<Rightarrow> RenderedMachineConfig \<Rightarrow> int \<Rightarrow> 's \<Rightarrow> suffix_result result \<times> 's" where
  "try_suffix c rmc suff s =
     (if suff \<le> maxCollisionRetries then
        let candidateName = rmc_Name rmc @ ''-'' @ Itoa suff in
        (case GetRMC c s candidateName of
           (Inl err, s1) \<Rightarrow>
             if IsNotFound err then (Inr (UseName candidateName), s1)
             else (Inl (Wrap ''failed to check RMC name availability'' err), s1)
         | (Inr candidate, s1) \<Rightarrow>
             if rmcs_ConfigHash (rmc_Spec candidate) = rmcs_ConfigHash (rmc_Spec rmc)
             then (Inr (Reuse candidate), s1)
             else if suff = maxCollisionRetries
             then (Inl (Err (''hash collision: exhausted all '' @ Itoa maxCollisionRetries
                        @ '' suffix attempts for '' @ rmc_Name rmc)), s1)
             else try_suffix c rmc (suff + 1) s1)
      else (Inr (UseName (rmc_Name rmc)), s))"
  by pat_completeness auto
termination
  by (relation "measure (\<lambda>(c, rmc, suff, s). nat (maxCollisionRetries + 1 - suff))") auto

declare try_suffix.simps [simp del]

definition create_rmc ::
  "'s runtime \<Rightarrow> MachineConfigPool \<Rightarrow> RenderedMachineConfig \<Rightarrow> 's \<Rightarrow> RenderedMachineConfig result \<times> 's" where
  "create_rmc rt pool rmc s =
     (case rt_SetControllerReference rt pool rmc of
        Inl err \<Rightarrow> (Inl (Wrap ''failed to set owner reference'' err), s)
      | Inr owned \<Rightarrow>
          (case CreateRMC (rt_Client rt) s owned of
             (None, s1) \<Rightarrow> (Inr owned, s1)
           | (Some err, s1) \<Rightarrow>
               if IsAlreadyExists err then GetRMC (rt_Client rt) s1 (rmc_Name owned)
               else (Inl err, s1)))"

definition reboot_differs :: "RenderedMachineConfig \<Rightarrow> RenderedMachineConfig \<Rightarrow> bool" where
  "reboot_differs existing rmc \<longleftrightarrow>
     rrs_Strategy (rmcs_Reboot (rmc_Spec existing)) \<noteq> rrs_Strategy (rmcs_Reboot (rmc_Spec rmc)) \<or>
     rrs_MinIntervalSeconds (rmcs_Reboot (rmc_Spec existing)) \<noteq> rrs_MinIntervalSeconds (rmcs_Reboot (rmc_Spec rmc))"

definition ensureRMC ::
  "'s runtime \<Rightarrow> MachineConfigPool \<Rightarrow> MergedConfig \<Rightarrow> 's \<Rightarrow> RenderedMachineConfig result \<times> 's" where
  "ensureRMC rt pool merged s =
     (let c = rt_Client rt;
          built = BuildRMC (pool_Name pool) merged (Some pool);
          rmc = built\<lparr>rmc_Labels := (rmc_Labels built)(''mco.in-cloud.io/pool'' \<mapsto> pool_Name pool)\<rparr>
      in case CheckExistingRMC c rmc s of
           ((existing, err), s1) \<Rightarrow>
             if (case err of Some e \<Rightarrow> \<not> IsHashCollision e | None \<Rightarrow> False) then (Inl (the err), s1)
             else (case existing of
               Some ex \<Rightarrow>
                 if rmcs_ConfigHash (rmc_Spec ex) = rmcs_ConfigHash (rmc_Spec rmc) then
                   if reboot_differs ex rmc then
                     let ex1 = ex\<lparr>rmc_Spec := (rmc_Spec ex)\<lparr>rmcs_Reboot := rmcs_Reboot (rmc_Spec rmc)\<rparr>\<rparr> in
                     (case UpdateRMC c s1 ex1 of
                        (Some e, s2) \<Rightarrow> (Inl (Wrap ''failed to update RMC reboot spec'' e), s2)
                      | (None, s2) \<Rightarrow> (Inr ex1, s2))
                   else (Inr ex, s1)
                 else
                   (case try_suffix c rmc 1 s1 of
                      (Inl e, s2) \<Rightarrow> (Inl e, s2)
                    | (Inr (Reuse candidate), s2) \<Rightarrow> (Inr candidate, s2)
                    | (Inr (UseName n), s2) \<Rightarrow> create_rmc rt pool (rmc\<lparr>rmc_Name := n\<rparr>) s2)
             | None \<Rightarrow> create_rmc rt pool rmc s1))"

section \<open>Status writes\<close>

text \<open>Get the pool, change it, update its status: the body of the first two closures.\<close>

definition update_pool_status ::
  "'s runtime \<Rightarrow> string \<Rightarrow> (time \<Rightarrow> MachineConfigPool \<Rightarrow> MachineConfigPool) \<Rightarrow>
     's closure_state \<Rightarrow> go_error option \<times> 's closure_state" where
  "update_pool_status rt name change st =
     (case GetPool (rt_Client rt) (cs_world st) name of
        (Inl err, s1) \<Rightarrow> (Some err, st\<lparr>cs_world := s1\<rparr>)
      | (Inr p, s1) \<Rightarrow>
          let p1 = change (rt_Now rt s1) p in
          (case UpdatePoolStatus (rt_Client rt) s1 p1 of
             (e, s2) \<Rightarrow> (e, st\<lparr>cs_world := s2, cs_pool := p1\<rparr>)))"

text \<open>The third closure, with the metrics and the flag for the event.\<close>

definition status_change ::
  "OverlapResult option \<Rightarrow> string list \<Rightarrow> AggregatedStatus \<Rightarrow> time \<Rightarrow> MachineConfigPool \<Rightarrow> MachineConfigPool" where
  "status_change overlap drainStuckNodes status now p =
     (let p1 = ApplyStatusToPool p status;
          p2 = ApplyOverlapCondition overlap now p1
      in if length drainStuckNodes > 0
         then SetDrainStuckCondition (''Drain stuck on nodes: '' @ Join drainStuckNodes '', '') now p2
         else ClearDrainStuckCondition now p2)"

definition update_rollout_status ::
  "'s runtime \<Rightarrow> string \<Rightarrow> OverlapResult option \<Rightarrow> string \<Rightarrow> Node list \<Rightarrow> string list \<Rightarrow> bool \<Rightarrow>
     's closure_state \<Rightarrow> go_error option \<times> 's closure_state" where
  "update_rollout_status rt name overlap target nodes drainStuckNodes wasNotComplete st =
     (case GetPool (rt_Client rt) (cs_world st) name of
        (Inl err, s1) \<Rightarrow> (Some err, st\<lparr>cs_world := s1\<rparr>)
      | (Inr p, s1) \<Rightarrow>
          let now = rt_Now rt s1;
              status = AggregateStatus target nodes (ro_ApplyTimeoutSeconds (ps_Rollout (pool_Spec p))) now;
              p1 = status_change overlap drainStuckNodes status now p;
              m1 = UpdateDrainingNodesGauge (pool_Name p1) (ag_DrainingMachineCount status)
                     (UpdateCordonedNodesGauge (pool_Name p1) (ag_CordonedMachineCount status) (cs_metrics st));
              completed = (wasNotComplete \<and> ag_MachineCount status > 0
                \<and> ag_UpdatedMachineCount status = ag_MachineCount status
                \<and> ag_ReadyMachineCount status = ag_MachineCount status)
          in (case UpdatePoolStatus (rt_Client rt) s1 p1 of
                (e, s2) \<Rightarrow>
                  (e, \<lparr>cs_world = s2, cs_pool = p1, cs_rolloutJustCompleted = completed, cs_metrics = m1\<rparr>)))"

section \<open>The node loop\<close>

definition nodes_to_process :: "Node list \<Rightarrow> Node list \<Rightarrow> Node list" where
  "nodes_to_process inProgress newNodes =
     inProgress @ filter (\<lambda>n. node_Name n \<notin> node_Name ` set inProgress) newNodes"

record loop_state =
  ls_minRequeueAfter :: duration
  ls_drainStuckNodes :: "string list"
  ls_uncordonedCount :: nat
  ls_events :: EventRecorder
  ls_metrics :: "duration Metrics"

text \<open>What the loop does with the result of one node: events, stuck drains, the shortest delay.\<close>

definition emit_node_events ::
  "MachineConfigPool \<Rightarrow> string \<Rightarrow> NodeUpdateResult \<Rightarrow> EventRecorder \<Rightarrow> EventRecorder" where
  "emit_node_events pool n result e =
     (let e1 = (if nu_Cordoned result then NodeCordonStarted pool n e else e);
          e2 = (if nu_DrainStarted result then NodeDrainStarted pool n e1 else e1);
          e3 = (if nu_DrainFailed result \<and> nu_DrainFailedMsg result \<noteq> []
                then DrainFailedEvent pool n (nu_DrainFailedMsg result) e2 else e2);
          e4 = (if nu_DrainComplete result then DrainCompleteEvent pool n e3 else e3)
      in if nu_Uncordoned result then NodeUncordoned pool n e4 else e4)"

definition track_result :: "MachineConfigPool \<Rightarrow> string \<Rightarrow> NodeUpdateResult \<Rightarrow> loop_state \<Rightarrow> loop_state" where
  "track_result pool n result l =
     \<lparr>ls_minRequeueAfter =
        (if nu_RequeueAfter result > 0
         then (if ls_minRequeueAfter l = 0 \<or> nu_RequeueAfter result < ls_minRequeueAfter l
               then nu_RequeueAfter result else ls_minRequeueAfter l)
         else ls_minRequeueAfter l),
      ls_drainStuckNodes = (if nu_DrainStuck result then ls_drainStuckNodes l @ [n] else ls_drainStuckNodes l),
      ls_uncordonedCount = (if nu_Uncordoned result then ls_uncordonedCount l + 1 else ls_uncordonedCount l),
      ls_events = emit_node_events pool n result (ls_events l), ls_metrics = ls_metrics l\<rparr>"

text \<open>
  The two metrics that \<open>ProcessNodeUpdate\<close> records on its way: a stuck drain, and how long a
  drain took, before it tries to uncordon the node.
\<close>

definition reaches_uncordon :: "'s client \<Rightarrow> Node \<Rightarrow> string \<Rightarrow> 's \<Rightarrow> bool" where
  "reaches_uncordon c node target s \<longleftrightarrow>
     IsNodeCordoned node \<and> fst (IsDrainComplete c node drainConfig s) = Inr True \<and>
     GetAnnotation (node_Annotations node) DesiredRevision = target \<and> ShouldUncordon node target"

definition record_drain_metrics ::
  "'s client \<Rightarrow> MachineConfigPool \<Rightarrow> Node \<Rightarrow> string \<Rightarrow> time \<Rightarrow> 's \<Rightarrow> NodeUpdateResult \<Rightarrow>
     duration Metrics \<Rightarrow> duration Metrics" where
  "record_drain_metrics c pool node target now s result m =
     (if nu_DrainStuck result then RecordDrainStuck (pool_Name pool) m
      else if reaches_uncordon c node target s then
        (case Parse_RFC3339 (GetAnnotation (node_Annotations node) DrainStartedAt) of
           None \<Rightarrow> m
         | Some startTime \<Rightarrow> RecordDrainDuration (pool_Name pool) (node_Name node) (Sub now startTime) m)
      else m)"

fun process_nodes ::
  "'s runtime \<Rightarrow> MachineConfigPool \<Rightarrow> string \<Rightarrow> int \<Rightarrow> int \<Rightarrow> Node list \<Rightarrow> loop_state \<Rightarrow> 's \<Rightarrow> loop_state \<times> 's" where
  "process_nodes rt pool target drainTimeout drainRetry [] l s = (l, s)"
| "process_nodes rt pool target drainTimeout drainRetry (node # nodes) l s =
     (case ProcessNodeUpdate (rt_Client rt) pool node target drainTimeout drainRetry (rt_Now rt s) s of
        (result, s1) \<Rightarrow>
          process_nodes rt pool target drainTimeout drainRetry nodes
            (track_result pool (node_Name node) result
               (l\<lparr>ls_metrics := record_drain_metrics (rt_Client rt) pool node target (rt_Now rt s) s result (ls_metrics l)\<rparr>)) s1)"

section \<open>Reconcile\<close>

definition hasPoolOverlapCondition :: "MachineConfigPool \<Rightarrow> bool" where
  "hasPoolOverlapCondition pool \<longleftrightarrow>
     list_ex (\<lambda>c. cond_Type c = ConditionPoolOverlap \<and> cond_Status c = ConditionTrue) (pst_Conditions (pool_Status pool))"

definition listAllPoolNames :: "'s client \<Rightarrow> 's \<Rightarrow> string list result \<times> 's" where
  "listAllPoolNames c s =
     (case ListPools c s of
        (Inl err, s1) \<Rightarrow> (Inl err, s1)
      | (Inr pools, s1) \<Rightarrow> (Inr (map pool_Name pools), s1))"

text \<open>Overlap detection with its metrics and events; a failed detection leaves a nil result.\<close>

definition detect_overlap ::
  "'s runtime \<Rightarrow> MachineConfigPool \<Rightarrow> Reconciler \<Rightarrow> 's \<Rightarrow> OverlapResult option \<times> Reconciler \<times> 's" where
  "detect_overlap rt pool r s =
     (case DetectPoolOverlap (rt_Client rt) (rt_asSelector rt) s of
        (detected, s1) \<Rightarrow>
          let overlap = (case detected of Inl err \<Rightarrow> None | Inr o1 \<Rightarrow> Some o1) in
          if (case overlap of None \<Rightarrow> False | Some o1 \<Rightarrow> HasConflicts o1) then
            let o1 = the overlap;
                conflictingNodes = GetConflictsForPool o1 (pool_Name pool)
            in (overlap,
                r\<lparr>rec_metrics := RecordPoolOverlapMetrics overlap (GetAllConflictingPools o1) (rec_metrics r),
                  rec_events := (if length conflictingNodes > 0
                                 then PoolOverlapDetected pool conflictingNodes (rec_events r) else rec_events r)\<rparr>, s1)
          else
            (case listAllPoolNames (rt_Client rt) s1 of
               (listed, s2) \<Rightarrow>
                 let allPoolNames = (case listed of Inl err \<Rightarrow> [pool_Name pool] | Inr ns \<Rightarrow> ns)
                 in (overlap,
                     r\<lparr>rec_metrics := RecordPoolOverlapMetrics None allPoolNames (rec_metrics r),
                       rec_events := (if hasPoolOverlapCondition pool
                                      then PoolOverlapResolved pool (rec_events r) else rec_events r)\<rparr>, s2)))"

text \<open>A retried status write: the closure's variables go in and out.\<close>

definition retry_status ::
  "'s runtime \<Rightarrow> ('s closure_state \<Rightarrow> go_error option \<times> 's closure_state) \<Rightarrow> MachineConfigPool \<Rightarrow> Reconciler \<Rightarrow> 's \<Rightarrow>
     go_error option \<times> 's closure_state" where
  "retry_status rt body pool r s =
     rt_RetryOnConflict rt body
       \<lparr>cs_world = s, cs_pool = pool, cs_rolloutJustCompleted = False, cs_metrics = rec_metrics r\<rparr>"

definition empty_status_change ::
  "OverlapResult option \<Rightarrow> nat \<Rightarrow> time \<Rightarrow> MachineConfigPool \<Rightarrow> MachineConfigPool" where
  "empty_status_change overlap n now p =
     ApplyOverlapCondition overlap now
       (p\<lparr>pool_Status := (pool_Status p)\<lparr>pst_MachineCount := n, pst_ReadyMachineCount := n,
           pst_UpdatedMachineCount := n, pst_TargetRevision := []\<rparr>\<rparr>)"

definition emit_all :: "('a \<Rightarrow> EventRecorder \<Rightarrow> EventRecorder) \<Rightarrow> 'a list \<Rightarrow> EventRecorder \<Rightarrow> EventRecorder" where
  "emit_all f xs e = foldl (\<lambda>e x. f x e) e xs"

text \<open>From the choice of the nodes to the end: \<open>pool\<close> and \<open>ns\<close> are what was read, \<open>rmc\<close> the target.\<close>

definition reconcile_rollout ::
  "'s runtime \<Rightarrow> string \<Rightarrow> MachineConfigPool \<Rightarrow> OverlapResult option \<Rightarrow> Node list \<Rightarrow> RenderedMachineConfig \<Rightarrow>
     Reconciler \<Rightarrow> 's \<Rightarrow> reconcile_result \<times> Reconciler \<times> 's" where
  "reconcile_rollout rt name pool overlap nonConflictingNodes rmc r s =
     (let c = rt_Client rt;
          newNodesToUpdate = SelectNodesForUpdate pool nonConflictingNodes (rmc_Name rmc);
          nodesToProcess = nodes_to_process (collectNodesInProgress nonConflictingNodes (rmc_Name rmc)) newNodesToUpdate;
          events = (if length newNodesToUpdate > 0
                    then RolloutBatchStarted pool (int (length newNodesToUpdate)) (map node_Name newNodesToUpdate) (rec_events r)
                    else rec_events r);
          ro = ps_Rollout (pool_Spec pool);
          drainTimeoutSeconds = (if ro_DrainTimeoutSeconds ro = 0 then DefaultDrainTimeoutSeconds else ro_DrainTimeoutSeconds ro)
      in case process_nodes rt pool (rmc_Name rmc) drainTimeoutSeconds (ro_DrainRetrySeconds ro) nodesToProcess
                \<lparr>ls_minRequeueAfter = 0, ls_drainStuckNodes = [], ls_uncordonedCount = 0, ls_events = events, ls_metrics = rec_metrics r\<rparr> s of
           (l, s1) \<Rightarrow>
             let r1 = r\<lparr>rec_events := ls_events l, rec_metrics := ls_metrics l\<rparr> in
             (case SelectNodes c (rt_asSelector rt) pool s1 of
                (Inl err, s2) \<Rightarrow> ((0, Some (Wrap ''failed to re-fetch nodes for status'' err)), r1, s2)
              | (Inr nodes, s2) \<Rightarrow>
                  let st = pool_Status pool;
                      wasNotComplete = (pst_UpdatedMachineCount st \<noteq> pst_MachineCount st
                                        \<or> pst_ReadyMachineCount st \<noteq> pst_MachineCount st);
                      applyTimeout = (if ro_ApplyTimeoutSeconds ro \<le> 0 then DefaultApplyTimeoutSeconds
                                      else ro_ApplyTimeoutSeconds ro);
                      aggregatedStatus = AggregateStatus (rmc_Name rmc) nodes applyTimeout (rt_Now rt s2)
                  in (case retry_status rt (update_rollout_status rt name overlap (rmc_Name rmc) nodes
                             (ls_drainStuckNodes l) wasNotComplete) pool r1 s2 of
                        (Some err, st3) \<Rightarrow>
                          ((0, Some (Wrap ''failed to update pool status'' err)),
                           r1\<lparr>rec_metrics := cs_metrics st3\<rparr>, cs_world st3)
                      | (None, st3) \<Rightarrow>
                          let p3 = cs_pool st3;
                              e1 = emit_all (DrainStuckEvent p3) (ls_drainStuckNodes l) (rec_events r1);
                              e2 = (if cs_rolloutJustCompleted st3 then RolloutComplete p3 e1 else e1);
                              e3 = emit_all (\<lambda>n. ApplyTimeout p3 n applyTimeout) (ag_TimedOutNodes aggregatedStatus) e2;
                              s4 = snd (CleanupOldRMCs c p3 nodes (cs_world st3))
                          in ((if ls_minRequeueAfter l > 0 then ls_minRequeueAfter l else 0, None),
                              r1\<lparr>rec_metrics := cs_metrics st3, rec_events := e3\<rparr>, s4))))"

text \<open>From the selected configurations on: nothing to do, debounce, render, roll out.\<close>

definition reconcile_configs ::
  "'s runtime \<Rightarrow> string \<Rightarrow> MachineConfigPool \<Rightarrow> OverlapResult option \<Rightarrow> Node list \<Rightarrow> MachineConfig list \<Rightarrow>
     Reconciler \<Rightarrow> 's \<Rightarrow> reconcile_result \<times> Reconciler \<times> 's" where
  "reconcile_configs rt name pool overlap nodes configs r s =
     (let merged = Merge configs in
      if configs = [] then
        ((0, None), r,
         cs_world (snd (retry_status rt (update_pool_status rt name (empty_status_change overlap (length nodes))) pool r s)))
      else
        (case CheckAndUpdate (rt_Now rt s) (pool_Name pool) (hash_Full (ComputeHash (Some merged)))
                (ComputePoolSpecHash pool) (ro_DebounceSeconds (ps_Rollout (pool_Spec pool))) (rec_debounce r) of
           ((shouldProceed, requeueAfter), d) \<Rightarrow>
             let r1 = r\<lparr>rec_debounce := d\<rparr> in
             if \<not> shouldProceed then
               ((requeueAfter, None), r1,
                cs_world (snd (retry_status rt (update_pool_status rt name (ApplyOverlapCondition overlap)) pool r1 s)))
             else
               (case ensureRMC rt pool merged s of
                  (Inl err, s1) \<Rightarrow>
                    let s2 = snd (UpdatePoolStatus (rt_Client rt) s1
                                    (SetRenderDegradedCondition (error_text err) (rt_Now rt s1) pool))
                    in ((0, Some (Wrap ''failed to ensure RMC'' err)), r1, s2)
                | (Inr rmc, s1) \<Rightarrow>
                    reconcile_rollout rt name (ClearRenderDegradedCondition (rt_Now rt s1) pool) overlap
                      (FilterNonConflictingNodes nodes overlap) rmc r1 s1)))"

definition Reconcile ::
  "'s runtime \<Rightarrow> string \<Rightarrow> Reconciler \<times> 's \<Rightarrow> reconcile_result \<times> Reconciler \<times> 's" where
  "Reconcile rt name w =
     (case w of (r, s) \<Rightarrow>
      (let c = rt_Client rt in
       case GetPool c s name of
         (Inl err, s1) \<Rightarrow>
           if IsNotFound err
           then ((0, None), r\<lparr>rec_debounce := Reset name (rec_debounce r),
                              rec_metrics := ResetPoolMetrics name (rec_metrics r)\<rparr>, s1)
           else ((0, Some err), r, s1)
       | (Inr fetched, s1) \<Rightarrow>
           let (cleanedPool, cleaned) = CleanupLegacyConditions (Some fetched);
               pool = the cleanedPool;
               s2 = (if cleaned then snd (UpdatePoolStatus c s1 pool) else s1)
           in if ps_Paused (pool_Spec pool) then ((0, None), r, s2)
              else case detect_overlap rt pool r s2 of
                (overlap, r3, s3) \<Rightarrow>
                  (case SelectNodes c (rt_asSelector rt) pool s3 of
                     (Inl err, s4) \<Rightarrow> ((0, Some (Wrap ''failed to select nodes'' err)), r3, s4)
                   | (Inr nodes, s4) \<Rightarrow>
                       (case SelectMachineConfigs c (rt_asSelector rt) pool s4 of
                          (Inl err, s5) \<Rightarrow> ((0, Some (Wrap ''failed to select MachineConfigs'' err)), r3, s5)
                        | (Inr configs, s5) \<Rightarrow>
                            reconcile_configs rt name pool overlap nodes configs r3 s5))))"

section \<open>Watches\<close>

definition mapMachineConfigToPool ::
  "'s runtime \<Rightarrow> MachineConfig \<Rightarrow> 's \<Rightarrow> string list \<times> 's" where
  "mapMachineConfigToPool rt mc s =
     (case ListPools (rt_Client rt) s of
        (Inl err, s1) \<Rightarrow> ([], s1)
      | (Inr pools, s1) \<Rightarrow>
          (map pool_Name (filter (\<lambda>pool. MachineConfigMatchesPool (rt_asSelector rt) mc pool = Inr True) pools), s1))"

definition mapNodeToPool :: "'s runtime \<Rightarrow> Node \<Rightarrow> 's \<Rightarrow> string list \<times> 's" where
  "mapNodeToPool rt node s =
     (case ListPools (rt_Client rt) s of
        (Inl err, s1) \<Rightarrow> ([], s1)
      | (Inr pools, s1) \<Rightarrow>
          (map pool_Name (filter (\<lambda>pool. NodeMatchesPool (rt_asSelector rt) node pool = Inr True) pools), s1))"

definition NewMachineConfigPoolReconciler :: Reconciler where
  "NewMachineConfigPoolReconciler =
     \<lparr>rec_debounce = NewDebounceState, rec_events = NewEventRecorder None,
      rec_metrics = \<lparr>mt_poolOverlapNodesTotal = Map.empty, mt_poolOverlapConflictsTotal = 0,
        mt_poolReconcileTotal = Map.empty, mt_poolReconcileDuration = [], mt_drainDuration = [],
        mt_drainStuckTotal = Map.empty, mt_cordonedNodes = Map.empty, mt_drainingNodes = Map.empty\<rparr>\<rparr>"

text \<open>What \<open>SetupWithManager\<close> changes in the reconciler; the watches it registers are the two mappings above.\<close>

definition SetupWithManager :: "Event list option \<Rightarrow> Reconciler \<Rightarrow> Reconciler" where
  "SetupWithManager recorder r = r\<lparr>rec_events := NewEventRecorder recorder\<rparr>"

lemmas controller_defs [mco_eval] =
  maxCollisionRetries_def create_rmc_def reboot_differs_def ensureRMC_def update_pool_status_def
  status_change_def update_rollout_status_def nodes_to_process_def emit_node_events_def track_result_def
  reaches_uncordon_def record_drain_metrics_def
  hasPoolOverlapCondition_def listAllPoolNames_def detect_overlap_def retry_status_def
  empty_status_change_def emit_all_def reconcile_rollout_def reconcile_configs_def Reconcile_def
  mapMachineConfigToPool_def mapNodeToPool_def NewMachineConfigPoolReconciler_def SetupWithManager_def

section \<open>What the loop counts\<close>

text \<open>A node is uncordoned only where the duration of its drain is recorded.\<close>

lemma uncordoned_recorded:
  assumes "ProcessNodeUpdate c pool node target dt dr now s = (res, s')" and "nu_Uncordoned res"
  shows "reaches_uncordon c node target s"
  using assms
  by (auto simp: ProcessNodeUpdate_def reaches_uncordon_def requeue_def Let_def
      split: prod.splits sum.splits option.splits if_splits)

text \<open>The counter of stuck drains goes up once for each node that the loop calls stuck.\<close>

abbreviation stuck_count :: "string \<Rightarrow> duration Metrics \<Rightarrow> nat" where
  "stuck_count pool m \<equiv> (case mt_drainStuckTotal m pool of None \<Rightarrow> 0 | Some n \<Rightarrow> n)"

lemma stuck_drains_counted:
  assumes "process_nodes rt pool target dt dr ns l s = (l', s')"
  shows "stuck_count (pool_Name pool) (ls_metrics l') + length (ls_drainStuckNodes l) =
    stuck_count (pool_Name pool) (ls_metrics l) + length (ls_drainStuckNodes l')"
  using assms
proof (induction ns arbitrary: l s)
  case (Cons node ns)
  obtain res s1 where p: "ProcessNodeUpdate (rt_Client rt) pool node target dt dr (rt_Now rt s) s = (res, s1)"
    by fastforce
  define m where "m = record_drain_metrics (rt_Client rt) pool node target (rt_Now rt s) s res (ls_metrics l)"
  have "stuck_count (pool_Name pool) m = stuck_count (pool_Name pool) (ls_metrics l) + (if nu_DrainStuck res then 1 else 0)"
    by (simp add: m_def record_drain_metrics_def RecordDrainStuck_def RecordDrainDuration_def Inc_def split: option.split)
  then show ?case
    using Cons.prems Cons.IH [of "track_result pool (node_Name node) res (l\<lparr>ls_metrics := m\<rparr>)" s1] p
    by (simp add: m_def track_result_def split: if_splits)
qed simp

end
