(* ===== verification/Cluster_API.thy ===== *)
theory Cluster_API
  imports In_Memory_API
begin

text \<open>
  The API server as the pool controller uses it, all kinds of objects together: what the laws
  of \<open>pod_api\<close> and \<open>rmc_api\<close> say of each kind, and that an operation on one kind of object
  leaves the others alone. Lists of nodes hold only nodes that match, each name once.
\<close>

locale cluster_api = pod_api c nodes pods + rmc_api c rmcs
  for c :: "'s client" and nodes pods rmcs +
  assumes pool_ops:
      "nodes (snd (GetPool c s n)) = nodes s" "pods (snd (GetPool c s n)) = pods s" "rmcs (snd (GetPool c s n)) = rmcs s"
      "nodes (snd (UpdatePoolStatus c s p)) = nodes s" "pods (snd (UpdatePoolStatus c s p)) = pods s"
      "rmcs (snd (UpdatePoolStatus c s p)) = rmcs s"
      "nodes (snd (ListPools c s)) = nodes s" "pods (snd (ListPools c s)) = pods s" "rmcs (snd (ListPools c s)) = rmcs s"
    and list_ops:
      "nodes (snd (ListNodes c s sel)) = nodes s" "pods (snd (ListNodes c s sel)) = pods s"
      "rmcs (snd (ListNodes c s sel)) = rmcs s"
      "nodes (snd (ListMachineConfigs c s sel)) = nodes s" "pods (snd (ListMachineConfigs c s sel)) = pods s"
      "rmcs (snd (ListMachineConfigs c s sel)) = rmcs s"
    and node_rmcs:
      "rmcs (snd (GetNode c s n)) = rmcs s" "rmcs (snd (UpdateNode c s nd)) = rmcs s"
      "rmcs (snd (ListPods c s n)) = rmcs s" "rmcs (snd (CreateEviction c s pd g)) = rmcs s"
    and rmc_nodes:
      "nodes (snd (GetRMC c s n)) = nodes s" "nodes (snd (CreateRMC c s rmc)) = nodes s"
      "nodes (snd (UpdateRMC c s rmc)) = nodes s" "nodes (snd (DeleteRMC c s rmc)) = nodes s"
      "nodes (snd (ListRMCs c s lbl)) = nodes s"
    and rmc_pods:
      "pods (snd (GetRMC c s n)) = pods s" "pods (snd (CreateRMC c s rmc)) = pods s"
      "pods (snd (UpdateRMC c s rmc)) = pods s" "pods (snd (DeleteRMC c s rmc)) = pods s"
      "pods (snd (ListRMCs c s lbl)) = pods s"
    and list_nodes_distinct: "ListNodes c s sel = (Inr ns, s') \<Longrightarrow> distinct (map node_Name ns)"
    and list_nodes_match: "ListNodes c s sel = (Inr ns, s') \<Longrightarrow> nd \<in> set ns \<Longrightarrow> sel (node_Labels nd)"

lemma mem_nodes_frame [simp]:
  "mem_nodes (s\<lparr>cl_rmcs := x\<rparr>) = mem_nodes s" "mem_nodes (s\<lparr>cl_pools := y\<rparr>) = mem_nodes s"
  "mem_pods (s\<lparr>cl_rmcs := x\<rparr>) = mem_pods s" "mem_pods (s\<lparr>cl_pools := y\<rparr>) = mem_pods s"
  "mem_rmcs (s\<lparr>cl_pools := y\<rparr>) = mem_rmcs s" "mem_rmcs (s\<lparr>cl_pods := z\<rparr>) = mem_rmcs s"
  "mem_rmcs (s\<lparr>cl_nodes := u, cl_version := v\<rparr>) = mem_rmcs s"
  by (simp_all add: fun_eq_iff mem_nodes_def mem_pods_def mem_rmcs_def)

interpretation mem_cluster: cluster_api mem_client mem_nodes mem_pods mem_rmcs
proof
  fix s s' :: cluster and sel ns nd
  show "ListNodes mem_client s sel = (Inr ns, s') \<Longrightarrow> distinct (map node_Name ns)"
    by (auto simp: mem_client_def mem_ListNodes_def distinct_map inj_on_def)
  show "ListNodes mem_client s sel = (Inr ns, s') \<Longrightarrow> nd \<in> set ns \<Longrightarrow> sel (node_Labels nd)"
    by (auto simp: mem_client_def mem_ListNodes_def)
qed (simp_all add: mem_client_def mem_GetNode_def mem_UpdateNode_def mem_ListPods_def mem_CreateEviction_def
    mem_ListRMCs_def mem_ListNodes_def split: option.split)

end
