(* ===== verification/Pool_Controller_Safety.thy ===== *)
theory Pool_Controller_Safety
  imports Pool_Controller Cluster_API
begin

text \<open>
  What one reconciliation of a pool does to the cluster. The locale \<open>pool_runtime\<close> collects
  the contracts of what the controller is given: the API server with all its objects,
  \<open>retry.RetryOnConflict\<close> around the status writes and the owner reference, which changes
  nothing but the owner of the object.
\<close>

section \<open>What the node operations leave alone\<close>

context cluster_api
begin

lemma retry_rmcs: "rmcs (snd (RetryOnConflict c (read_modify_write c n f) s)) = rmcs s"
proof (rule attempts_rule [OF retry_attempts, where I = "\<lambda>t. rmcs t = rmcs s" and Q = "\<lambda>x. rmcs (snd x) = rmcs s"])
  have body: "rmcs (snd (read_modify_write c n f t)) = rmcs t" for t
    using node_rmcs(1) [of t n] node_rmcs(2)
    by (auto simp: read_modify_write_def split: prod.splits sum.splits option.splits)
  then show "rmcs t1 = rmcs s" if "rmcs t = rmcs s" "read_modify_write c n f t = (Some e, t1)" for t e t1
    using that by (metis snd_conv)
  show "rmcs (snd (read_modify_write c n f t)) = rmcs s" if "rmcs t = rmcs s" for t
    using body that by simp
qed simp

lemma writers_rmcs:
  "rmcs (snd (CordonNode c node s)) = rmcs s" "rmcs (snd (UncordonNode c node s)) = rmcs s"
  "rmcs (snd (SetNodeAnnotation c node key v s)) = rmcs s"
  by (simp_all add: CordonNode_def UncordonNode_def SetNodeAnnotation_def retry_rmcs)

lemma set_desired_rmcs: "rmcs (snd (set_desired c pool node target now s)) = rmcs s"
  using writers_rmcs(3)
  by (auto simp: set_desired_def Let_def split: prod.splits option.splits) (metis snd_conv)+

lemma evict_all_rmcs: "rmcs (snd (evict_all c g ps s)) = rmcs s"
proof (induction ps arbitrary: s)
  case (Cons p ps)
  have "rmcs (snd (EvictPod c p g s)) = rmcs s"
    using node_rmcs(4) [of s p "if g \<ge> 0 then Some g else None"]
    by (auto simp: EvictPod_def split: prod.splits option.splits)
  then show ?case using Cons by (auto split: prod.splits) (metis snd_conv)+
qed simp

lemma drain_rmcs:
  "rmcs (snd (IsDrainComplete c node cfg s)) = rmcs s" "rmcs (snd (DrainNode c node cfg now s)) = rmcs s"
  "rmcs (snd (HandleDrainRetry c node t r now s)) = rmcs s"
proof -
  have lp: "ListPods c s n = (x, s1) \<Longrightarrow> rmcs s1 = rmcs s" for s n x s1 using node_rmcs(3) [of s n] by simp
  show "rmcs (snd (IsDrainComplete c node cfg s)) = rmcs s"
    by (auto simp: IsDrainComplete_def split: prod.splits sum.splits dest: lp)
  define a where "a = (if GetAnnotation (node_Annotations node) DrainStartedAt = []
    then SetNodeAnnotation c node DrainStartedAt (Format_RFC3339 now) s else (None, s))"
  obtain e1 s1 where a: "a = (e1, s1)" by (cases a)
  have s1: "rmcs s1 = rmcs s"
    using a writers_rmcs(3) [of node DrainStartedAt "Format_RFC3339 now" s] by (auto simp: a_def split: if_splits)
  have ev: "evict_all c g ps t = (es, t') \<Longrightarrow> rmcs t' = rmcs t" for g ps t es t'
    using evict_all_rmcs [of g ps t] by simp
  show "rmcs (snd (DrainNode c node cfg now s)) = rmcs s"
    unfolding DrainNode_def a_def [symmetric] a
    using s1 by (auto simp: Let_def split: option.splits prod.splits sum.splits list.splits dest!: lp ev)
  show "rmcs (snd (HandleDrainRetry c node t r now s)) = rmcs s"
    by (auto simp: HandleDrainRetry_def Let_def writers_rmcs split: option.splits)
qed

lemma ProcessNodeUpdate_rmcs:
  assumes "ProcessNodeUpdate c pool node target t r now s = (res, s')"
  shows "rmcs s' = rmcs s"
  using assms
proof (cases rule: ProcessNodeUpdate_cases)
  case (newNode e)
  then show ?thesis using set_desired_rmcs [of pool node target now s] by simp
next
  case (cordon e)
  then show ?thesis using writers_rmcs(1) [of node s] by simp
next
  case (unknown err)
  then show ?thesis using drain_rmcs(1) [of node drainConfig s] by simp
next
  case (drain s1 e s2)
  then show ?thesis
    using drain_rmcs(1) [of node drainConfig s] drain_rmcs(2) [of node drainConfig now s1]
      drain_rmcs(3) [of node t r now s2] by auto
next
  case (desire s1 e)
  then show ?thesis
    using drain_rmcs(1) [of node drainConfig s] set_desired_rmcs [of pool node target now s1] by simp
next
  case (uncordon s1 e)
  then show ?thesis using drain_rmcs(1) [of node drainConfig s] writers_rmcs(2) [of node s1] by simp
next
  case await
  then show ?thesis using drain_rmcs(1) [of node drainConfig s] by simp
qed

end

section \<open>The runtime\<close>

locale pool_runtime = cluster_api "rt_Client rt" nodes pods rmcs
  for rt :: "'s runtime" and nodes pods rmcs +
  assumes status_retry: "attempts f st (rt_RetryOnConflict rt f st)"
    and reference: "rt_SetControllerReference rt pool rmc = Inr owned \<Longrightarrow> \<exists>x. owned = rmc\<lparr>rmc_OwnerPool := x\<rparr>"

text \<open>The nodes a loop handles, each with the state of the cluster it is handled in.\<close>

fun loop_steps ::
  "'s runtime \<Rightarrow> MachineConfigPool \<Rightarrow> string \<Rightarrow> int \<Rightarrow> int \<Rightarrow> Node list \<Rightarrow> 's \<Rightarrow> (Node \<times> 's) list" where
  "loop_steps rt pool target dt dr [] s = []"
| "loop_steps rt pool target dt dr (node # ns) s =
     (node, s) # loop_steps rt pool target dt dr ns
        (snd (ProcessNodeUpdate (rt_Client rt) pool node target dt dr (rt_Now rt s) s))"

lemma loop_steps_nodes: "map fst (loop_steps rt pool target dt dr ns s) = ns"
  by (induction ns arbitrary: s) auto

context pool_runtime
begin

lemma process_nodes_rmcs:
  "process_nodes rt pool target dt dr ns l s = (l', s') \<Longrightarrow> rmcs s' = rmcs s"
proof (induction ns arbitrary: l s)
  case (Cons node ns)
  obtain res s1 where p: "ProcessNodeUpdate (rt_Client rt) pool node target dt dr (rt_Now rt s) s = (res, s1)"
    by fastforce
  show ?case using Cons.IH Cons.prems ProcessNodeUpdate_rmcs [OF p] p by auto
qed simp

lemma process_nodes_desired:
  assumes "process_nodes rt pool target dt dr ns l s = (l', s')"
    and "view desired_of (nodes s') k \<noteq> view desired_of (nodes s) k"
  shows "view desired_of (nodes s') k = Some target \<and>
    (\<exists>(node, t) \<in> set (loop_steps rt pool target dt dr ns s). node_Name node = k \<and>
       (isNewNode node \<and> pst_LastSuccessfulRevision (pool_Status pool) \<noteq> []
        \<or> IsNodeCordoned node
          \<and> (\<forall>q p. pods t q = Some p \<longrightarrow> pod_NodeName p = k \<longrightarrow> \<not> evictable drainConfig p)))"
  using assms
proof (induction ns arbitrary: l s)
  case (Cons node ns)
  obtain res s1 where p: "ProcessNodeUpdate (rt_Client rt) pool node target dt dr (rt_Now rt s) s = (res, s1)"
    by fastforce
  obtain l1 where run: "process_nodes rt pool target dt dr ns l1 s1 = (l', s')"
    using Cons.prems(1) p by simp
  show ?case
  proof (cases "view desired_of (nodes s') k = view desired_of (nodes s1) k")
    case True
    then have "view desired_of (nodes s1) k \<noteq> view desired_of (nodes s) k" using Cons.prems(2) by simp
    note P = ProcessNodeUpdate_desired [OF p this]
    have "\<not> evictable drainConfig pd"
      if "IsDrainComplete (rt_Client rt) node drainConfig s = (Inr True, s2)" "pods s q = Some pd" "pod_NodeName pd = k"
      for s2 q pd
      using that P IsDrainComplete_none_left by blast
    then show ?thesis using P True by auto
  next
    case False
    show ?thesis using Cons.IH [OF run False] p by auto
  qed
qed simp

lemma process_nodes_others:
  assumes "process_nodes rt pool target dt dr ns l s = (l', s')" and "k \<notin> node_Name ` set ns"
  shows "view desired_of (nodes s') k = view desired_of (nodes s) k"
    "view node_Unschedulable (nodes s') k = view node_Unschedulable (nodes s) k"
proof -
  have "view desired_of (nodes s') k = view desired_of (nodes s) k
      \<and> view node_Unschedulable (nodes s') k = view node_Unschedulable (nodes s) k"
    using assms
  proof (induction ns arbitrary: l s)
    case (Cons node ns)
    obtain res s1 where p: "ProcessNodeUpdate (rt_Client rt) pool node target dt dr (rt_Now rt s) s = (res, s1)"
      by fastforce
    have "view desired_of (nodes s1) k = view desired_of (nodes s) k"
      "view node_Unschedulable (nodes s1) k = view node_Unschedulable (nodes s) k"
      using ProcessNodeUpdate_desired [OF p] ProcessNodeUpdate_schedulable [OF p] Cons.prems(2) by auto
    moreover obtain l1 where "process_nodes rt pool target dt dr ns l1 s1 = (l', s')"
      using Cons.prems(1) p by simp
    ultimately show ?case using Cons.IH [of l1 s1] Cons.prems(2) by auto
  qed simp
  then show "view desired_of (nodes s') k = view desired_of (nodes s) k"
    "view node_Unschedulable (nodes s') k = view node_Unschedulable (nodes s) k" by simp_all
qed

end

section \<open>Rendered configurations\<close>

abbreviation same_nodes :: "('s \<Rightarrow> 'n) \<Rightarrow> ('s \<Rightarrow> 'p) \<Rightarrow> 's \<Rightarrow> 's \<Rightarrow> bool" where
  "same_nodes nodes pods s s' \<equiv> nodes s' = nodes s \<and> pods s' = pods s"

context pool_runtime
begin

lemma try_suffix_frame:
  "try_suffix (rt_Client rt) rmc suff s = (x, s') \<Longrightarrow> same_nodes nodes pods s s' \<and> rmcs s' = rmcs s"
proof (induction "rt_Client rt" rmc suff s rule: try_suffix.induct)
  case (1 rmc suff s)
  obtain g s1 where g: "GetRMC (rt_Client rt) s (rmc_Name rmc @ ''-'' @ Itoa suff) = (g, s1)" by fastforce
  have s1: "same_nodes nodes pods s s1" "rmcs s1 = rmcs s"
    using g rmc_nodes(1) rmc_pods(1) rmc_get_frame [OF g] by (metis snd_conv)+
  show ?case
  proof (cases "\<exists>cand. g = Inr cand \<and> suff < maxCollisionRetries \<and>
      rmcs_ConfigHash (rmc_Spec cand) \<noteq> rmcs_ConfigHash (rmc_Spec rmc)")
    case True
    then obtain cand where c: "g = Inr cand" "suff < maxCollisionRetries"
      "rmcs_ConfigHash (rmc_Spec cand) \<noteq> rmcs_ConfigHash (rmc_Spec rmc)" by blast
    then have "try_suffix (rt_Client rt) rmc (suff + 1) s1 = (x, s')"
      using "1.prems" g by (simp add: try_suffix.simps [of _ _ suff])
    then show ?thesis using "1.hyps" [OF _ refl g [symmetric] c(1) c(3)] c(2) s1 by simp
  next
    case False
    then show ?thesis
      using "1.prems" g s1
      by (auto simp: try_suffix.simps [of _ _ suff] split: sum.splits if_splits)
  qed
qed

lemma create_rmc_frame:
  assumes "create_rmc rt pool rmc s = (x, s')"
  shows "same_nodes nodes pods s s'"
proof -
  have g: "same_nodes nodes pods t t'" if "GetRMC (rt_Client rt) t n = (y, t')" for t n y t'
    using that rmc_nodes(1) rmc_pods(1) by (metis snd_conv)
  have cr: "same_nodes nodes pods t t'" if "CreateRMC (rt_Client rt) t r = (y, t')" for t r y t'
    using that rmc_nodes(2) rmc_pods(2) by (metis snd_conv)
  show ?thesis
    using assms by (auto simp: create_rmc_def split: sum.splits prod.splits option.splits if_splits dest!: g cr)
qed

lemma ensureRMC_frame:
  assumes "ensureRMC rt pool merged s = (x, s')"
  shows "same_nodes nodes pods s s'"
proof -
  have ex: "CheckExistingRMC (rt_Client rt) r s = (y, t) \<Longrightarrow> same_nodes nodes pods s t" for r y t
    using rmc_nodes(1) [of s "rmc_Name r"] rmc_pods(1) [of s "rmc_Name r"]
    by (auto simp: CheckExistingRMC_def split: prod.splits sum.splits if_splits)
  have up: "UpdateRMC (rt_Client rt) t r = (y, t') \<Longrightarrow> same_nodes nodes pods t t'" for t r y t'
    using rmc_nodes(3) rmc_pods(3) by (metis snd_conv)
  show ?thesis
    using assms
    by (auto simp: ensureRMC_def Let_def split: prod.splits option.splits if_splits sum.splits suffix_result.splits
        dest!: ex up try_suffix_frame create_rmc_frame)
qed

end

text \<open>
  Reads of rendered configurations that are current; the client never returns the renderer's
  own error value.
\<close>

locale fresh_pool_runtime = pool_runtime +
  assumes rmc_read: "GetRMC (rt_Client rt) s n = (Inr r, s') \<Longrightarrow> rmcs s n = Some r"
    and rmc_absent: "GetRMC (rt_Client rt) s n = (Inl e, s') \<Longrightarrow> IsNotFound e \<Longrightarrow> rmcs s n = None"
    and rmc_error: "GetRMC (rt_Client rt) s n = (Inl e, s') \<Longrightarrow> \<not> IsHashCollision e"
begin

lemma try_suffix_result:
  assumes "try_suffix (rt_Client rt) rmc suff s = (Inr y, s')" and "suff \<le> maxCollisionRetries"
  shows "case y of
      Reuse cand \<Rightarrow> rmcs s (rmc_Name cand) = Some cand \<and> rmcs_ConfigHash (rmc_Spec cand) = rmcs_ConfigHash (rmc_Spec rmc)
    | UseName n \<Rightarrow> rmcs s n = None"
  using assms
proof (induction "rt_Client rt" rmc suff s rule: try_suffix.induct)
  case (1 rmc suff s)
  obtain g s1 where g: "GetRMC (rt_Client rt) s (rmc_Name rmc @ ''-'' @ Itoa suff) = (g, s1)" by fastforce
  show ?case
  proof (cases "\<exists>cand. g = Inr cand \<and> suff < maxCollisionRetries \<and>
      rmcs_ConfigHash (rmc_Spec cand) \<noteq> rmcs_ConfigHash (rmc_Spec rmc)")
    case True
    then obtain cand where c: "g = Inr cand" "suff < maxCollisionRetries"
      "rmcs_ConfigHash (rmc_Spec cand) \<noteq> rmcs_ConfigHash (rmc_Spec rmc)" by blast
    then have "try_suffix (rt_Client rt) rmc (suff + 1) s1 = (Inr y, s')"
      using "1.prems" g by (simp add: try_suffix.simps [of _ _ suff])
    then show ?thesis using "1.hyps" [OF _ refl g [symmetric] c(1) c(3)] c(2) rmc_get_frame [OF g]
      by (simp split: suffix_result.splits)
  next
    case False
    show ?thesis
    proof (cases g)
      case (Inl e)
      then show ?thesis using "1.prems" g rmc_absent [of s _ e] by (auto simp: try_suffix.simps [of _ _ suff] split: if_splits)
    next
      case (Inr cand)
      then have "rmcs s (rmc_Name cand) = Some cand"
        using g rmc_read rmc_get_name by metis
      then show ?thesis
        using "1.prems" g Inr False by (auto simp: try_suffix.simps [of _ _ suff] split: if_splits)
    qed
  qed
qed

lemma create_rmc_result:
  assumes "create_rmc rt pool rmc s = (x, s')" and "rmcs s (rmc_Name rmc) = None"
  shows "case x of
      Inl e \<Rightarrow> rmcs s' = rmcs s
    | Inr r \<Rightarrow> rmc_Name r = rmc_Name rmc \<and> rmc_Spec r = rmc_Spec rmc \<and>
        (\<exists>t. rmcs s' = (rmcs s)(rmc_Name rmc \<mapsto> r\<lparr>rmc_CreationTimestamp := t\<rparr>))"
proof (cases "rt_SetControllerReference rt pool rmc")
  case (Inl e)
  then show ?thesis using assms(1) by (auto simp: create_rmc_def)
next
  case (Inr owned)
  then obtain y where o: "owned = rmc\<lparr>rmc_OwnerPool := y\<rparr>" using reference by blast
  obtain e s1 where cr: "CreateRMC (rt_Client rt) s owned = (e, s1)" by fastforce
  show ?thesis
  proof (cases e)
    case None
    then have "x = Inr owned" "s' = s1" using assms(1) Inr cr by (simp_all add: create_rmc_def)
    then show ?thesis using cr None rmc_create_ok [of s owned s1] o by auto
  next
    case (Some err)
    then have "\<not> IsAlreadyExists err" "rmcs s1 = rmcs s"
      using cr assms(2) o rmc_create_exists [of s owned err s1] rmc_create_failed [of s owned err s1] by auto
    then show ?thesis using assms(1) Inr cr Some by (auto simp: create_rmc_def)
  qed
qed

end

context fresh_pool_runtime
begin

text \<open>Every branch of \<open>ensureRMC\<close>, by what \<open>CheckExistingRMC\<close> found.\<close>

text \<open>
  What \<open>ensureRMC\<close> promises for the content \<open>spec\<close> with hash \<open>h\<close>: \<open>old\<close> and \<open>new\<close> are the store
  before and after.
\<close>

abbreviation ensured ::
  "string \<Rightarrow> RenderedMachineConfigSpec \<Rightarrow> (string \<rightharpoonup> RenderedMachineConfig) \<Rightarrow> RenderedMachineConfig result \<Rightarrow>
     (string \<rightharpoonup> RenderedMachineConfig) \<Rightarrow> bool" where
  "ensured h spec old x new \<equiv> (case x of
      Inl e \<Rightarrow> new = old
    | Inr r \<Rightarrow> rmcs_ConfigHash (rmc_Spec r) = h \<and>
        (\<exists>stored. new = old(rmc_Name r \<mapsto> stored) \<and> rmc_Spec stored = rmc_Spec r) \<and>
        (case old (rmc_Name r) of
           None \<Rightarrow> rmc_Spec r = spec
         | Some prev \<Rightarrow> rmc_Spec r = (rmc_Spec prev)\<lparr>rmcs_Reboot := rmcs_Reboot (rmc_Spec r)\<rparr> \<and>
             rmcs_Reboot (rmc_Spec r) \<in> {rmcs_Reboot (rmc_Spec prev), rmcs_Reboot spec}))"

lemma kept_ensured:
  assumes "m (rmc_Name r) = Some r" and "rmcs_ConfigHash (rmc_Spec r) = h"
  shows "ensured h spec m (Inr r) m"
  using assms by (auto intro!: exI [of _ r] simp: map_upd_triv)

lemma create_ensured:
  assumes "create_rmc rt pool (rmc\<lparr>rmc_Name := n\<rparr>) s = (x, s')" and "rmcs s n = None"
    and "rmcs_ConfigHash (rmc_Spec rmc) = h"
  shows "ensured h (rmc_Spec rmc) (rmcs s) x (rmcs s')"
  using create_rmc_result [OF assms(1)] assms(2,3) by (fastforce split: sum.splits)

lemma update_ensured:
  assumes "rmcs s (rmc_Name ex) = Some ex" and "rmcs_ConfigHash (rmc_Spec ex) = h"
    and "UpdateRMC (rt_Client rt) s (ex\<lparr>rmc_Spec := (rmc_Spec ex)\<lparr>rmcs_Reboot := b\<rparr>\<rparr>) = (u, s')"
    and "b = rmcs_Reboot spec"
  shows "ensured h spec (rmcs s) (case u of Some e \<Rightarrow> Inl (Wrap m e)
      | None \<Rightarrow> Inr (ex\<lparr>rmc_Spec := (rmc_Spec ex)\<lparr>rmcs_Reboot := b\<rparr>\<rparr>)) (rmcs s')"
  using assms rmc_update_ok [of s _ s'] rmc_update_failed [of s _ _ s'] by (cases u) auto

lemma suffix_ensured:
  assumes y: "try_suffix (rt_Client rt) rmc 1 s = (y, s1)" and h: "rmcs_ConfigHash (rmc_Spec rmc) = h"
    and x: "(x, s') = (case y of Inl e \<Rightarrow> (Inl e, s1) | Inr (Reuse cand) \<Rightarrow> (Inr cand, s1)
        | Inr (UseName n) \<Rightarrow> create_rmc rt pool (rmc\<lparr>rmc_Name := n\<rparr>) s1)"
  shows "ensured h (rmc_Spec rmc) (rmcs s) x (rmcs s')"
proof (cases y)
  case (Inl e)
  then show ?thesis using x try_suffix_frame [OF y] by simp
next
  case (Inr z)
  note R = try_suffix_result [OF y [unfolded Inr]]
  have s1: "rmcs s1 = rmcs s" using try_suffix_frame [OF y] by simp
  show ?thesis
  proof (cases z)
    case (Reuse cand)
    then show ?thesis using R x Inr s1 h kept_ensured [of "rmcs s" cand h "rmc_Spec rmc"]
      by (simp add: maxCollisionRetries_def)
  next
    case (UseName n)
    then have "create_rmc rt pool (rmc\<lparr>rmc_Name := n\<rparr>) s1 = (x, s')" "rmcs s1 n = None"
      using R x Inr s1 by (simp_all add: maxCollisionRetries_def)
    from create_ensured [OF this h] show ?thesis unfolding s1 .
  qed
qed

lemma ensureRMC_result:
  assumes run: "ensureRMC rt pool merged s = (x, s')"
    and hash: "h = TrimPrefix (hash_Full (ComputeHash (Some merged))) ''sha256:''"
  shows "ensured h (rmc_Spec (BuildRMC (pool_Name pool) merged (Some pool))) (rmcs s) x (rmcs s')"
proof -
  define rmc where "rmc = (BuildRMC (pool_Name pool) merged (Some pool))
    \<lparr>rmc_Labels := (rmc_Labels (BuildRMC (pool_Name pool) merged (Some pool)))(''mco.in-cloud.io/pool'' \<mapsto> pool_Name pool)\<rparr>"
  note run' = run [unfolded ensureRMC_def Let_def rmc_def [symmetric]]
  have spec: "rmc_Spec (BuildRMC (pool_Name pool) merged (Some pool)) = rmc_Spec rmc" by (simp add: rmc_def)
  have h: "rmcs_ConfigHash (rmc_Spec rmc) = h" by (simp add: spec [symmetric] hash)
  obtain g s1 where g: "GetRMC (rt_Client rt) s (rmc_Name rmc) = (g, s1)" by fastforce
  have s1: "rmcs s1 = rmcs s" by (rule rmc_get_frame [OF g])
  consider (absent) e where "g = Inl e" "IsNotFound e" | (failed) e where "g = Inl e" "\<not> IsNotFound e"
    | (same) ex where "g = Inr ex" "rmcs_ConfigHash (rmc_Spec ex) = h"
    | (collision) ex where "g = Inr ex" "rmcs_ConfigHash (rmc_Spec ex) \<noteq> h" by (cases g) auto
  then show ?thesis
    unfolding spec
  proof cases
    case absent
    then have "create_rmc rt pool (rmc\<lparr>rmc_Name := rmc_Name rmc\<rparr>) s1 = (x, s')" "rmcs s1 (rmc_Name rmc) = None"
      using run' g rmc_absent s1 by (simp_all add: CheckExistingRMC_def)
    from create_ensured [OF this h] show "ensured h (rmc_Spec rmc) (rmcs s) x (rmcs s')" unfolding s1 .
  next
    case failed
    then have "x = Inl (Wrap ''checking existing RMC'' e)" "s' = s1"
      using run' g rmc_error [of s "rmc_Name rmc" e s1] by (auto simp: CheckExistingRMC_def error_defs)
    then show "ensured h (rmc_Spec rmc) (rmcs s) x (rmcs s')" using s1 by simp
  next
    case same
    let ?ex1 = "ex\<lparr>rmc_Spec := (rmc_Spec ex)\<lparr>rmcs_Reboot := rmcs_Reboot (rmc_Spec rmc)\<rparr>\<rparr>"
    have st: "rmcs s1 (rmc_Name ex) = Some ex" using g same(1) rmc_read rmc_get_name s1 by metis
    obtain u s2 where u: "UpdateRMC (rt_Client rt) s1 ?ex1 = (u, s2)" by fastforce
    have "(x, s') = (if reboot_differs ex rmc
        then (case u of Some e \<Rightarrow> Inl (Wrap ''failed to update RMC reboot spec'' e) | None \<Rightarrow> Inr ?ex1, s2) else (Inr ex, s1))"
      using run' g same u h by (cases u) (auto simp: CheckExistingRMC_def split: if_splits)
    then have "x = (case u of Some e \<Rightarrow> Inl (Wrap ''failed to update RMC reboot spec'' e) | None \<Rightarrow> Inr ?ex1) \<and> s' = s2
        \<or> x = Inr ex \<and> s' = s1"
      by (simp split: if_splits)
    then have "ensured h (rmc_Spec rmc) (rmcs s1) x (rmcs s')"
      by (elim disjE conjE; hypsubst) (rule update_ensured [OF st same(2) u refl], rule kept_ensured [of "rmcs s1" ex, OF st same(2)])
    then show "ensured h (rmc_Spec rmc) (rmcs s) x (rmcs s')" unfolding s1 .
  next
    case collision
    obtain y s2 where y: "try_suffix (rt_Client rt) rmc 1 s1 = (y, s2)" by fastforce
    have "(x, s') = (case y of Inl e \<Rightarrow> (Inl e, s2) | Inr (Reuse cand) \<Rightarrow> (Inr cand, s2)
        | Inr (UseName n) \<Rightarrow> create_rmc rt pool (rmc\<lparr>rmc_Name := n\<rparr>) s2)"
      using run' g collision h y by (simp add: CheckExistingRMC_def error_defs)
    from suffix_ensured [OF y h this] show "ensured h (rmc_Spec rmc) (rmcs s) x (rmcs s')" unfolding s1 .
  qed
qed

end

section \<open>The way through Reconcile\<close>

abbreviation same_cluster :: "('s \<Rightarrow> 'n) \<Rightarrow> ('s \<Rightarrow> 'p) \<Rightarrow> ('s \<Rightarrow> 'r) \<Rightarrow> 's \<Rightarrow> 's \<Rightarrow> bool" where
  "same_cluster nodes pods rmcs s s' \<equiv> same_nodes nodes pods s s' \<and> rmcs s' = rmcs s"

text \<open>
  What a reconciliation reads before it decides: the pool without legacy conditions, not
  paused, the overlap, the nodes and the configurations.
\<close>

definition reads_for ::
  "'s runtime \<Rightarrow> string \<Rightarrow> Reconciler \<times> 's \<Rightarrow> MachineConfigPool \<Rightarrow> OverlapResult option \<Rightarrow> Node list \<Rightarrow>
     MachineConfig list \<Rightarrow> Reconciler \<times> 's \<Rightarrow> bool" where
  "reads_for rt name w pool overlap ns configs w' \<longleftrightarrow>
     (\<exists>fetched s1 cleaned s3 s4.
        GetPool (rt_Client rt) (snd w) name = (Inr fetched, s1) \<and>
        CleanupLegacyConditions (Some fetched) = (Some pool, cleaned) \<and> \<not> ps_Paused (pool_Spec pool) \<and>
        detect_overlap rt pool (fst w) (if cleaned then snd (UpdatePoolStatus (rt_Client rt) s1 pool) else s1)
          = (overlap, fst w', s3) \<and>
        SelectNodes (rt_Client rt) (rt_asSelector rt) pool s3 = (Inr ns, s4) \<and>
        SelectMachineConfigs (rt_Client rt) (rt_asSelector rt) pool s4 = (Inr configs, snd w'))"

text \<open>The debounce lets this configuration of the pool pass.\<close>

definition debounced :: "'s runtime \<Rightarrow> MachineConfigPool \<Rightarrow> MachineConfig list \<Rightarrow> Reconciler \<times> 's \<Rightarrow> bool" where
  "debounced rt pool configs w \<longleftrightarrow>
     fst (fst (CheckAndUpdate (rt_Now rt (snd w)) (pool_Name pool) (hash_Full (ComputeHash (Some (Merge configs))))
       (ComputePoolSpecHash pool) (ro_DebounceSeconds (ps_Rollout (pool_Spec pool))) (rec_debounce (fst w))))"

context pool_runtime
begin

lemma read_frames:
  "SelectNodes (rt_Client rt) a pool s = (x, s') \<Longrightarrow> same_cluster nodes pods rmcs s s'"
  "SelectMachineConfigs (rt_Client rt) a pool s = (y, s') \<Longrightarrow> same_cluster nodes pods rmcs s s'"
  "DetectPoolOverlap (rt_Client rt) a s = (z, s') \<Longrightarrow> same_cluster nodes pods rmcs s s'"
  "listAllPoolNames (rt_Client rt) s = (u, s') \<Longrightarrow> same_cluster nodes pods rmcs s s'"
proof -
  have n: "ListNodes (rt_Client rt) t sel = (v, t') \<Longrightarrow> same_cluster nodes pods rmcs t t'" for t sel v t'
    using list_ops(1-3) by (metis snd_conv)
  have m: "ListMachineConfigs (rt_Client rt) t sel = (v, t') \<Longrightarrow> same_cluster nodes pods rmcs t t'" for t sel v t'
    using list_ops(4-6) by (metis snd_conv)
  have p: "ListPools (rt_Client rt) t = (v, t') \<Longrightarrow> same_cluster nodes pods rmcs t t'" for t v t'
    using pool_ops(7-9) by (metis snd_conv)
  show "SelectNodes (rt_Client rt) a pool s = (x, s') \<Longrightarrow> same_cluster nodes pods rmcs s s'"
    by (auto simp: SelectNodes_def split: sum.splits prod.splits dest!: n)
  show "SelectMachineConfigs (rt_Client rt) a pool s = (y, s') \<Longrightarrow> same_cluster nodes pods rmcs s s'"
    by (auto simp: SelectMachineConfigs_def split: sum.splits prod.splits dest!: m)
  show "DetectPoolOverlap (rt_Client rt) a s = (z, s') \<Longrightarrow> same_cluster nodes pods rmcs s s'"
    by (auto simp: DetectPoolOverlap_def split: sum.splits prod.splits dest!: n p)
  show "listAllPoolNames (rt_Client rt) s = (u, s') \<Longrightarrow> same_cluster nodes pods rmcs s s'"
    by (auto simp: listAllPoolNames_def split: sum.splits prod.splits dest!: p)
qed

lemma detect_overlap_frame:
  assumes "detect_overlap rt pool r s = (overlap, r', s')"
  shows "same_cluster nodes pods rmcs s s'"
  using assms
  by (auto simp: detect_overlap_def Let_def split: sum.splits prod.splits if_splits dest!: read_frames)

lemma pool_write_frame:
  "UpdatePoolStatus (rt_Client rt) s p = (e, s') \<Longrightarrow> same_cluster nodes pods rmcs s s'"
  "GetPool (rt_Client rt) s n = (x, s') \<Longrightarrow> same_cluster nodes pods rmcs s s'"
  using pool_ops(1-6) by (metis snd_conv)+

lemma retry_status_frame:
  assumes "\<And>st. same_cluster nodes pods rmcs (cs_world st) (cs_world (snd (body st)))"
  shows "same_cluster nodes pods rmcs s (cs_world (snd (retry_status rt body pool r s)))"
  unfolding retry_status_def
proof (rule attempts_rule [OF status_retry,
      where I = "\<lambda>st. same_cluster nodes pods rmcs s (cs_world st)"
        and Q = "\<lambda>x. same_cluster nodes pods rmcs s (cs_world (snd x))"])
  show "same_cluster nodes pods rmcs s (cs_world st1)"
    if "same_cluster nodes pods rmcs s (cs_world st)" "body st = (Some e, st1)" for st e st1
    using assms [of st] that by simp
  show "same_cluster nodes pods rmcs s (cs_world (snd (body st)))"
    if "same_cluster nodes pods rmcs s (cs_world st)" for st
    using assms [of st] that by simp
qed simp

lemma status_bodies_frame:
  "same_cluster nodes pods rmcs (cs_world st) (cs_world (snd (update_pool_status rt name change st)))"
  "same_cluster nodes pods rmcs (cs_world st)
     (cs_world (snd (update_rollout_status rt name overlap target ns stuck b st)))"
  by (auto simp: update_pool_status_def update_rollout_status_def Let_def split: prod.splits sum.splits
      dest!: pool_write_frame)

lemma CleanupOldRMCs_nodes: "same_nodes nodes pods s (snd (CleanupOldRMCs (rt_Client rt) pool ns s))"
proof -
  have del: "same_nodes nodes pods t (snd (delete_unused (rt_Client rt) inUse n d rs t))" for inUse n d rs t
  proof (induction rs arbitrary: d t)
    case (Cons rmc rs)
    obtain e t1 where e: "DeleteRMC (rt_Client rt) t rmc = (e, t1)" by fastforce
    have "same_nodes nodes pods t t1" using e rmc_nodes(4) rmc_pods(4) by (metis snd_conv)
    then show ?case using Cons [of _ t] Cons [of _ t1] e by (auto split: option.split)
  qed simp
  have lst: "same_nodes nodes pods s s1" if "ListRMCs (rt_Client rt) s sel = (x, s1)" for sel x s1
    using that rmc_nodes(5) rmc_pods(5) by (metis snd_conv)
  show ?thesis
    using del by (auto simp: CleanupOldRMCs_def listRMCsForPool_def Let_def split: prod.splits sum.splits dest!: lst)
qed

lemma Reconcile_reads:
  assumes "Reconcile rt name w = (res, w')"
  shows "same_cluster nodes pods rmcs (snd w) (snd w') \<and> (snd res = None \<longrightarrow> fst res = 0) \<or>
    (\<exists>pool overlap ns configs w1. reads_for rt name w pool overlap ns configs w1 \<and>
       same_cluster nodes pods rmcs (snd w) (snd w1) \<and>
       reconcile_configs rt name pool overlap ns configs (fst w1) (snd w1) = (res, w'))"
proof -
  obtain r s where w: "w = (r, s)" by (cases w)
  obtain g s1 where g: "GetPool (rt_Client rt) s name = (g, s1)" by fastforce
  note s1 = pool_write_frame(2) [OF g]
  show ?thesis
  proof (cases g)
    case (Inl e)
    then show ?thesis using assms g s1 by (auto simp: Reconcile_def w split: if_splits)
  next
    case (Inr fetched)
    obtain pool cleaned where cl: "CleanupLegacyConditions (Some fetched) = (Some pool, cleaned)"
      by (cases "pst_Conditions (pool_Status fetched) = []") (auto simp: CleanupLegacyConditions_def Let_def)
    define s2 where "s2 = (if cleaned then snd (UpdatePoolStatus (rt_Client rt) s1 pool) else s1)"
    have s2: "same_cluster nodes pods rmcs s s2" using s1 pool_ops(4-6) by (simp add: s2_def)
    obtain overlap r3 s3 where o: "detect_overlap rt pool r s2 = (overlap, r3, s3)" by (metis prod_cases3)
    have s3: "same_cluster nodes pods rmcs s s3" using s2 detect_overlap_frame [OF o] by simp
    obtain n s4 where n: "SelectNodes (rt_Client rt) (rt_asSelector rt) pool s3 = (n, s4)" by fastforce
    have s4: "same_cluster nodes pods rmcs s s4" using s3 read_frames(1) [OF n] by simp
    obtain m s5 where m: "SelectMachineConfigs (rt_Client rt) (rt_asSelector rt) pool s4 = (m, s5)" by fastforce
    have s5: "same_cluster nodes pods rmcs s s5" using s4 read_frames(2) [OF m] by simp
    note run = assms [unfolded Reconcile_def w prod.case Let_def g Inr sum.case cl option.sel, folded s2_def]
    show ?thesis
    proof (cases "ps_Paused (pool_Spec pool)")
      case True
      then show ?thesis using run s2 by (auto simp: w)
    next
      case False
      show ?thesis
      proof (cases "\<exists>ns configs. n = Inr ns \<and> m = Inr configs")
        case True
        then obtain ns configs where nm: "n = Inr ns" "m = Inr configs" by blast
        have "reads_for rt name w pool overlap ns configs (r3, s5)"
          unfolding reads_for_def w using g Inr cl False o n m nm by (auto simp: s2_def)
        moreover have "reconcile_configs rt name pool overlap ns configs r3 s5 = (res, w')"
          using run False o n m nm by simp
        ultimately show ?thesis using s5 w by fastforce
      next
        case bad: False
        then show ?thesis using run False o n m s4 s5 by (cases n; cases m) (auto simp: w)
      qed
    qed
  qed
qed

end

text \<open>The nodes a rollout handles, with the arguments \<open>reconcile_rollout\<close> passes on.\<close>

abbreviation rollout_steps ::
  "'s runtime \<Rightarrow> MachineConfigPool \<Rightarrow> Node list \<Rightarrow> string \<Rightarrow> 's \<Rightarrow> (Node \<times> 's) list" where
  "rollout_steps rt pool ns target s \<equiv>
     loop_steps rt pool target
       (if ro_DrainTimeoutSeconds (ps_Rollout (pool_Spec pool)) = 0 then DefaultDrainTimeoutSeconds
        else ro_DrainTimeoutSeconds (ps_Rollout (pool_Spec pool)))
       (ro_DrainRetrySeconds (ps_Rollout (pool_Spec pool)))
       (nodes_to_process (collectNodesInProgress ns target) (SelectNodesForUpdate pool ns target)) s"

abbreviation rollout_loop ::
  "'s runtime \<Rightarrow> MachineConfigPool \<Rightarrow> Node list \<Rightarrow> string \<Rightarrow> loop_state \<Rightarrow> 's \<Rightarrow> loop_state \<times> 's" where
  "rollout_loop rt pool ns target l s \<equiv>
     process_nodes rt pool target
       (if ro_DrainTimeoutSeconds (ps_Rollout (pool_Spec pool)) = 0 then DefaultDrainTimeoutSeconds
        else ro_DrainTimeoutSeconds (ps_Rollout (pool_Spec pool)))
       (ro_DrainRetrySeconds (ps_Rollout (pool_Spec pool)))
       (nodes_to_process (collectNodesInProgress ns target) (SelectNodesForUpdate pool ns target)) l s"

lemma to_process_subset:
  "set (nodes_to_process (collectNodesInProgress ns target) (SelectNodesForUpdate pool ns target))
     \<subseteq> {n \<in> set ns. \<not> IsNodePaused (node_Annotations n)}"
  using selected_props(1,2) [of _ pool ns target]
  by (auto simp: nodes_to_process_def collectNodesInProgress_def Let_def split: if_splits)

lemma ClearRender_simps [simp]:
  "pool_Spec (ClearRenderDegradedCondition now pool) = pool_Spec pool"
  "pool_Name (ClearRenderDegradedCondition now pool) = pool_Name pool"
  "pst_LastSuccessfulRevision (pool_Status (ClearRenderDegradedCondition now pool)) = pst_LastSuccessfulRevision (pool_Status pool)"
  by (simp_all add: ClearRenderDegradedCondition_def)

lemma Select_spec_only:
  "SelectNodesForUpdate (ClearRenderDegradedCondition now pool) ns target = SelectNodesForUpdate pool ns target"
  by (simp add: SelectNodesForUpdate_take)

context pool_runtime
begin

lemma reconcile_configs_cases:
  assumes "reconcile_configs rt name pool overlap ns configs r s = (res, r', s')"
  shows "same_cluster nodes pods rmcs s s' \<or>
    configs \<noteq> [] \<and> debounced rt pool configs (r, s) \<and>
    (\<exists>x s1. ensureRMC rt pool (Merge configs) s = (x, s1) \<and>
       (case x of
          Inl e \<Rightarrow> same_cluster nodes pods rmcs s1 s'
        | Inr rmc \<Rightarrow> (\<exists>r1. reconcile_rollout rt name (ClearRenderDegradedCondition (rt_Now rt s1) pool) overlap
            (FilterNonConflictingNodes ns overlap) rmc r1 s1 = (res, r', s'))))"
proof -
  obtain b d q where d: "CheckAndUpdate (rt_Now rt s) (pool_Name pool) (hash_Full (ComputeHash (Some (Merge configs))))
      (ComputePoolSpecHash pool) (ro_DebounceSeconds (ps_Rollout (pool_Spec pool))) (rec_debounce r) = ((b, d), q)"
    by (metis prod.collapse)
  note fr = retry_status_frame [OF status_bodies_frame(1)]
  show ?thesis
  proof (cases "configs \<noteq> [] \<and> b")
    case True
    obtain x s1 where e: "ensureRMC rt pool (Merge configs) s = (x, s1)" by fastforce
    have "case x of
          Inl e \<Rightarrow> same_cluster nodes pods rmcs s1 s'
        | Inr rmc \<Rightarrow> (\<exists>r1. reconcile_rollout rt name (ClearRenderDegradedCondition (rt_Now rt s1) pool) overlap
            (FilterNonConflictingNodes ns overlap) rmc r1 s1 = (res, r', s'))"
      using assms True d e pool_ops(4-6) [of s1]
      by (cases x) (auto simp: reconcile_configs_def Let_def)
    moreover have "debounced rt pool configs (r, s)" using d True by (simp add: debounced_def)
    ultimately show ?thesis using True e by blast
  next
    case False
    then have "\<exists>change r1. s' = cs_world (snd (retry_status rt (update_pool_status rt name change) pool r1 s))"
      using assms d by (auto simp: reconcile_configs_def Let_def split: if_splits)
    then show ?thesis using fr by auto
  qed
qed

lemma update_rollout_target:
  assumes "update_rollout_status rt name overlap target ns stuck b st = (None, st')"
  shows "pst_TargetRevision (pool_Status (cs_pool st')) = target"
  using assms
  by (auto simp: update_rollout_status_def status_change_def ApplyStatusToPool_def ApplyOverlapCondition_def Let_def
      setDegradedForOverlap_def SetDrainStuckCondition_def ClearDrainStuckCondition_def setDegradedForDrainStuck_def
      split: prod.splits sum.splits if_splits)

lemma retry_rollout_target:
  assumes "retry_status rt (update_rollout_status rt name overlap target ns stuck b) pool r s = (None, st')"
  shows "pst_TargetRevision (pool_Status (cs_pool st')) = target"
proof -
  have "fst x = None \<longrightarrow> pst_TargetRevision (pool_Status (cs_pool (snd x))) = target"
    if "x = retry_status rt (update_rollout_status rt name overlap target ns stuck b) pool r s" for x
    unfolding that retry_status_def
    by (rule attempts_rule [OF status_retry, where I = "\<lambda>st. True"
          and Q = "\<lambda>x. fst x = None \<longrightarrow> pst_TargetRevision (pool_Status (cs_pool (snd x))) = target"])
      (auto intro: update_rollout_target simp: prod_eq_iff)
  from this [OF refl] show ?thesis using assms by simp
qed

text \<open>A rollout is its node loop, then reads and status writes, then perhaps a cleanup.\<close>

lemma reconcile_rollout_parts:
  assumes "reconcile_rollout rt name pool overlap ns rmc r s = (res, r', s')"
  shows "\<exists>l0 l s1 t p ns'. rollout_loop rt pool ns (rmc_Name rmc) l0 s = (l, s1) \<and> same_cluster nodes pods rmcs s1 t \<and>
    (s' = t \<or> s' = snd (CleanupOldRMCs (rt_Client rt) p ns' t) \<and> pst_TargetRevision (pool_Status p) = rmc_Name rmc)"
proof -
  let ?new = "SelectNodesForUpdate pool ns (rmc_Name rmc)"
  define l0 where "l0 = \<lparr>ls_minRequeueAfter = 0, ls_drainStuckNodes = [], ls_uncordonedCount = 0,
    ls_events = (if length ?new > 0 then RolloutBatchStarted pool (int (length ?new)) (map node_Name ?new) (rec_events r)
                 else rec_events r), ls_metrics = rec_metrics r\<rparr>"
  obtain l s1 where p: "rollout_loop rt pool ns (rmc_Name rmc) l0 s = (l, s1)" by fastforce
  obtain n s2 where n: "SelectNodes (rt_Client rt) (rt_asSelector rt) pool s1 = (n, s2)" by fastforce
  note s2 = read_frames(1) [OF n]
  note run = assms [unfolded reconcile_rollout_def Let_def, folded l0_def, unfolded p prod.case n]
  have "\<exists>t p ns'. same_cluster nodes pods rmcs s1 t \<and>
    (s' = t \<or> s' = snd (CleanupOldRMCs (rt_Client rt) p ns' t) \<and> pst_TargetRevision (pool_Status p) = rmc_Name rmc)"
  proof (cases n)
    case (Inl e)
    then show ?thesis using run s2 by auto
  next
    case (Inr nodes')
    define body where "body = update_rollout_status rt name overlap (rmc_Name rmc) nodes' (ls_drainStuckNodes l)
      (pst_UpdatedMachineCount (pool_Status pool) \<noteq> pst_MachineCount (pool_Status pool)
       \<or> pst_ReadyMachineCount (pool_Status pool) \<noteq> pst_MachineCount (pool_Status pool))"
    obtain e st3 where e: "retry_status rt body pool (r\<lparr>rec_events := ls_events l, rec_metrics := ls_metrics l\<rparr>) s2 = (e, st3)" by fastforce
    have st3: "same_cluster nodes pods rmcs s1 (cs_world st3)"
      using retry_status_frame [where body = body and s = s2 and pool = pool and r = "r\<lparr>rec_events := ls_events l, rec_metrics := ls_metrics l\<rparr>"] e status_bodies_frame(2) s2
      by (simp add: body_def)
    have "s' = cs_world st3 \<or> e = None \<and> s' = snd (CleanupOldRMCs (rt_Client rt) (cs_pool st3) nodes' (cs_world st3))"
      using run [unfolded Inr sum.case, folded body_def] e by (auto split: option.splits)
    moreover have "e = None \<Longrightarrow> pst_TargetRevision (pool_Status (cs_pool st3)) = rmc_Name rmc"
      using e retry_rollout_target unfolding body_def by blast
    ultimately show ?thesis using st3 by blast
  qed
  with p show ?thesis by blast
qed

lemma reconcile_rollout_steps:
  assumes "reconcile_rollout rt name pool overlap ns rmc r s = (res, r', s')"
  shows "\<exists>l0 l s1. rollout_loop rt pool ns (rmc_Name rmc) l0 s = (l, s1) \<and> same_nodes nodes pods s1 s'"
proof -
  obtain l0 l s1 t p ns' where P: "rollout_loop rt pool ns (rmc_Name rmc) l0 s = (l, s1)" "same_cluster nodes pods rmcs s1 t"
    "s' = t \<or> s' = snd (CleanupOldRMCs (rt_Client rt) p ns' t)"
    using reconcile_rollout_parts [OF assms] by blast
  have "same_nodes nodes pods s1 s'"
    using P(2,3) CleanupOldRMCs_nodes [where s = t and pool = p and ns = ns'] by auto
  with P(1) show ?thesis by blast
qed

text \<open>A run that changes a node or a pod has come to the node loop, with these inputs.\<close>

lemma Reconcile_acts:
  assumes "Reconcile rt name w = (res, w')"
  shows "same_nodes nodes pods (snd w) (snd w') \<or>
    (\<exists>pool overlap ns configs w1 rmc s l0 l s1.
       reads_for rt name w pool overlap ns configs w1 \<and> configs \<noteq> [] \<and> debounced rt pool configs w1 \<and>
       ensureRMC rt pool (Merge configs) (snd w1) = (Inr rmc, s) \<and> same_nodes nodes pods (snd w) s \<and>
       rollout_loop rt (ClearRenderDegradedCondition (rt_Now rt s) pool) (FilterNonConflictingNodes ns overlap)
         (rmc_Name rmc) l0 s = (l, s1) \<and> same_nodes nodes pods s1 (snd w'))"
proof (cases "same_nodes nodes pods (snd w) (snd w')")
  case False
  obtain pool overlap ns configs w1 where R: "reads_for rt name w pool overlap ns configs w1"
    "same_cluster nodes pods rmcs (snd w) (snd w1)"
    "reconcile_configs rt name pool overlap ns configs (fst w1) (snd w1) = (res, fst w', snd w')"
    using Reconcile_reads [OF assms] False by auto
  obtain x s where E: "configs \<noteq> []" "debounced rt pool configs w1" "ensureRMC rt pool (Merge configs) (snd w1) = (x, s)"
    and X: "case x of Inl e \<Rightarrow> same_cluster nodes pods rmcs s (snd w')
        | Inr rmc \<Rightarrow> (\<exists>r1. reconcile_rollout rt name (ClearRenderDegradedCondition (rt_Now rt s) pool) overlap
            (FilterNonConflictingNodes ns overlap) rmc r1 s = (res, fst w', snd w'))"
    using reconcile_configs_cases [OF R(3)] R(2) False by auto
  have s: "same_nodes nodes pods (snd w) s" using ensureRMC_frame [OF E(3)] R(2) by simp
  obtain rmc r1 where rmc: "x = Inr rmc" "reconcile_rollout rt name (ClearRenderDegradedCondition (rt_Now rt s) pool) overlap
            (FilterNonConflictingNodes ns overlap) rmc r1 s = (res, fst w', snd w')"
    using X s False by (cases x) auto
  from reconcile_rollout_steps [OF rmc(2)] show ?thesis using R(1) E s rmc(1) by blast
qed simp

end

end
