(* ===== verification/Pool_Controller_Store.thy ===== *)
theory Pool_Controller_Store
  imports Pool_Controller_Safety
begin

text \<open>
  What one reconciliation does to the stored rendered configurations: every stored object stays
  a rendering of some configurations, and the revision that is rolled out is stored under its
  name when the run ends, cleanup included.
\<close>

section \<open>Cleanup\<close>

context rmc_api
begin

lemma CleanupOldRMCs_store:
  "rmcs (snd (CleanupOldRMCs c pool ns s)) \<subseteq>\<^sub>m rmcs s"
  "referenced pool ns r \<Longrightarrow> rmcs (snd (CleanupOldRMCs c pool ns s)) r = rmcs s r"
proof -
  let ?inUse = "getRevisionsInUse ns (pst_TargetRevision (pool_Status pool))"
  obtain l s1 where l: "ListRMCs c s (Some (pool_Name pool)) = (l, s1)" by fastforce
  note s1 = rmc_list_frame [OF l]
  have "\<exists>A. A \<inter> ?inUse = {} \<and> rmcs (snd (CleanupOldRMCs c pool ns s)) = rmcs s |` (- A)"
  proof (cases "\<exists>k rs. CleanupOldRMCs c pool ns s = delete_unused c ?inUse k 0 rs s1")
    case True
    then obtain rs k where cl: "CleanupOldRMCs c pool ns s = delete_unused c ?inUse k 0 rs s1" by blast
    obtain n e s' where d: "delete_unused c ?inUse k 0 rs s1 = ((n, e), s')" by (metis prod.collapse)
    from delete_unused_deletes [OF d] obtain m where
      m: "rmcs s' = rmcs s1 |` (- rmc_Name ` set (take m (filter (\<lambda>r. rmc_Name r \<notin> ?inUse) rs)))" by blast
    have "rmc_Name ` set (take m (filter (\<lambda>r. rmc_Name r \<notin> ?inUse) rs)) \<inter> ?inUse = {}"
      by (auto dest!: in_set_takeD)
    then show ?thesis using m cl d s1 by (metis snd_conv)
  next
    case False
    then have "snd (CleanupOldRMCs c pool ns s) = s \<or> snd (CleanupOldRMCs c pool ns s) = s1"
      unfolding CleanupOldRMCs_def listRMCsForPool_def Let_def l prod.case
      by (cases l) (auto split: if_splits)
    then have "rmcs (snd (CleanupOldRMCs c pool ns s)) = rmcs s" using s1 by auto
    then show ?thesis by (intro exI [of _ "{}"]) (simp add: restrict_map_def)
  qed
  then obtain A where A: "A \<inter> ?inUse = {}" "rmcs (snd (CleanupOldRMCs c pool ns s)) = rmcs s |` (- A)" by blast
  show "rmcs (snd (CleanupOldRMCs c pool ns s)) \<subseteq>\<^sub>m rmcs s" unfolding A(2) by (auto simp: map_le_def restrict_map_def)
  show "rmcs (snd (CleanupOldRMCs c pool ns s)) r = rmcs s r" if "referenced pool ns r"
    using A that getRevisionsInUse_referenced [of r ns pool] by (auto simp: restrict_map_def)
qed

end

section \<open>Names\<close>

context fresh_pool_runtime
begin

lemma try_suffix_name:
  "try_suffix (rt_Client rt) rmc suff s = (Inr y, s') \<Longrightarrow>
     \<exists>tail. (case y of Reuse cand \<Rightarrow> rmc_Name cand | UseName n \<Rightarrow> n) = rmc_Name rmc @ tail"
proof (induction "rt_Client rt" rmc suff s rule: try_suffix.induct)
  case (1 rmc suff s)
  obtain g s1 where g: "GetRMC (rt_Client rt) s (rmc_Name rmc @ ''-'' @ Itoa suff) = (g, s1)" by fastforce
  show ?case
  proof (cases "\<exists>cand. g = Inr cand \<and> suff < maxCollisionRetries \<and>
      rmcs_ConfigHash (rmc_Spec cand) \<noteq> rmcs_ConfigHash (rmc_Spec rmc)")
    case True
    then obtain cand where c: "g = Inr cand" "suff < maxCollisionRetries"
      "rmcs_ConfigHash (rmc_Spec cand) \<noteq> rmcs_ConfigHash (rmc_Spec rmc)" by blast
    then have "try_suffix (rt_Client rt) rmc (suff + 1) s1 = (Inr y, s')"
      using "1.prems" g by (simp add: try_suffix.simps [of _ _ suff])
    then show ?thesis using "1.hyps" [OF _ refl g [symmetric] c(1) c(3)] c(2) by simp
  next
    case False
    then show ?thesis
    proof (cases g)
      case (Inl e)
      then show ?thesis using "1.prems" g by (auto simp: try_suffix.simps [of _ _ suff] split: if_splits)
    next
      case (Inr cand)
      then have "rmc_Name cand = rmc_Name rmc @ ''-'' @ Itoa suff" using g rmc_get_name by blast
      then show ?thesis using "1.prems" g Inr False by (auto simp: try_suffix.simps [of _ _ suff] split: if_splits)
    qed
  qed
qed

lemma create_rmc_name:
  "create_rmc rt pool rmc s = (Inr r, s') \<Longrightarrow> rmc_Name r = rmc_Name rmc"
  using rmc_get_name reference [of pool rmc]
  by (fastforce simp: create_rmc_def split: sum.splits prod.splits option.splits if_splits)

lemma ensureRMC_name:
  assumes "ensureRMC rt pool merged s = (Inr r, s')"
  shows "rmc_Name r \<noteq> []"
proof -
  let ?n = "pool_Name pool @ ''-'' @ hash_Short (ComputeHash (Some merged))"
  have "\<exists>tail. rmc_Name r = ?n @ tail"
    using assms
    by (auto simp: ensureRMC_def CheckExistingRMC_def Let_def error_defs split: prod.splits option.splits if_splits sum.splits suffix_result.splits
        dest!: try_suffix_name create_rmc_name rmc_get_name)
  then show ?thesis by auto
qed

end

section \<open>The store after a reconciliation\<close>

text \<open>A stored object is what \<open>BuildRMC\<close> makes of some configurations, but for its reboot policy.\<close>

definition rendering :: "RenderedMachineConfig \<Rightarrow> bool" where
  "rendering r \<longleftrightarrow> (\<exists>poolName cs p. rmc_Spec r =
     (rmc_Spec (BuildRMC poolName (Merge cs) p))\<lparr>rmcs_Reboot := rmcs_Reboot (rmc_Spec r)\<rparr>)"

definition store_ok :: "(string \<rightharpoonup> RenderedMachineConfig) \<Rightarrow> bool" where
  "store_ok m \<longleftrightarrow> (\<forall>n r. m n = Some r \<longrightarrow> rendering r)"

lemma rendering_built: "rmc_Spec r = rmc_Spec (BuildRMC poolName (Merge cs) p) \<Longrightarrow> rendering r"
  unfolding rendering_def by (intro exI [of _ poolName] exI [of _ cs] exI [of _ p]) simp

lemma rendering_reboot:
  assumes "rendering old" and r: "rmc_Spec r = (rmc_Spec old)\<lparr>rmcs_Reboot := rmcs_Reboot (rmc_Spec r)\<rparr>"
  shows "rendering r"
proof -
  obtain poolName cs p where b: "rmc_Spec old =
     (rmc_Spec (BuildRMC poolName (Merge cs) p))\<lparr>rmcs_Reboot := rmcs_Reboot (rmc_Spec old)\<rparr>"
    using assms(1) unfolding rendering_def by blast
  have "(rmc_Spec old)\<lparr>rmcs_Reboot := x\<rparr> = (rmc_Spec (BuildRMC poolName (Merge cs) p))\<lparr>rmcs_Reboot := x\<rparr>" for x
    by (subst b) simp
  then show ?thesis unfolding rendering_def using r by metis
qed

context fresh_pool_runtime
begin

lemma ensureRMC_store:
  assumes "ensureRMC rt pool (Merge configs) s = (x, s')" and "store_ok (rmcs s)"
  shows "store_ok (rmcs s')"
proof (cases x)
  case (Inl e)
  then show ?thesis using ensureRMC_result [OF assms(1) refl] assms(2) by simp
next
  case (Inr r)
  obtain stored where st: "rmcs s' = (rmcs s)(rmc_Name r \<mapsto> stored)" "rmc_Spec stored = rmc_Spec r"
    and cs: "case rmcs s (rmc_Name r) of
           None \<Rightarrow> rmc_Spec r = rmc_Spec (BuildRMC (pool_Name pool) (Merge configs) (Some pool))
         | Some old \<Rightarrow> rmc_Spec r = (rmc_Spec old)\<lparr>rmcs_Reboot := rmcs_Reboot (rmc_Spec r)\<rparr>"
    using ensureRMC_result [OF assms(1) refl] Inr by (auto split: option.splits)
  have "rendering stored"
  proof (cases "rmcs s (rmc_Name r)")
    case None
    then show ?thesis using cs st(2) rendering_built [of stored] by simp
  next
    case (Some old)
    then show ?thesis using cs st(2) assms(2) rendering_reboot [of old stored] by (simp add: store_ok_def)
  qed
  then show ?thesis using st(1) assms(2) by (simp add: store_ok_def)
qed

lemma Reconcile_effect:
  assumes "Reconcile rt name w = (res, w')"
  shows "same_cluster nodes pods rmcs (snd w) (snd w') \<or>
    (\<exists>pool overlap listed configs w1 pool1 ns rmc s l0 l s1.
       reads_for rt name w pool overlap listed configs w1 \<and> same_cluster nodes pods rmcs (snd w) (snd w1) \<and>
       ensureRMC rt pool (Merge configs) (snd w1) = (Inr rmc, s) \<and>
       rollout_loop rt pool1 ns (rmc_Name rmc) l0 s = (l, s1) \<and> same_nodes nodes pods s1 (snd w') \<and>
       rmcs (snd w') \<subseteq>\<^sub>m rmcs s \<and> rmcs (snd w') (rmc_Name rmc) = rmcs s (rmc_Name rmc))"
proof (cases "same_cluster nodes pods rmcs (snd w) (snd w')")
  case False
  obtain pool overlap ns configs w1 where rd: "reads_for rt name w pool overlap ns configs w1"
    and R: "same_cluster nodes pods rmcs (snd w) (snd w1)"
      "reconcile_configs rt name pool overlap ns configs (fst w1) (snd w1) = (res, fst w', snd w')"
    using Reconcile_reads [OF assms] False by auto
  obtain x s where E: "ensureRMC rt pool (Merge configs) (snd w1) = (x, s)"
    and X: "case x of Inl e \<Rightarrow> same_cluster nodes pods rmcs s (snd w')
        | Inr rmc \<Rightarrow> (\<exists>r1. reconcile_rollout rt name (ClearRenderDegradedCondition (rt_Now rt s) pool) overlap
            (FilterNonConflictingNodes ns overlap) rmc r1 s = (res, fst w', snd w'))"
    using reconcile_configs_cases [OF R(2)] R(1) False by auto
  have "\<nexists>e. x = Inl e"
    using X ensureRMC_frame [OF E] ensureRMC_result [OF E refl] R(1) False by auto
  then obtain rmc r1 where rmc: "x = Inr rmc" "reconcile_rollout rt name (ClearRenderDegradedCondition (rt_Now rt s) pool) overlap
            (FilterNonConflictingNodes ns overlap) rmc r1 s = (res, fst w', snd w')"
    using X by (cases x) auto
  from reconcile_rollout_parts [OF rmc(2)] obtain l0 l s1 t p ns' where
    P: "rollout_loop rt (ClearRenderDegradedCondition (rt_Now rt s) pool) (FilterNonConflictingNodes ns overlap) (rmc_Name rmc) l0 s = (l, s1)"
      "same_cluster nodes pods rmcs s1 t"
      "snd w' = t \<or> snd w' = snd (CleanupOldRMCs (rt_Client rt) p ns' t) \<and> pst_TargetRevision (pool_Status p) = rmc_Name rmc"
    by blast
  have rm: "rmcs t = rmcs s" using process_nodes_rmcs [OF P(1)] P(2) by simp
  have "rmc_Name rmc \<noteq> []" by (rule ensureRMC_name [OF E [unfolded rmc(1)]])
  then have "pst_TargetRevision (pool_Status p) = rmc_Name rmc \<Longrightarrow> referenced p ns' (rmc_Name rmc)" by (simp add: referenced_def)
  then have "rmcs (snd w') \<subseteq>\<^sub>m rmcs s \<and> rmcs (snd w') (rmc_Name rmc) = rmcs s (rmc_Name rmc)"
    using P(3) CleanupOldRMCs_store [where s = t and pool = p and ns = ns'] rm by auto
  moreover have "same_nodes nodes pods s1 (snd w')"
    using P(2,3) CleanupOldRMCs_nodes [where s = t and pool = p and ns = ns'] by auto
  ultimately show ?thesis using rd R(1) E rmc(1) P(1) by blast
qed simp

lemma Reconcile_store:
  assumes "Reconcile rt name w = (res, w')" and "store_ok (rmcs (snd w))"
  shows "store_ok (rmcs (snd w'))"
proof -
  consider "rmcs (snd w') = rmcs (snd w)"
    | pool configs t rmc s where "rmcs t = rmcs (snd w)" "ensureRMC rt pool (Merge configs) t = (Inr rmc, s)"
      "rmcs (snd w') \<subseteq>\<^sub>m rmcs s"
    using Reconcile_effect [OF assms(1)] by metis
  then show ?thesis
  proof cases
    case 2
    then have "store_ok (rmcs s)" using ensureRMC_store assms(2) by metis
    then show ?thesis using 2(3) unfolding store_ok_def map_le_def by (metis domI)
  qed (use assms(2) in simp)
qed

lemma Reconcile_desired_stored:
  assumes "Reconcile rt name w = (res, w')"
    and "view desired_of (nodes (snd w')) k \<noteq> view desired_of (nodes (snd w)) k"
  shows "\<exists>pool overlap ns configs w1 n stored. reads_for rt name w pool overlap ns configs w1 \<and>
    view desired_of (nodes (snd w')) k = Some n \<and> rmcs (snd w') n = Some stored \<and>
    rmcs_ConfigHash (rmc_Spec stored) = TrimPrefix (hash_Full (ComputeHash (Some (Merge configs)))) ''sha256:''"
proof -
  have "\<not> same_cluster nodes pods rmcs (snd w) (snd w')" using assms(2) by auto
  with Reconcile_effect [OF assms(1)] obtain pool overlap listed configs w1 pool1 ns rmc s l0 l s1 where
    R: "reads_for rt name w pool overlap listed configs w1" and
    E: "same_cluster nodes pods rmcs (snd w) (snd w1)" "ensureRMC rt pool (Merge configs) (snd w1) = (Inr rmc, s)"
      "rollout_loop rt pool1 ns (rmc_Name rmc) l0 s = (l, s1)" "same_nodes nodes pods s1 (snd w')"
      "rmcs (snd w') (rmc_Name rmc) = rmcs s (rmc_Name rmc)" by blast
  have "view desired_of (nodes s1) k \<noteq> view desired_of (nodes s) k"
    using assms(2) E(1,4) ensureRMC_frame [OF E(2)] by simp
  then have "view desired_of (nodes s1) k = Some (rmc_Name rmc)" using process_nodes_desired [OF E(3)] by blast
  moreover obtain stored where "rmcs s (rmc_Name rmc) = Some stored" and
    "rmcs_ConfigHash (rmc_Spec stored) = TrimPrefix (hash_Full (ComputeHash (Some (Merge configs)))) ''sha256:''"
    using ensureRMC_result [OF E(2) refl] by auto
  ultimately show ?thesis
    using R E(4,5) by (intro exI [of _ pool] exI [of _ overlap] exI [of _ listed] exI [of _ configs] exI [of _ w1]
        exI [of _ "rmc_Name rmc"] exI [of _ stored]) simp
qed

end

end
