(* ===== verification/Pool_Controller_Claims.thy ===== *)
theory Pool_Controller_Claims
  imports Pool_Controller_Store
begin

text \<open>
  The properties of the pool controller, on every runtime that keeps the contract, with an
  in-memory runtime on which the contract holds.
\<close>

section \<open>An in-memory runtime\<close>

text \<open>Selectors by equal labels, a clock that stands still, four tries for a conflict.\<close>

definition mem_runtime :: "cluster runtime" where
  "mem_runtime =
     \<lparr>rt_Client = mem_client,
      rt_asSelector = (\<lambda>sel. Inr (\<lambda>labels. list_all (\<lambda>(k, v). labels k = Some v) (sel_MatchLabels sel))),
      rt_SetControllerReference = (\<lambda>pool rmc. Inr (rmc\<lparr>rmc_OwnerPool := Some (pool_Name pool)\<rparr>)),
      rt_Now = (\<lambda>s. 100000000000), rt_RetryOnConflict = retry_upto 3\<rparr>"

lemma mem_runtime_simps [simp]:
  "rt_Client mem_runtime = mem_client" "rt_Now mem_runtime s = 100000000000"
  "rt_SetControllerReference mem_runtime pool rmc = Inr (rmc\<lparr>rmc_OwnerPool := Some (pool_Name pool)\<rparr>)"
  "rt_RetryOnConflict mem_runtime = retry_upto 3"
  by (simp_all add: mem_runtime_def)

interpretation mem_rt: fresh_pool_runtime mem_runtime mem_nodes mem_pods mem_rmcs
proof (intro fresh_pool_runtime.intro pool_runtime.intro pool_runtime_axioms.intro fresh_pool_runtime_axioms.intro,
    unfold mem_runtime_simps)
  show "cluster_api mem_client mem_nodes mem_pods mem_rmcs" by (rule mem_cluster.cluster_api_axioms)
  show "attempts f st (retry_upto 3 f st)" for f :: "cluster closure_state \<Rightarrow> go_error option \<times> cluster closure_state" and st
    by (rule retry_upto_attempts)
qed (auto simp: mem_client_def not_found_def error_defs split: option.splits)

text \<open>One pool, one node without pods, two configurations that the debounce has seen long enough.\<close>

definition ex_world :: "Node list \<Rightarrow> MachineConfigPool \<Rightarrow> cluster" where
  "ex_world ns pool = (ex_cluster ns [])\<lparr>cl_pools := [(''worker'', pool)], cl_configs := ex_configs\<rparr>"

definition ex_reconciler :: Reconciler where
  "ex_reconciler = NewMachineConfigPoolReconciler
     \<lparr>rec_debounce := \<lparr>db_lastChangeTime = [''worker'' \<mapsto> 1],
        db_lastHash = [''worker'' \<mapsto> hash_Full (ComputeHash (Some (Merge ex_configs)))],
        db_poolSpecHash = [''worker'' \<mapsto> ComputePoolSpecHash (ex_pool None)]\<rparr>\<rparr>"

definition ex_rmc :: RenderedMachineConfig where
  "ex_rmc = (BuildRMC ''worker'' (Merge ex_configs) (Some (ex_pool None)))
     \<lparr>rmc_Labels := (rmc_Labels (BuildRMC ''worker'' (Merge ex_configs) (Some (ex_pool None))))
        (''mco.in-cloud.io/pool'' \<mapsto> ''worker''),
      rmc_OwnerPool := Some ''worker''\<rparr>"

abbreviation ex_start :: cluster where "ex_start \<equiv> ex_world [ex_cordoned] (ex_pool None)"

abbreviation ex_ensured :: cluster where "ex_ensured \<equiv> ex_start\<lparr>cl_rmcs := [(rmc_Name ex_rmc, ex_rmc)]\<rparr>"

lemma ex_start_ops:
  "GetPool mem_client ex_start ''worker'' = (Inr (ex_pool None), ex_start)"
  "SelectNodes mem_client (rt_asSelector mem_runtime) (ex_pool None) ex_start = (Inr [ex_cordoned], ex_start)"
  "SelectMachineConfigs mem_client (rt_asSelector mem_runtime) (ex_pool None) ex_start = (Inr ex_configs, ex_start)"
  "DetectPoolOverlap mem_client (rt_asSelector mem_runtime) ex_start = (Inr NewOverlapResult, ex_start)"
  "listAllPoolNames mem_client ex_start = (Inr [''worker''], ex_start)"
  by (simp_all add: ex_world_def ex_cluster_def ex_rollout ex_cordoned_def selection_defs listAllPoolNames_def mem_defs)

lemma ex_reads:
  "\<exists>r'. rec_debounce r' = rec_debounce r \<and>
     reads_for mem_runtime ''worker'' (r, ex_start) (ex_pool None) (Some NewOverlapResult) [ex_cordoned] ex_configs (r', ex_start)"
proof -
  have c: "CleanupLegacyConditions (Some (ex_pool None)) = (Some (ex_pool None), False)"
    by (simp add: CleanupLegacyConditions_def ex_pool_def)
  have p: "\<not> ps_Paused (pool_Spec (ex_pool None))" by (simp add: ex_pool_def)
  show ?thesis
    by (rule exI [of _ "r\<lparr>rec_metrics := RecordPoolOverlapMetrics None [''worker''] (rec_metrics r),
            rec_events := if hasPoolOverlapCondition (ex_pool None) then PoolOverlapResolved (ex_pool None) (rec_events r)
              else rec_events r\<rparr>"])
      (simp add: reads_for_def detect_overlap_def ex_start_ops c p HasConflicts_def NewOverlapResult_def Let_def
        exI [of Not False])
qed

lemma reads_for_run:
  assumes "reads_for rt name w pool overlap ns configs w1"
  shows "Reconcile rt name w = reconcile_configs rt name pool overlap ns configs (fst w1) (snd w1)"
  using assms by (cases w) (auto simp: reads_for_def Reconcile_def Let_def)

lemma ex_debounced_world:
  assumes "rec_debounce r = rec_debounce ex_reconciler"
  shows "debounced mem_runtime (ex_pool None) ex_configs (r, s)"
  using assms
  by (simp add: debounced_def ex_reconciler_def CheckAndUpdate_def GetLastChangeTime_def ex_pool_def map_get_def
      Let_def time_defs)

lemma ex_ensure:
  "ensureRMC mem_runtime (ex_pool None) (Merge ex_configs) ex_start = (Inr ex_rmc, ex_ensured)"
proof -
  have "cl_rmcs ex_start = []" "mem_rmcs ex_start n = None" "pool_Name (ex_pool None) = ''worker''" for n
    by (simp_all add: ex_world_def ex_cluster_def mem_rmcs_def ex_pool_def)
  then show ?thesis
    by (simp add: ensureRMC_def create_rmc_def CheckExistingRMC_def ex_rmc_def mem_client_def not_found_def error_defs Let_def)
qed

lemma ex_chosen:
  assumes "n \<noteq> []"
  shows "nodes_to_process (collectNodesInProgress [ex_cordoned] n) (SelectNodesForUpdate (ex_pool None) [ex_cordoned] n)
    = [ex_cordoned]"
proof -
  have "IsNodeUnavailable ex_cordoned" "map_get (node_Annotations ex_cordoned) CurrentRevision \<noteq> n"
    "\<not> IsNodePaused (node_Annotations ex_cordoned)"
    using assms by (simp_all add: ex_cordoned_def ex_rollout IsNodeUnavailable_def annotation_defs map_get_def Let_def)
  then show ?thesis
    by (simp add: nodes_to_process_def collectNodesInProgress_def SelectNodesForUpdate_def needs_update_def Let_def)
qed

lemma ex_node_run:
  assumes "pool_Name pool = ''worker''" and "pst_LastSuccessfulRevision (pool_Status pool) = []"
  shows "view desired_of (mem_nodes (snd (process_nodes mem_runtime pool n t r [ex_cordoned] l ex_ensured))) ''w1'' = Some n"
  using assms
  by (simp add: ex_world_def ex_cordoned_def ex_rollout ex_cluster_def mem_defs node_update_defs drain_defs cordon_defs
      desired_of_def view_def annotation_defs map_get_def Let_def)

abbreviation ex_reconciled :: "reconcile_result \<times> Reconciler \<times> cluster" where
  "ex_reconciled \<equiv> Reconcile mem_runtime ''worker'' (ex_reconciler, ex_start)"

lemma ex_reconciled_desired:
  "view desired_of (mem_nodes (snd (snd ex_reconciled))) ''w1'' = Some (rmc_Name ex_rmc)"
  "view desired_of (mem_nodes ex_start) ''w1'' = Some []" "rmc_Name ex_rmc \<noteq> []"
proof -
  show n: "rmc_Name ex_rmc \<noteq> []" by (simp add: ex_rmc_def)
  show "view desired_of (mem_nodes ex_start) ''w1'' = Some []"
    by (simp add: ex_world_def ex_cluster_def ex_cordoned_def ex_node_def mem_nodes_def desired_of_def view_def
        annotation_defs map_get_def)
  obtain r' where r': "rec_debounce r' = rec_debounce ex_reconciler" "ex_reconciled =
      reconcile_configs mem_runtime ''worker'' (ex_pool None) (Some NewOverlapResult) [ex_cordoned] ex_configs r' ex_start"
    using ex_reads [of ex_reconciler] reads_for_run by fastforce
  have ne: "ex_configs \<noteq> []" by (simp add: ex_configs_def)
  define pool1 where "pool1 = ClearRenderDegradedCondition 100000000000 (ex_pool None)"
  have pool1: "pool_Name pool1 = ''worker''" "pst_LastSuccessfulRevision (pool_Status pool1) = []"
    by (simp_all add: pool1_def) (simp_all add: ex_pool_def)
  have keep: "FilterNonConflictingNodes [ex_cordoned] (Some NewOverlapResult) = [ex_cordoned]"
    by (simp add: FilterNonConflictingNodes_def NewOverlapResult_def HasConflicts_def)
  obtain r1 where "ex_reconciled = reconcile_rollout mem_runtime ''worker'' pool1 (Some NewOverlapResult) [ex_cordoned] ex_rmc r1 ex_ensured"
    using r'(2) ne ex_debounced_world [OF r'(1), of ex_start]
    by (auto simp: reconcile_configs_def debounced_def ex_ensure pool1_def keep Let_def split: prod.splits)
  then obtain res r2 s2 where run: "ex_reconciled = (res, r2, s2)"
    "reconcile_rollout mem_runtime ''worker'' pool1 (Some NewOverlapResult) [ex_cordoned] ex_rmc r1 ex_ensured = (res, r2, s2)"
    by (metis prod_cases3)
  obtain l0 l s1 where loop: "rollout_loop mem_runtime pool1 [ex_cordoned] (rmc_Name ex_rmc) l0 ex_ensured = (l, s1)"
    "mem_nodes s2 = mem_nodes s1"
    using mem_rt.reconcile_rollout_steps [OF run(2)] by blast
  have "SelectNodesForUpdate pool1 [ex_cordoned] (rmc_Name ex_rmc) = SelectNodesForUpdate (ex_pool None) [ex_cordoned] (rmc_Name ex_rmc)"
    by (simp add: pool1_def Select_spec_only)
  note here = loop(1) [unfolded this ex_chosen [OF n]]
  have "view desired_of (mem_nodes s1) ''w1'' = Some (rmc_Name ex_rmc)"
    using ex_node_run [OF pool1, where n = "rmc_Name ex_rmc" and l = l0] here by (metis snd_conv)
  then show "view desired_of (mem_nodes (snd (snd ex_reconciled))) ''w1'' = Some (rmc_Name ex_rmc)"
    unfolding run(1) snd_conv loop(2) .
qed

lemma ex_run: "Reconcile mem_runtime ''worker'' (ex_reconciler, ex_start) = (fst ex_reconciled, snd ex_reconciled)"
  by simp

lemma ex_desired_changed:
  "view desired_of (mem_nodes (snd (snd ex_reconciled))) ''w1''
     \<noteq> view desired_of (mem_nodes (snd (ex_reconciler, ex_start))) ''w1''"
  using ex_reconciled_desired by simp

section \<open>Nodes that several pools claim\<close>

text \<open>
  What the overlap detection of a run says of a node. When it succeeded, at most one of the
  pools it listed claims the node; when it failed, nothing is known.
\<close>

definition overlap_free :: "'s runtime \<Rightarrow> OverlapResult option \<Rightarrow> string \<Rightarrow> bool" where
  "overlap_free rt overlap k \<longleftrightarrow>
     (\<forall>o1. overlap = Some o1 \<longrightarrow>
        (\<exists>u pools u1 listed u2. ListPools (rt_Client rt) u = (Inr pools, u1) \<and>
           ListNodes (rt_Client rt) u1 (\<lambda>_. True) = (Inr listed, u2) \<and>
           o1 = DetectPoolOverlapFromLists (rt_asSelector rt) pools listed \<and>
           (\<forall>n\<in>set listed. node_Name n = k \<longrightarrow> length (claiming (rt_asSelector rt) pools n) \<le> 1)))"

context pool_runtime
begin

lemma detected_overlap:
  assumes "detect_overlap rt pool r s = (Some o1, r', s')"
  shows "\<exists>u2. DetectPoolOverlap (rt_Client rt) (rt_asSelector rt) s = (Inr o1, u2)"
  using assms
  by (auto simp: detect_overlap_def Let_def split: prod.splits sum.splits if_splits)

lemma filtered_overlap_free:
  assumes "reads_for rt name w pool overlap ns configs w1"
    and "node \<in> set (FilterNonConflictingNodes ns overlap)"
  shows "overlap_free rt overlap (node_Name node)"
  unfolding overlap_free_def
proof (intro allI impI)
  fix o1
  assume o: "overlap = Some o1"
  obtain u u2 where "DetectPoolOverlap (rt_Client rt) (rt_asSelector rt) u = (Inr o1, u2)"
    using assms(1) detected_overlap unfolding reads_for_def o by blast
  then obtain pools u1 listed where l: "ListPools (rt_Client rt) u = (Inr pools, u1)"
    "ListNodes (rt_Client rt) u1 (\<lambda>_. True) = (Inr listed, u2)"
    "o1 = DetectPoolOverlapFromLists (rt_asSelector rt) pools listed"
    by (auto simp: DetectPoolOverlap_def split: prod.splits sum.splits)
  have "\<not> IsNodeConflicting o1 (node_Name node)"
    using assms(2) o by (auto simp: FilterNonConflictingNodes_def IsNodeConflicting_def HasConflicts_def split: if_splits)
  then have free: "map_of (ov_ConflictingNodes o1) (node_Name node) = None" by (simp add: IsNodeConflicting_def)
  have "length (claiming (rt_asSelector rt) pools n) \<le> 1" if "n \<in> set listed" "node_Name n = node_Name node" for n
    using overlap_of_node [OF list_nodes_distinct [OF l(2)] that(1), of "rt_asSelector rt" pools] free
    unfolding l(3) that(2) by (auto split: if_splits)
  then show "\<exists>u pools u1 listed u2. ListPools (rt_Client rt) u = (Inr pools, u1) \<and>
      ListNodes (rt_Client rt) u1 (\<lambda>_. True) = (Inr listed, u2) \<and>
      o1 = DetectPoolOverlapFromLists (rt_asSelector rt) pools listed \<and>
      (\<forall>n\<in>set listed. node_Name n = node_Name node \<longrightarrow> length (claiming (rt_asSelector rt) pools n) \<le> 1)"
    using l by blast
qed

end

section \<open>Properties\<close>

text \<open>
  C1: A reconciliation gives a new desired revision only to a drained node of the pool. If one
  run of \<open>Reconcile\<close> changes the desired revision of a node, then the pool is not paused and
  has configurations that the debounce let pass; the new value is the name of the rendered
  configuration that was ensured for their merge; the node is one of the nodes listed for the
  pool and it is not paused; if the overlap detection of the run succeeded, at most one of the
  pools listed for it claims the node (if it failed, the run goes on with all nodes of the
  pool); and at the moment it was handled the node was either new to a pool that has been
  rolled out before, or, in the controller's lists, cordoned by the operator with no evictable
  pod.
\<close>

theorem Reconcile_desired_revision_safe:
  assumes "pool_runtime rt nodes pods rmcs" and "Reconcile rt name w = (res, w')"
    and "view desired_of (nodes (snd w')) k \<noteq> view desired_of (nodes (snd w)) k"
  shows "\<exists>pool overlap ns configs w1 rmc s pool1 node t.
    reads_for rt name w pool overlap ns configs w1 \<and> configs \<noteq> [] \<and> debounced rt pool configs w1 \<and>
    ensureRMC rt pool (Merge configs) (snd w1) = (Inr rmc, s) \<and>
    view desired_of (nodes (snd w')) k = Some (rmc_Name rmc) \<and>
    node \<in> set (FilterNonConflictingNodes ns overlap) \<and> node_Name node = k \<and>
    overlap_free rt overlap k \<and> \<not> IsNodePaused (node_Annotations node) \<and>
    pool1 = ClearRenderDegradedCondition (rt_Now rt s) pool \<and>
    (node, t) \<in> set (rollout_steps rt pool1 (FilterNonConflictingNodes ns overlap) (rmc_Name rmc) s) \<and>
    (isNewNode node \<and> pst_LastSuccessfulRevision (pool_Status pool) \<noteq> []
     \<or> IsNodeCordoned node
       \<and> (\<forall>q p. pods t q = Some p \<longrightarrow> pod_NodeName p = k \<longrightarrow> \<not> evictable drainConfig p))"
proof -
  note W = assms(1)
  have changed: "\<not> same_nodes nodes pods (snd w) (snd w')" using assms(3) by auto
  obtain pool overlap ns configs w1 rmc s l0 l s1 where A: "reads_for rt name w pool overlap ns configs w1" "configs \<noteq> []"
    "debounced rt pool configs w1" "ensureRMC rt pool (Merge configs) (snd w1) = (Inr rmc, s)"
    and s: "same_nodes nodes pods (snd w) s" and P: "rollout_loop rt (ClearRenderDegradedCondition (rt_Now rt s) pool)
      (FilterNonConflictingNodes ns overlap) (rmc_Name rmc) l0 s = (l, s1)" "same_nodes nodes pods s1 (snd w')"
    using pool_runtime.Reconcile_acts [OF W assms(2)] changed by blast
  let ?pool = "ClearRenderDegradedCondition (rt_Now rt s) pool" and ?ns = "FilterNonConflictingNodes ns overlap"
  have "view desired_of (nodes s1) k \<noteq> view desired_of (nodes s) k" using assms(3) P(2) s by simp
  note D = pool_runtime.process_nodes_desired [OF W P(1) this]
  obtain node t where N: "(node, t) \<in> set (rollout_steps rt ?pool ?ns (rmc_Name rmc) s)" "node_Name node = k"
    "isNewNode node \<and> pst_LastSuccessfulRevision (pool_Status pool) \<noteq> []
     \<or> IsNodeCordoned node \<and> (\<forall>q p. pods t q = Some p \<longrightarrow> pod_NodeName p = k \<longrightarrow> \<not> evictable drainConfig p)"
    using D by auto
  have "node \<in> set (nodes_to_process (collectNodesInProgress ?ns (rmc_Name rmc)) (SelectNodesForUpdate ?pool ?ns (rmc_Name rmc)))"
    using N(1) loop_steps_nodes by (metis fst_conv image_eqI set_map)
  then have "node \<in> set ?ns \<and> \<not> IsNodePaused (node_Annotations node)"
    using to_process_subset [of ?ns "rmc_Name rmc" ?pool] by blast
  moreover from this have "overlap_free rt overlap k"
    using pool_runtime.filtered_overlap_free [OF W A(1)] N(2) by blast
  moreover have "view desired_of (nodes (snd w')) k = Some (rmc_Name rmc)" using D P(2) by simp
  ultimately show ?thesis using A N by blast
qed

theorem Reconcile_desired_revision_safe_witness:
  "view desired_of (mem_nodes (snd (snd ex_reconciled))) ''w1'' = Some (rmc_Name ex_rmc) \<and>
   (\<exists>pool overlap ns configs w1 node. reads_for mem_runtime ''worker'' (ex_reconciler, ex_start) pool overlap ns configs w1
      \<and> debounced mem_runtime pool configs w1 \<and> node \<in> set (FilterNonConflictingNodes ns overlap)
      \<and> node_Name node = ''w1'' \<and> (isNewNode node \<or> IsNodeCordoned node))"
proof -
  show ?thesis
    using Reconcile_desired_revision_safe [OF mem_rt.pool_runtime_axioms ex_run ex_desired_changed] ex_reconciled_desired(1)
    by (intro conjI) (assumption, blast)
qed

text \<open>
  C4: One reconciliation disrupts no more nodes than the budget allows. The nodes whose desired
  revision or schedulability changes in a run of \<open>Reconcile\<close> are nodes listed for the pool, and
  if the overlap detection of the run succeeded, at most one of the pools listed for it claims
  each of them (if it failed, all nodes of the pool are handled); those of them that were
  available in the list are at most as many as \<open>maxUnavailable\<close> leaves room for beside the
  nodes that already were unavailable.
\<close>

theorem Reconcile_disruption_bounded:
  assumes "pool_runtime rt nodes pods rmcs" and "Reconcile rt name w = (res, w')"
    and "D = {k. view desired_of (nodes (snd w')) k \<noteq> view desired_of (nodes (snd w)) k
               \<or> view node_Unschedulable (nodes (snd w')) k \<noteq> view node_Unschedulable (nodes (snd w)) k}"
    and "D \<noteq> {}"
  shows "\<exists>pool overlap ns configs w1. reads_for rt name w pool overlap ns configs w1 \<and>
    D \<subseteq> node_Name ` set (FilterNonConflictingNodes ns overlap) \<and> (\<forall>k\<in>D. overlap_free rt overlap k) \<and>
    int (card (D - node_Name ` {n \<in> set (FilterNonConflictingNodes ns overlap). IsNodeUnavailable n}))
      \<le> max 0 (budget pool (FilterNonConflictingNodes ns overlap) - int (unavailable (FilterNonConflictingNodes ns overlap)))"
proof -
  note W = assms(1)
  have changed: "\<not> same_nodes nodes pods (snd w) (snd w')" using assms(3,4) by auto
  obtain pool overlap ns configs w1 rmc s l0 l s1 where A: "reads_for rt name w pool overlap ns configs w1"
    and "ensureRMC rt pool (Merge configs) (snd w1) = (Inr rmc, s)" and s: "same_nodes nodes pods (snd w) s" and P: "rollout_loop rt (ClearRenderDegradedCondition (rt_Now rt s) pool)
      (FilterNonConflictingNodes ns overlap) (rmc_Name rmc) l0 s = (l, s1)" "same_nodes nodes pods s1 (snd w')"
    using pool_runtime.Reconcile_acts [OF W assms(2)] changed by blast
  let ?ns = "FilterNonConflictingNodes ns overlap"
  let ?prog = "collectNodesInProgress ?ns (rmc_Name rmc)" and ?new = "SelectNodesForUpdate pool ?ns (rmc_Name rmc)"
  have D: "D \<subseteq> node_Name ` set (nodes_to_process ?prog ?new)"
    using pool_runtime.process_nodes_others [OF W P(1)] P(2) s unfolding assms(3) Select_spec_only by auto
  then have names: "D \<subseteq> node_Name ` set ?ns" using to_process_subset [of ?ns "rmc_Name rmc" pool] by blast
  define U where "U = {n \<in> set ?ns. IsNodeUnavailable n}"
  have "set ?prog \<subseteq> U"
    by (auto simp: U_def collectNodesInProgress_def Let_def split: if_splits)
  then have "node_Name ` set (nodes_to_process ?prog ?new) \<subseteq> node_Name ` U \<union> node_Name ` set ?new"
    unfolding nodes_to_process_def by auto
  then have "D - node_Name ` U \<subseteq> node_Name ` set ?new" using D by blast
  then have "card (D - node_Name ` U) \<le> card (node_Name ` set ?new)"
    by (intro card_mono) auto
  also have "\<dots> \<le> length ?new" by (metis card_image_le card_length finite_set order_trans)
  also have "int (length ?new) \<le> max 0 (budget pool ?ns - int (unavailable ?ns))"
    by (simp add: SelectNodesForUpdate_take)
  finally have "int (card (D - node_Name ` U))
      \<le> max 0 (budget pool ?ns - int (unavailable ?ns))" by simp
  moreover have "\<forall>k\<in>D. overlap_free rt overlap k"
    using names pool_runtime.filtered_overlap_free [OF W A] by blast
  ultimately show ?thesis using A names unfolding U_def by blast
qed

theorem Reconcile_disruption_bounded_witness:
  "\<exists>pool overlap ns configs w1. reads_for mem_runtime ''worker'' (ex_reconciler, ex_start) pool overlap ns configs w1 \<and>
    ''w1'' \<in> node_Name ` set (FilterNonConflictingNodes ns overlap)"
proof -
  let ?w = "(ex_reconciler, ex_start)"
  define D where "D = {k. view desired_of (mem_nodes (snd (snd ex_reconciled))) k \<noteq> view desired_of (mem_nodes (snd ?w)) k
    \<or> view node_Unschedulable (mem_nodes (snd (snd ex_reconciled))) k \<noteq> view node_Unschedulable (mem_nodes (snd ?w)) k}"
  have run: "Reconcile mem_runtime ''worker'' ?w = (fst ex_reconciled, snd ex_reconciled)" by simp
  have w1: "''w1'' \<in> D" using ex_reconciled_desired by (simp add: D_def)
  then have "D \<noteq> {}" by blast
  from Reconcile_disruption_bounded [OF mem_rt.pool_runtime_axioms run D_def this] w1 show ?thesis by blast
qed



text \<open>
  What the search over the suffixes should find: the candidates are read in order, and the first
  one whose read decides (\<open>verdict\<close>: the name is free, it holds this very configuration, or it
  cannot be read) gives the result; when none decides, the search has failed.
\<close>

definition suffix_candidate :: "RenderedMachineConfig \<Rightarrow> int \<Rightarrow> string" where
  "suffix_candidate rmc i = rmc_Name rmc @ ''-'' @ Itoa i"

fun read_in_turn :: "'s client \<Rightarrow> string list \<Rightarrow> 's \<Rightarrow> (string \<times> RenderedMachineConfig result) list" where
  "read_in_turn c [] s = []"
| "read_in_turn c (n # ns) s = (case GetRMC c s n of (x, s1) \<Rightarrow> (n, x) # read_in_turn c ns s1)"

definition verdict ::
  "RenderedMachineConfig \<Rightarrow> string \<times> RenderedMachineConfig result \<Rightarrow> suffix_result result option" where
  "verdict rmc nx =
     (case snd nx of
        Inl err \<Rightarrow> if IsNotFound err then Some (Inr (UseName (fst nx)))
                   else Some (Inl (Wrap ''failed to check RMC name availability'' err))
      | Inr r \<Rightarrow> if rmcs_ConfigHash (rmc_Spec r) = rmcs_ConfigHash (rmc_Spec rmc)
                 then Some (Inr (Reuse r)) else None)"

definition suffix_choice ::
  "RenderedMachineConfig \<Rightarrow> (string \<times> RenderedMachineConfig result) list \<Rightarrow> suffix_result result" where
  "suffix_choice rmc reads =
     (case List.map_filter (verdict rmc) reads of
        [] \<Rightarrow> Inl (Err (''hash collision: exhausted all '' @ Itoa maxCollisionRetries
                     @ '' suffix attempts for '' @ rmc_Name rmc))
      | v # vs \<Rightarrow> v)"

lemma try_suffix_choice:
  assumes "suff \<le> maxCollisionRetries"
  shows "fst (try_suffix c rmc suff s) =
    suffix_choice rmc (read_in_turn c (map (suffix_candidate rmc) [suff..maxCollisionRetries]) s)"
  using assms
proof (induction c rmc suff s rule: try_suffix.induct)
  case (1 c rmc suff s)
  obtain x s1 where g: "GetRMC c s (suffix_candidate rmc suff) = (x, s1)" by fastforce
  have more: "[suff..maxCollisionRetries] = suff # [suff + 1..maxCollisionRetries]"
    using "1.prems" by (rule upto_rec1)
  note step = try_suffix.simps [of c rmc suff s, unfolded Let_def suffix_candidate_def [symmetric]]
  note defs = suffix_choice_def verdict_def map_filter_simps
  show ?case
  proof (cases x)
    case (Inl e)
    then show ?thesis using g "1.prems" by (simp add: step more defs)
  next
    case (Inr r)
    show ?thesis
    proof (cases "rmcs_ConfigHash (rmc_Spec r) = rmcs_ConfigHash (rmc_Spec rmc) \<or> suff = maxCollisionRetries")
      case True
      then show ?thesis using g Inr "1.prems" by (auto simp: step more defs)
    next
      case False
      then have "fst (try_suffix c rmc (suff + 1) s1) =
          suffix_choice rmc (read_in_turn c (map (suffix_candidate rmc) [suff + 1..maxCollisionRetries]) s1)"
        using "1.IH" [OF "1.prems" refl g [unfolded suffix_candidate_def Inr, symmetric] refl] "1.prems" by simp
      then show ?thesis using g Inr False "1.prems" by (simp add: step more defs)
    qed
  qed
qed

text \<open>
  C34: The search for a name after a hash collision, for any answers of the API. The loop over
  the suffixes always ends, and its result is decided by the first of the ten candidate names,
  read in order, that is free (the name is used), holds a configuration with this hash (it is
  reused) or cannot be read for another reason than that it does not exist (the search fails
  with that error); if all ten are held by other configurations it reports exhaustion.
\<close>

theorem suffix_search_exact:
  "fst (try_suffix c rmc 1 s) =
     suffix_choice rmc (read_in_turn c (map (suffix_candidate rmc) [1, 2, 3, 4, 5, 6, 7, 8, 9, 10]) s)"
  using try_suffix_choice [of 1 c rmc s] by (simp add: maxCollisionRetries_def upto.simps)

lemma CheckAndUpdate_requeue:
  assumes "CheckAndUpdate now pool h sh secs d = ((False, wait), d')"
    and "0 \<le> secs" and "secs \<le> 3600" and "GetLastChangeTime d pool \<le> now"
  shows "wait > 0 \<longleftrightarrow> secs > 0" "wait \<ge> 0"
  using assms by (auto simp: CheckAndUpdate_def Let_def time_defs split: if_splits)

text \<open>
  C33: A change that the debounce holds back is looked at again, unless the debounce time is
  zero. Such a run succeeds and changes no node, pod or rendered configuration; it asks to be
  called again after a positive delay exactly when \<open>debounceSeconds\<close> is positive. With the
  documented value 0 nothing asks for the run that would roll the change out.
\<close>

theorem pending_change_requeued:
  assumes "pool_runtime rt nodes pods rmcs" and "reads_for rt name w pool overlap ns configs w'" and "configs \<noteq> []"
    and "\<not> debounced rt pool configs w'"
    and "secs = ro_DebounceSeconds (ps_Rollout (pool_Spec pool))" and "0 \<le> secs" and "secs \<le> 3600"
    and "GetLastChangeTime (rec_debounce (fst w')) (pool_Name pool) \<le> rt_Now rt (snd w')"
    and "Reconcile rt name w = ((wait, e), v)"
  shows "e = None \<and> (wait > 0 \<longleftrightarrow> secs > 0) \<and> wait \<ge> 0 \<and> same_cluster nodes pods rmcs (snd w') (snd v)"
proof -
  obtain wait0 d where d: "CheckAndUpdate (rt_Now rt (snd w')) (pool_Name pool) (hash_Full (ComputeHash (Some (Merge configs))))
      (ComputePoolSpecHash pool) secs (rec_debounce (fst w')) = ((False, wait0), d)"
    using assms(4,5) unfolding debounced_def by (metis prod.collapse)
  note run = assms(9) [unfolded reads_for_run [OF assms(2)] reconcile_configs_def, folded assms(5)]
  let ?held = "\<lambda>r. retry_status rt (update_pool_status rt name (ApplyOverlapCondition overlap)) pool r (snd w')"
  have res: "wait = wait0" "e = None" "\<exists>r. snd v = cs_world (snd (?held r))"
    using run d assms(3) by (auto simp: Let_def)
  have "same_cluster nodes pods rmcs (snd w') (cs_world (snd (?held r)))" for r
    using pool_runtime.retry_status_frame [OF assms(1), where s = "snd w'"] pool_runtime.status_bodies_frame(1) [OF assms(1)]
    by blast
  then have "same_cluster nodes pods rmcs (snd w') (snd v)" using res(3) by auto
  then show ?thesis using CheckAndUpdate_requeue [OF d assms(6-8)] res(1,2) by simp
qed

text \<open>A new reconciler has seen no configuration of the pool: the first run holds the change back.\<close>

theorem pending_change_requeued_witness:
  "\<exists>wait. fst (Reconcile mem_runtime ''worker'' (NewMachineConfigPoolReconciler, ex_start)) = (wait, None) \<and> wait > 0"
proof -
  let ?new = NewMachineConfigPoolReconciler and ?secs = "ro_DebounceSeconds (ps_Rollout (pool_Spec (ex_pool None)))"
  obtain r' where r': "rec_debounce r' = NewDebounceState" "reads_for mem_runtime ''worker'' (?new, ex_start)
      (ex_pool None) (Some NewOverlapResult) [ex_cordoned] ex_configs (r', ex_start)"
    using ex_reads [of ?new] by (auto simp: NewMachineConfigPoolReconciler_def)
  obtain wait e v where run: "Reconcile mem_runtime ''worker'' (?new, ex_start) = ((wait, e), v)" by (metis prod.collapse)
  have held: "\<not> debounced mem_runtime (ex_pool None) ex_configs (r', ex_start)"
    by (auto simp: debounced_def r' NewDebounceState_def CheckAndUpdate_def GetLastChangeTime_def Let_def)
  have last: "GetLastChangeTime (rec_debounce (fst (r', ex_start))) (pool_Name (ex_pool None)) \<le> rt_Now mem_runtime (snd (r', ex_start))"
    by (simp add: r' NewDebounceState_def GetLastChangeTime_def zero_time_def)
  have s: "0 \<le> ?secs" "?secs \<le> 3600" "?secs > 0" "ex_configs \<noteq> []" by (simp_all add: ex_pool_def ex_configs_def)
  show ?thesis
    using pending_change_requeued [OF mem_rt.pool_runtime_axioms r'(2) s(4) held refl s(1,2) last run] run s(3) by auto
qed

text \<open>
  A revision is given out only while its object is stored. If a run of \<open>Reconcile\<close> changes
  the desired revision of a node, then at the end of the run, cleanup included, an object is
  stored under the new value, and its hash is the hash of the merge of the configurations that
  the run had read for the pool.
\<close>

theorem desired_revision_stored:
  assumes "fresh_pool_runtime rt nodes pods rmcs" and "Reconcile rt name w = (res, w')"
    and "view desired_of (nodes (snd w')) k \<noteq> view desired_of (nodes (snd w)) k"
  shows "\<exists>pool overlap ns configs w1 n stored. reads_for rt name w pool overlap ns configs w1 \<and>
    view desired_of (nodes (snd w')) k = Some n \<and> rmcs (snd w') n = Some stored \<and>
    rmcs_ConfigHash (rmc_Spec stored) = TrimPrefix (hash_Full (ComputeHash (Some (Merge configs)))) ''sha256:''"
  by (rule fresh_pool_runtime.Reconcile_desired_stored [OF assms])

theorem desired_revision_stored_witness:
  "mem_rmcs (snd (snd ex_reconciled)) (rmc_Name ex_rmc) \<noteq> None"
proof -
  from desired_revision_stored [OF mem_rt.fresh_pool_runtime_axioms ex_run ex_desired_changed] show ?thesis
    using ex_reconciled_desired(1) by auto
qed

text \<open>
  The watches wake exactly the listed pools whose selector is valid and matches the object.
\<close>

lemma watched_pools:
  assumes "ListPools (rt_Client rt) s = (Inr pools, s')"
  shows "name \<in> set (fst (mapNodeToPool rt node s)) \<longleftrightarrow>
      (\<exists>pool sel. pool \<in> set pools \<and> pool_Name pool = name \<and>
       selectorFromLabelSelector (rt_asSelector rt) (ps_NodeSelector (pool_Spec pool)) = Inr sel \<and> sel (node_Labels node))"
    "name \<in> set (fst (mapMachineConfigToPool rt mc s)) \<longleftrightarrow>
      (\<exists>pool sel. pool \<in> set pools \<and> pool_Name pool = name \<and>
       selectorFromLabelSelector (rt_asSelector rt) (ps_MachineConfigSelector (pool_Spec pool)) = Inr sel \<and> sel (mc_Labels mc))"
proof -
  have m: "(case x of Inl err \<Rightarrow> Inl (g err) | Inr sel \<Rightarrow> Inr (sel ls)) = Inr True \<longleftrightarrow> (\<exists>sel. x = Inr sel \<and> sel ls)"
    for x :: "(labels \<Rightarrow> bool) result" and g :: "go_error \<Rightarrow> go_error" and ls
    by (cases x) auto
  show "name \<in> set (fst (mapNodeToPool rt node s)) \<longleftrightarrow>
      (\<exists>pool sel. pool \<in> set pools \<and> pool_Name pool = name \<and>
       selectorFromLabelSelector (rt_asSelector rt) (ps_NodeSelector (pool_Spec pool)) = Inr sel \<and> sel (node_Labels node))"
    "name \<in> set (fst (mapMachineConfigToPool rt mc s)) \<longleftrightarrow>
      (\<exists>pool sel. pool \<in> set pools \<and> pool_Name pool = name \<and>
       selectorFromLabelSelector (rt_asSelector rt) (ps_MachineConfigSelector (pool_Spec pool)) = Inr sel \<and> sel (mc_Labels mc))"
    using assms
    by (auto simp: mapNodeToPool_def mapMachineConfigToPool_def NodeMatchesPool_def MachineConfigMatchesPool_def m)
qed

end
