(* ===== verification/Node_Annotator.thy ===== *)
theory Node_Annotator
  imports Node_Writer
begin

text \<open>
  The controller's writer of the desired revision, \<open>internal/controller/nodeannotator.go\<close>: it
  gets the node, sends a JSON merge patch for it and does both again after a conflict. The
  client is the struct's field: the functions that get and patch a node and that retry. The
  texts are built with \<open>%q\<close>, as in \<open>nodewriter.go\<close>.
\<close>

section \<open>nodeannotator.go\<close>

record 's NodeAnnotator =
  na_GetNode :: "'s \<Rightarrow> string \<Rightarrow> Node result \<times> 's"
  na_PatchNode :: "'s \<Rightarrow> Node \<Rightarrow> string \<Rightarrow> go_error option \<times> 's"
  na_RetryOnConflict :: "('s \<Rightarrow> go_error option \<times> 's) \<Rightarrow> 's \<Rightarrow> go_error option \<times> 's"
  na_isprint :: "string \<Rightarrow> bool"

definition patch_node :: "'s NodeAnnotator \<Rightarrow> string \<Rightarrow> string \<Rightarrow> 's \<Rightarrow> go_error option \<times> 's" where
  "patch_node a nodeName payload s =
     (case na_GetNode a s nodeName of
        (Inl err, s1) \<Rightarrow> (Some err, s1)
      | (Inr node, s1) \<Rightarrow> na_PatchNode a s1 node payload)"

definition annotator_patch :: "'s NodeAnnotator \<Rightarrow> string \<Rightarrow> string \<Rightarrow> 's \<Rightarrow> go_error option \<times> 's" where
  "annotator_patch a nodeName payload s = na_RetryOnConflict a (patch_node a nodeName payload) s"

definition SetDesiredRevision ::
  "'s NodeAnnotator \<Rightarrow> string \<Rightarrow> string \<Rightarrow> string \<Rightarrow> 's \<Rightarrow> go_error option \<times> 's" where
  "SetDesiredRevision a nodeName revision pool s =
     (let q = go_quote (na_isprint a) in
      annotator_patch a nodeName
        (patch_open @ q DesiredRevision @ '':'' @ q revision @ '','' @ q Pool @ '':'' @ q pool @ patch_close) s)"

definition RemoveDesiredRevision :: "'s NodeAnnotator \<Rightarrow> string \<Rightarrow> 's \<Rightarrow> go_error option \<times> 's" where
  "RemoveDesiredRevision a nodeName s =
     (let q = go_quote (na_isprint a) in
      annotator_patch a nodeName
        (patch_open @ q DesiredRevision @ '':null,'' @ q Pool @ '':null'' @ patch_close) s)"

text \<open>The loop over the nodes with the count of nodes updated so far.\<close>

fun set_for_nodes ::
  "'s NodeAnnotator \<Rightarrow> string \<Rightarrow> string \<Rightarrow> nat \<Rightarrow> Node list \<Rightarrow> 's \<Rightarrow> (nat \<times> go_error option) \<times> 's" where
  "set_for_nodes a revision pool updated [] s = ((updated, None), s)"
| "set_for_nodes a revision pool updated (node # nodes) s =
     (if IsNodePaused (node_Annotations node) then set_for_nodes a revision pool updated nodes s
      else if GetAnnotation (node_Annotations node) DesiredRevision = revision
      then set_for_nodes a revision pool updated nodes s
      else case SetDesiredRevision a (node_Name node) revision pool s of
        (Some err, s1) \<Rightarrow>
          ((updated, Some (Wrap (''failed to set desired revision on node '' @ node_Name node) err)), s1)
      | (None, s1) \<Rightarrow> set_for_nodes a revision pool (updated + 1) nodes s1)"

definition SetDesiredRevisionForNodes ::
  "'s NodeAnnotator \<Rightarrow> Node list \<Rightarrow> string \<Rightarrow> string \<Rightarrow> 's \<Rightarrow> (nat \<times> go_error option) \<times> 's" where
  "SetDesiredRevisionForNodes a nodes revision pool s = set_for_nodes a revision pool 0 nodes s"

lemmas annotator_defs [mco_eval] =
  patch_node_def annotator_patch_def SetDesiredRevision_def RemoveDesiredRevision_def SetDesiredRevisionForNodes_def

section \<open>The texts of the patches\<close>

lemma annotator_keys_safe [simp]: "json_safe p DesiredRevision" "json_safe p Pool"
  by (rule json_safe_ascii; simp add: key_defs)+

lemma read_two_removed:
  "read_patch (patch_open @ go_quote p k @ '':null,'' @ go_quote p k' @ '':null'' @ patch_close) =
     (if json_safe p k \<and> json_safe p k' then Some [(k, None), (k', None)] else None)"
proof -
  have t: "read_members (go_quote p k' @ CHR '':'' # ''null'' @ patch_close) =
      (if json_safe p k' then Some [(k', None)] else None)"
    using read_members_quote [of p k' "''null'' @ patch_close"] by (simp add: read_value_def)
  show ?thesis
    using read_members_quote [of p k "''null,'' @ go_quote p k' @ CHR '':'' # ''null'' @ patch_close"] t
    by (simp add: read_patch_open read_value_def)
qed

section \<open>What the calls do\<close>

text \<open>The nodes the loop writes to.\<close>

abbreviation due :: "string \<Rightarrow> Node list \<Rightarrow> Node list" where
  "due revision ns \<equiv> filter (\<lambda>nd. \<not> IsNodePaused (node_Annotations nd) \<and>
     GetAnnotation (node_Annotations nd) DesiredRevision \<noteq> revision) ns"

text \<open>
  \<open>ann s\<close> gives the annotations of every node on the server. A patch that is accepted was JSON
  and was merged into the node it was sent for; everything else changes nothing.
\<close>

locale annotator_api =
  fixes a :: "'s NodeAnnotator" and ann :: "'s \<Rightarrow> string \<rightharpoonup> annots"
  assumes get_ann: "na_GetNode a s n = (r, s') \<Longrightarrow> ann s' = ann s"
    and get_ann_name: "na_GetNode a s n = (Inr nd, s') \<Longrightarrow> node_Name nd = n"
    and patched: "na_PatchNode a s nd payload = (None, s') \<Longrightarrow>
      \<exists>old kvs. ann s (node_Name nd) = Some old \<and> read_patch payload = Some kvs \<and>
        ann s' = (ann s)(node_Name nd \<mapsto> merge_annotations kvs old)"
    and not_patched: "na_PatchNode a s nd payload = (Some e, s') \<Longrightarrow> ann s' = ann s"
    and annotator_retry: "attempts f s (na_RetryOnConflict a f s)"
begin

lemma patch_node_effect:
  assumes "patch_node a n payload s = (e, s')"
  shows "case e of
      None \<Rightarrow> \<exists>old kvs. ann s n = Some old \<and> read_patch payload = Some kvs \<and> ann s' = (ann s)(n \<mapsto> merge_annotations kvs old)
    | Some err \<Rightarrow> ann s' = ann s"
proof -
  obtain g s1 where g: "na_GetNode a s n = (g, s1)" by fastforce
  note s1 = get_ann [OF g]
  show ?thesis
  proof (cases g)
    case (Inl err)
    then show ?thesis using assms g s1 by (auto simp: patch_node_def)
  next
    case (Inr nd)
    then have "na_PatchNode a s1 nd payload = (e, s')" "node_Name nd = n"
      using assms g get_ann_name by (auto simp: patch_node_def)
    then show ?thesis using patched [of s1 nd payload s'] not_patched [of s1 nd payload _ s'] s1 by (cases e) auto
  qed
qed

lemma annotator_patch_effect:
  assumes "annotator_patch a n payload s = (e, s')"
  shows "case e of
      None \<Rightarrow> \<exists>old kvs. ann s n = Some old \<and> read_patch payload = Some kvs \<and> ann s' = (ann s)(n \<mapsto> merge_annotations kvs old)
    | Some err \<Rightarrow> ann s' = ann s"
proof -
  let ?Q = "\<lambda>x. case fst x of
      None \<Rightarrow> \<exists>old kvs. ann s n = Some old \<and> read_patch payload = Some kvs \<and> ann (snd x) = (ann s)(n \<mapsto> merge_annotations kvs old)
    | Some err \<Rightarrow> ann (snd x) = ann s"
  have "?Q (na_RetryOnConflict a (patch_node a n payload) s)"
  proof (rule attempts_rule [OF annotator_retry, where I = "\<lambda>t. ann t = ann s"])
    show "ann t1 = ann s" if "ann t = ann s" "patch_node a n payload t = (Some err, t1)" for t err t1
      using patch_node_effect [OF that(2)] that(1) by simp
    show "?Q (patch_node a n payload t)" if "ann t = ann s" for t
      using patch_node_effect [of n payload t "fst (patch_node a n payload t)" "snd (patch_node a n payload t)"] that
      by (simp split: option.splits)
  qed simp
  then have "?Q (e, s')" using assms by (simp only: annotator_patch_def)
  then show ?thesis by (simp only: fst_conv snd_conv)
qed

lemma SetDesiredRevision_effect:
  assumes "SetDesiredRevision a n revision pool s = (e, s')"
  shows "case e of
      None \<Rightarrow> \<exists>old. ann s n = Some old \<and> ann s' = (ann s)(n \<mapsto> old(DesiredRevision \<mapsto> revision, Pool \<mapsto> pool))
    | Some err \<Rightarrow> ann s' = ann s"
  using annotator_patch_effect [OF assms [unfolded SetDesiredRevision_def Let_def]] unfolding read_two
  by (cases e) (auto simp: merge_annotations_def split: if_splits)

lemma RemoveDesiredRevision_effect:
  assumes "RemoveDesiredRevision a n s = (e, s')"
  shows "case e of
      None \<Rightarrow> \<exists>old. ann s n = Some old \<and> ann s' = (ann s)(n \<mapsto> old(DesiredRevision := None, Pool := None))
    | Some err \<Rightarrow> ann s' = ann s"
  using annotator_patch_effect [OF assms [unfolded RemoveDesiredRevision_def Let_def]] unfolding read_two_removed
  by (cases e) (auto simp: merge_annotations_def)

lemma set_for_nodes_effect:
  "set_for_nodes a revision pool k ns s = ((n, e), s') \<Longrightarrow>
     \<exists>m. n = k + m \<and> m \<le> length (due revision ns) \<and> (e = None \<longleftrightarrow> m = length (due revision ns)) \<and>
       ann s' = (\<lambda>x. if x \<in> node_Name ` set (take m (due revision ns))
         then map_option (\<lambda>old. old(DesiredRevision \<mapsto> revision, Pool \<mapsto> pool)) (ann s x) else ann s x)"
proof (induction ns arbitrary: k s)
  case Nil
  then show ?case by auto
next
  case (Cons nd ns)
  show ?case
  proof (cases "IsNodePaused (node_Annotations nd) \<or> GetAnnotation (node_Annotations nd) DesiredRevision = revision")
    case True
    then have "set_for_nodes a revision pool k ns s = ((n, e), s')" "due revision (nd # ns) = due revision ns"
      using Cons.prems by (simp_all split: if_splits)
    then show ?thesis using Cons.IH by (simp only:)
  next
    case False
    obtain e1 s1 where w: "SetDesiredRevision a (node_Name nd) revision pool s = (e1, s1)" by fastforce
    note W = SetDesiredRevision_effect [OF w]
    have d: "due revision (nd # ns) = nd # due revision ns" using False by simp
    show ?thesis
    proof (cases e1)
      case (Some err)
      then have "n = k" "e \<noteq> None" "s' = s1" using Cons.prems False w by auto
      then show ?thesis unfolding d using W Some by (intro exI [of _ 0]) auto
    next
      case None
      then have run: "set_for_nodes a revision pool (k + 1) ns s1 = ((n, e), s')" using Cons.prems False w by simp
      from Cons.IH [OF run] obtain m where m: "n = k + 1 + m" "m \<le> length (due revision ns)" "e = None \<longleftrightarrow> m = length (due revision ns)"
        "ann s' = (\<lambda>x. if x \<in> node_Name ` set (take m (due revision ns))
           then map_option (\<lambda>old. old(DesiredRevision \<mapsto> revision, Pool \<mapsto> pool)) (ann s1 x) else ann s1 x)" by blast
      obtain old where old: "ann s (node_Name nd) = Some old"
        "ann s1 = (ann s)(node_Name nd \<mapsto> old(DesiredRevision \<mapsto> revision, Pool \<mapsto> pool))" using W None by auto
      have "ann s' = (\<lambda>x. if x \<in> node_Name ` set (take (Suc m) (nd # due revision ns))
           then map_option (\<lambda>old. old(DesiredRevision \<mapsto> revision, Pool \<mapsto> pool)) (ann s x) else ann s x)"
        unfolding m(4) old(2) by (rule ext) (auto simp: old(1) key_defs fun_upd_twist)
      then show ?thesis unfolding d using m(1-3) by (intro exI [of _ "Suc m"]) auto
    qed
  qed
qed

end

text \<open>
  C40: Setting the desired revision on several nodes. The call writes, in their order, to the nodes
  that are not paused and do not have the revision yet; it returns how many it wrote to, with
  an error exactly when it did not come to the end; those nodes have the revision and the pool
  afterwards, and no other annotation of any node changes.
\<close>

theorem SetDesiredRevisionForNodes_exact:
  assumes "annotator_api a ann"
    and "SetDesiredRevisionForNodes a ns revision pool s = ((n, e), s')"
  shows "n \<le> length (due revision ns) \<and> (e = None \<longleftrightarrow> n = length (due revision ns)) \<and>
    ann s' = (\<lambda>x. if x \<in> node_Name ` set (take n (due revision ns))
      then map_option (\<lambda>old. old(DesiredRevision \<mapsto> revision, Pool \<mapsto> pool)) (ann s x) else ann s x)"
  using annotator_api.set_for_nodes_effect [OF assms(1) assms(2) [unfolded SetDesiredRevisionForNodes_def]] by auto

section \<open>A server in memory\<close>

definition mem_annotator :: "cluster NodeAnnotator" where
  "mem_annotator =
     \<lparr>na_GetNode = mem_GetNode,
      na_PatchNode = (\<lambda>s nd payload.
        case mem_nodes s (node_Name nd) of
          None \<Rightarrow> (Some not_found, s)
        | Some cur \<Rightarrow>
            (case read_patch payload of
               None \<Rightarrow> (Some (ApiErr OtherReason ''invalid patch''), s)
             | Some kvs \<Rightarrow> (None,
                 s\<lparr>cl_nodes := AList.update (node_Name nd)
                     (cur\<lparr>node_Annotations := merge_annotations kvs (node_Annotations cur)\<rparr>) (cl_nodes s)\<rparr>))),
      na_RetryOnConflict = retry_upto 3, na_isprint = (\<lambda>r. True)\<rparr>"

definition mem_annotations :: "cluster \<Rightarrow> string \<rightharpoonup> annots" where
  "mem_annotations s n = map_option node_Annotations (mem_nodes s n)"

lemma mem_annotations_put:
  "mem_nodes s n = Some cur \<Longrightarrow>
     mem_annotations (s\<lparr>cl_nodes := AList.update n (cur\<lparr>node_Annotations := x\<rparr>) (cl_nodes s)\<rparr>) = (mem_annotations s)(n \<mapsto> x)"
  by (auto simp: mem_annotations_def mem_nodes_def update_conv fun_upd_def split: option.splits if_splits)

interpretation annotator: annotator_api mem_annotator mem_annotations
proof
  fix s s' :: cluster and n nd payload e and r :: "Node result" and f :: "cluster \<Rightarrow> go_error option \<times> cluster"
  show "na_GetNode mem_annotator s n = (r, s') \<Longrightarrow> mem_annotations s' = mem_annotations s"
    by (simp add: mem_annotator_def mem_GetNode_def)
  show "na_GetNode mem_annotator s n = (Inr nd, s') \<Longrightarrow> node_Name nd = n"
    by (auto simp: mem_annotator_def mem_GetNode_def mem_nodes_def split: option.splits if_splits)
  show "na_PatchNode mem_annotator s nd payload = (None, s') \<Longrightarrow>
      \<exists>old kvs. mem_annotations s (node_Name nd) = Some old \<and> read_patch payload = Some kvs \<and>
        mem_annotations s' = (mem_annotations s)(node_Name nd \<mapsto> merge_annotations kvs old)"
    by (auto simp: mem_annotator_def mem_annotations_put split: option.splits)
      (simp add: mem_annotations_def)
  show "na_PatchNode mem_annotator s nd payload = (Some e, s') \<Longrightarrow> mem_annotations s' = mem_annotations s"
    by (auto simp: mem_annotator_def split: option.splits)
  show "attempts f s (na_RetryOnConflict mem_annotator f s)"
    by (simp add: mem_annotator_def retry_upto_attempts)
qed

definition ex_annotator_node :: "string \<Rightarrow> annots \<Rightarrow> Node" where
  "ex_annotator_node n an =
     \<lparr>node_Name = n, node_Labels = Map.empty, node_Annotations = an, node_CreationTimestamp = 0,
      node_Unschedulable = False, node_ResourceVersion = 1\<rparr>"

definition ex_annotator_nodes :: "Node list" where
  "ex_annotator_nodes = [ex_annotator_node ''a'' [Paused \<mapsto> ValueTrue], ex_annotator_node ''b'' Map.empty]"

definition ex_annotator_cluster :: cluster where
  "ex_annotator_cluster =
     \<lparr>cl_nodes = map (\<lambda>n. (node_Name n, n)) ex_annotator_nodes, cl_pods = [], cl_blocked = [], cl_rmcs = [],
      cl_pools = [], cl_configs = [], cl_version = 1\<rparr>"

lemma ex_annotator_run:
  "fst (SetDesiredRevisionForNodes mem_annotator ex_annotator_nodes ''r2'' ''worker'' ex_annotator_cluster) = (1, None)"
proof -
  have "json_safe (\<lambda>r. True) ''r2''" "json_safe (\<lambda>r. True) ''worker''" by (rule json_safe_ascii; simp)+
  then show ?thesis
    by (simp add: SetDesiredRevisionForNodes_def ex_annotator_nodes_def ex_annotator_node_def ex_annotator_cluster_def
        SetDesiredRevision_def annotator_patch_def patch_node_def mem_annotator_def mem_GetNode_def mem_nodes_def
        read_two [simplified] annotation_defs map_get_def Let_def numeral_3_eq_3)
qed

theorem SetDesiredRevisionForNodes_exact_witness:
  "mem_annotations (snd (SetDesiredRevisionForNodes mem_annotator ex_annotator_nodes ''r2'' ''worker'' ex_annotator_cluster)) ''b''
     = Some [DesiredRevision \<mapsto> ''r2'', Pool \<mapsto> ''worker'']"
proof -
  let ?r = "SetDesiredRevisionForNodes mem_annotator ex_annotator_nodes ''r2'' ''worker'' ex_annotator_cluster"
  have run: "?r = ((1, None), snd ?r)" using ex_annotator_run by (simp add: prod_eq_iff)
  from SetDesiredRevisionForNodes_exact [OF annotator.annotator_api_axioms run]
  show ?thesis
    by (simp add: ex_annotator_nodes_def ex_annotator_node_def ex_annotator_cluster_def mem_annotations_def mem_nodes_def
        annotation_defs map_get_def)
qed

end
