(* ===== verification/Rollout_System.thy ===== *)
theory Rollout_System
  imports Node_Update
begin

text \<open>
  The handler of \<open>node_update.go\<close> and everybody else at work on one cluster. The handler decides
  on a snapshot of a node, of any age, while agents report, people edit nodes and pods come and
  go. A step relation has the handler and the others as its rules, in any order and without a
  restriction; it keeps a record of the nodes whose update was disturbed. The invariant says
  that every other node is out of service as long as an update is in flight on it.
\<close>

section \<open>What an eviction does to the pods\<close>

text \<open>The API server's side of an eviction: it creates no pod and moves none to another node.\<close>

locale evict_api = pod_api +
  assumes evict_stays: "CreateEviction c s p g = (e, s') \<Longrightarrow> pods s' k = Some p' \<Longrightarrow>
      \<exists>old. pods s k = Some old \<and> pod_NodeName p' = pod_NodeName old"
begin

lemma retry_pods: "pods (snd (RetryOnConflict c (read_modify_write c n f) s)) = pods s"
proof (rule attempts_rule [OF retry_attempts, where I = "\<lambda>t. pods t = pods s" and Q = "\<lambda>x. pods (snd x) = pods s"])
  show "pods t1 = pods s" if "pods t = pods s" "read_modify_write c n f t = (Some e, t1)" for t e t1
    using rmw_pods [of n f t] that by simp
qed (simp_all add: rmw_pods)

lemma writers_pods:
  "CordonNode c node s = (e, s') \<Longrightarrow> pods s' = pods s" "UncordonNode c node s = (e, s') \<Longrightarrow> pods s' = pods s"
  "SetNodeAnnotation c node key v s = (e, s') \<Longrightarrow> pods s' = pods s"
  "set_desired c pool node target now s = (e, s') \<Longrightarrow> pods s' = pods s"
  "IsDrainComplete c node cfg s = (b, s') \<Longrightarrow> pods s' = pods s"
  "HandleDrainRetry c node t r now s = (d, s') \<Longrightarrow> pods s' = pods s"
proof -
  show "CordonNode c node s = (e, s') \<Longrightarrow> pods s' = pods s" "UncordonNode c node s = (e, s') \<Longrightarrow> pods s' = pods s"
    using retry_pods unfolding CordonNode_def UncordonNode_def by (metis snd_conv)+
  have set: "pods (snd (SetNodeAnnotation c node key v t)) = pods t" for key v t
    by (rule SetNodeAnnotation_pods)
  show "SetNodeAnnotation c node key v s = (e, s') \<Longrightarrow> pods s' = pods s" using set by (metis snd_conv)
  show "set_desired c pool node target now s = (e, s') \<Longrightarrow> pods s' = pods s"
    using set by (auto simp: set_desired_def Let_def split: prod.splits option.splits) (metis snd_conv)+
  show "IsDrainComplete c node cfg s = (b, s') \<Longrightarrow> pods s' = pods s"
    using list_frame by (auto simp: IsDrainComplete_def split: prod.splits sum.splits)
  show "HandleDrainRetry c node t r now s = (d, s') \<Longrightarrow> pods s' = pods s"
    using set by (auto simp: HandleDrainRetry_def Let_def split: option.splits if_splits)
qed

lemma evict_all_stays:
  "evict_all c g ps s = (errs, s') \<Longrightarrow> pods s' k = Some p' \<Longrightarrow>
     \<exists>old. pods s k = Some old \<and> pod_NodeName p' = pod_NodeName old"
proof (induction ps arbitrary: s errs)
  case (Cons p ps)
  obtain r s1 where e: "EvictPod c p g s = (r, s1)" by (cases "EvictPod c p g s")
  obtain errs1 where a: "evict_all c g ps s1 = (errs1, s')" using Cons.prems(1) by (auto simp: e split: prod.splits)
  obtain old where old: "pods s1 k = Some old" "pod_NodeName p' = pod_NodeName old" using Cons.IH [OF a Cons.prems(2)] by blast
  have "\<exists>x. CreateEviction c s p (if g \<ge> 0 then Some g else None) = (x, s1)"
    using e by (auto simp: EvictPod_def split: prod.splits option.splits if_splits)
  then show ?case using evict_stays [OF _ old(1)] old(2) by metis
qed simp

text \<open>A drain touches only pods of its node.\<close>

lemma DrainNode_others:
  assumes "DrainNode c node cfg now s = (r, s')" and "pods s' k = Some p" and "pod_NodeName p \<noteq> node_Name node"
  shows "pods s k = Some p"
proof -
  define a where "a = (if GetAnnotation (node_Annotations node) DrainStartedAt = []
    then SetNodeAnnotation c node DrainStartedAt (Format_RFC3339 now) s else (None, s))"
  obtain r1 s1 where a1: "a = (r1, s1)" by (cases a)
  have p1: "pods s1 = pods s" using a1 writers_pods(3) by (auto simp: a_def split: if_splits)
  obtain l s2 where l: "ListPods c s1 (node_Name node) = (l, s2)" by (cases "ListPods c s1 (node_Name node)")
  have p2: "pods s2 = pods s" using list_frame [OF l] p1 by simp
  show ?thesis
  proof (cases "r1 = None \<and> (\<exists>ps. l = Inr ps \<and> FilterEvictablePods ps cfg \<noteq> [])")
    case False
    then have "s' = s1 \<or> s' = s2"
      using assms(1) unfolding DrainNode_def a_def [symmetric] a1 l
      by (auto simp: l Let_def split: option.splits sum.splits if_splits)
    then show ?thesis using p1 p2 assms(2) by auto
  next
    case True
    then obtain ps where ps: "r1 = None" "l = Inr ps" "FilterEvictablePods ps cfg \<noteq> []" by blast
    obtain errs where e: "evict_all c (dc_GracePeriod cfg) (FilterEvictablePods ps cfg) s2 = (errs, s')"
      using assms(1) unfolding DrainNode_def a_def [symmetric] a1 ps(1)
      by (auto simp: l ps Let_def split: prod.splits list.splits)
    obtain old where old: "pods s k = Some old" "pod_NodeName old \<noteq> node_Name node"
      using evict_all_stays [OF e assms(2)] assms(3) p2 by auto
    then have "k \<notin> pod_key ` set (FilterEvictablePods ps cfg)"
      using list_pods [OF l [unfolded ps(2)]] p1 by (auto simp: FilterEvictablePods_def)
    then show ?thesis using evict_all_frame [OF e] assms(2) p2 by (simp del: split_paired_All)
  qed
qed

end

interpretation mem_evict: evict_api mem_client mem_nodes mem_pods
  by unfold_locales (auto simp: mem_client_def mem_CreateEviction_def mem_pods_def delete_conv split: if_splits option.splits)

section \<open>What the handler does to a node\<close>

text \<open>Every write of the handler is one of these changes.\<close>

definition handler_change :: "(Node \<Rightarrow> Node option) \<Rightarrow> bool" where
  "handler_change f \<longleftrightarrow> f = cordon_change \<or> f = uncordon_change
     \<or> (\<exists>key v. key \<in> {DesiredRevision, DesiredRevisionSetAt, Pool, DrainStartedAt, DrainRetryCount} \<and> f = annotate_change key v)"

lemma handler_changes:
  "handler_change cordon_change" "handler_change uncordon_change"
  "key \<in> {DesiredRevision, DesiredRevisionSetAt, Pool, DrainStartedAt, DrainRetryCount} \<Longrightarrow> handler_change (annotate_change key v)"
  unfolding handler_change_def by blast+

text \<open>A preorder on nodes that every change of the handler goes up in.\<close>

definition handler_order :: "(Node \<Rightarrow> Node \<Rightarrow> bool) \<Rightarrow> bool" where
  "handler_order R \<longleftrightarrow> reflp R \<and> transp R \<and>
     (\<forall>f cur new v. handler_change f \<longrightarrow> f cur = Some new \<longrightarrow> R cur (new\<lparr>node_ResourceVersion := v\<rparr>))"

lemma rel_option_mono_trans:
  assumes "handler_order R" "rel_option R x y" "rel_option R y z" shows "rel_option R x z"
  using assms unfolding handler_order_def by (cases x; cases y; cases z) (auto dest: transpD)

lemma rel_option_same: "handler_order R \<Longrightarrow> rel_option R x x"
  unfolding handler_order_def by (cases x) (auto dest: reflpD)

lemma node_write_rel:
  assumes "handler_order R" "node_write Rd m n f r m'" "handler_change f"
  shows "rel_option R (m k) (m' k)"
  using assms(2)
proof (cases rule: node_write.cases)
  case (written cur new v)
  then have "R cur (new\<lparr>node_ResourceVersion := v\<rparr>)" using assms(1,3) unfolding handler_order_def by blast
  then show ?thesis using written rel_option_same [OF assms(1)] by auto
qed (simp_all add: rel_option_same [OF assms(1)])

context evict_api
begin

lemma annotate_rel:
  assumes "handler_order R" "SetNodeAnnotation c node key v s = (e, s')"
    "key \<in> {DesiredRevision, DesiredRevisionSetAt, Pool, DrainStartedAt, DrainRetryCount}"
  shows "rel_option R (nodes s k) (nodes s' k)"
  by (rule node_write_rel [OF assms(1) SetNodeAnnotation_write [OF assms(2)] handler_changes(3) [OF assms(3)]])

lemma set_desired_rel:
  assumes R: "handler_order R" and run: "set_desired c pool node target now s = (e, s')"
  shows "rel_option R (nodes s k) (nodes s' k)"
proof -
  obtain e1 s1 where 1: "SetNodeAnnotation c node DesiredRevision target s = (e1, s1)" by fastforce
  obtain e2 s2 where 2: "SetNodeAnnotation c node DesiredRevisionSetAt (Format_RFC3339 now) s1 = (e2, s2)" by fastforce
  obtain e3 s3 where 3: "SetNodeAnnotation c node Pool (pool_Name pool) s2 = (e3, s3)" by fastforce
  have "s' = s1 \<or> s' = s3" using run by (cases e1) (auto simp: set_desired_def 1 2 3 Let_def)
  moreover have a: "rel_option R (nodes s k) (nodes s1 k)" by (rule annotate_rel [OF R 1]) simp
  have b: "rel_option R (nodes s1 k) (nodes s2 k)" by (rule annotate_rel [OF R 2]) simp
  have "rel_option R (nodes s2 k) (nodes s3 k)" by (rule annotate_rel [OF R 3]) simp
  then have "rel_option R (nodes s k) (nodes s3 k)"
    by (rule rel_option_mono_trans [OF R rel_option_mono_trans [OF R a b]])
  ultimately show ?thesis using a by (elim disjE) simp_all
qed

lemma DrainNode_rel:
  assumes R: "handler_order R" and run: "DrainNode c node cfg now s = (e, s')"
  shows "rel_option R (nodes s k) (nodes s' k)"
proof -
  define a where "a = (if GetAnnotation (node_Annotations node) DrainStartedAt = []
    then SetNodeAnnotation c node DrainStartedAt (Format_RFC3339 now) s else (None, s))"
  obtain r1 s1 where a1: "a = (r1, s1)" by (cases a)
  have 1: "rel_option R (nodes s k) (nodes s1 k)"
  proof (cases "GetAnnotation (node_Annotations node) DrainStartedAt = []")
    case True
    then show ?thesis using a1 by (intro annotate_rel [OF R, of node DrainStartedAt]) (simp_all add: a_def)
  qed (use a1 rel_option_same [OF R] in \<open>simp add: a_def\<close>)
  have "nodes s' = nodes s1"
    using run unfolding DrainNode_def a_def [symmetric] a1
    by (auto simp: Let_def split: option.splits prod.splits sum.splits if_splits list.splits
        dest!: ListPods_view evict_all_frame)
  then show ?thesis using 1 by simp
qed

lemma HandleDrainRetry_rel:
  assumes R: "handler_order R" and run: "HandleDrainRetry c node t r now s = (d, s')"
  shows "rel_option R (nodes s k) (nodes s' k)"
proof -
  let ?v = "Itoa (wrap64 (GetIntAnnotation node DrainRetryCount + 1))"
  obtain e s1 where w: "SetNodeAnnotation c node DrainRetryCount ?v s = (e, s1)" by fastforce
  have "s' = s \<or> s' = snd (SetNodeAnnotation c node DrainRetryCount
      (Itoa (wrap64 (GetIntAnnotation node DrainRetryCount + 1))) s)"
    using run by (auto simp: HandleDrainRetry_def Let_def split: option.splits if_splits)
  moreover have "rel_option R (nodes s k) (nodes s1 k)" by (rule annotate_rel [OF R w]) simp
  ultimately show ?thesis using rel_option_same [OF R] w by auto
qed

lemma ProcessNodeUpdate_rel:
  assumes R: "handler_order R" and run: "ProcessNodeUpdate c pool node target t r now s = (res, s')"
  shows "rel_option R (nodes s k) (nodes s' k)"
  using run
proof (cases rule: ProcessNodeUpdate_cases)
  case (newNode e)
  then show ?thesis using set_desired_rel [OF R] by blast
next
  case (cordon e)
  then show ?thesis using node_write_rel [OF R CordonNode_write handler_changes(1)] by blast
next
  case (unknown err)
  then show ?thesis using rel_option_same [OF R] IsDrainComplete_view [OF unknown(2)] by simp
next
  case (drain s1 e s2)
  note d = DrainNode_rel [OF R drain(3), of k, unfolded IsDrainComplete_view [OF drain(2)]]
  show ?thesis
    using drain(4)
  proof
    assume "s' = snd (HandleDrainRetry c node t r now s2)"
    then show ?thesis using rel_option_mono_trans [OF R d] HandleDrainRetry_rel [OF R] by (metis prod.collapse)
  qed (use d in simp)
next
  case (desire s1 e)
  then show ?thesis using set_desired_rel [OF R desire(4), of k] IsDrainComplete_view [OF desire(2)] by simp
next
  case (uncordon s1 e)
  then show ?thesis
    using node_write_rel [OF R UncordonNode_write [OF uncordon(5)] handler_changes(2), of k] IsDrainComplete_view [OF uncordon(2)]
    by simp
next
  case await
  then show ?thesis using rel_option_same [OF R] IsDrainComplete_view [OF await(2)] by simp
qed

lemma ProcessNodeUpdate_pods:
  assumes run: "ProcessNodeUpdate c pool node target t r now s = (res, s')"
    and "pods s' q = Some p" and "pods s q \<noteq> Some p"
  shows "pod_NodeName p = node_Name node \<and> IsDrainComplete c node drainConfig s = (Inr False, snd (IsDrainComplete c node drainConfig s))"
  using run
proof (cases rule: ProcessNodeUpdate_cases)
  case (drain s1 e s2)
  have "pods s' = pods s2" using drain(4) writers_pods(6) by (metis prod.collapse)
  then show ?thesis
    using DrainNode_others [OF drain(3), of q p] assms(2,3) writers_pods(5) [OF drain(2)] drain(2) by auto
qed (use assms writers_pods in metis)+

end

section \<open>The system\<close>

definition current_of :: "Node \<Rightarrow> string" where
  "current_of nd = GetAnnotation (node_Annotations nd) CurrentRevision"

text \<open>An update is in flight: the node has a desired revision that it does not report.\<close>

definition in_flight :: "Node \<Rightarrow> bool" where
  "in_flight nd \<longleftrightarrow> desired_of nd \<noteq> [] \<and> current_of nd \<noteq> desired_of nd"

text \<open>
  What the reports of an agent may change between two looks at its node: the annotations that
  \<open>nodewriter.go\<close> writes; no report brings an update in flight.
\<close>

definition agent_keys :: "string set" where
  "agent_keys = {CurrentRevision, AgentState, LastError, RebootPending, ForceReboot}"

definition agent_report :: "Node \<Rightarrow> Node \<Rightarrow> bool" where
  "agent_report old new \<longleftrightarrow>
     node_Name new = node_Name old \<and> node_Unschedulable new = node_Unschedulable old \<and>
     (\<forall>key. key \<notin> agent_keys \<longrightarrow> node_Annotations new key = node_Annotations old key) \<and>
     (in_flight new \<longrightarrow> in_flight old)"

text \<open>The workload of a node is gone.\<close>

definition no_workload :: "(string \<times> string \<rightharpoonup> Pod) \<Rightarrow> string \<Rightarrow> bool" where
  "no_workload ps k \<longleftrightarrow> (\<forall>q p. ps q = Some p \<longrightarrow> pod_NodeName p = k \<longrightarrow> \<not> evictable drainConfig p)"

definition marked_ok :: "Node \<Rightarrow> bool" where
  "marked_ok nd \<longleftrightarrow> (IsNodeCordoned nd \<longrightarrow> node_Unschedulable nd)"

text \<open>
  A call of the handler for a node is blind when it spares a node that joins a rolled-out pool
  (the handler sets the desired revision without a cordon), or when its snapshot misleads it
  about the node the server has: it shows a cordon of the operator that is no longer there, or
  it does not show that an update is in flight.
\<close>

definition blind :: "MachineConfigPool \<Rightarrow> Node \<Rightarrow> Node option \<Rightarrow> bool" where
  "blind pool node cur \<longleftrightarrow>
     isNewNode node \<and> pst_LastSuccessfulRevision (pool_Status pool) \<noteq> [] \<or>
     (case cur of None \<Rightarrow> False
      | Some nd \<Rightarrow> IsNodeCordoned node \<and> \<not> IsNodeCordoned nd \<or> in_flight nd \<and> \<not> in_flight node)"

text \<open>
  What others may do to a node without disturbing its update: they do not separate the
  operator's mark from the unschedulable flag, bring no update in flight, and put no node back
  in service while one is.
\<close>

definition undisturbed :: "Node option \<Rightarrow> Node \<Rightarrow> bool" where
  "undisturbed old new \<longleftrightarrow>
     (case old of
        None \<Rightarrow> marked_ok new \<and> \<not> in_flight new
      | Some nd \<Rightarrow> (marked_ok nd \<longrightarrow> marked_ok new) \<and>
          (in_flight new \<longrightarrow> in_flight nd \<and> (node_Unschedulable nd \<longrightarrow> node_Unschedulable new)))"

text \<open>
  The steps, over the state of the cluster, the nodes that were disturbed, and the nodes on which
  workload showed up late: a call of the handler, for any pool, target and snapshot; and any
  change of nodes and pods by others (agents, people, the scheduler, the kubelets, the cache
  behind the controller's lists). A call of the handler is one step, so what others do while it
  runs comes before or after it, and \<open>pods\<close> are the pods as the client lists them. No step is
  excluded; a blind call and a change that disturbs
  are written down, and so is workload that shows up in the list of pods of an unschedulable
  node that had none.
\<close>

inductive system_step ::
  "'s client \<Rightarrow> ('s \<Rightarrow> string \<rightharpoonup> Node) \<Rightarrow> ('s \<Rightarrow> string \<times> string \<rightharpoonup> Pod) \<Rightarrow>
     's \<times> string set \<times> string set \<Rightarrow> 's \<times> string set \<times> string set \<Rightarrow> bool"
  for c nodes pods where
  controller:
    "ProcessNodeUpdate c pool node target t r now s = (res, s') \<Longrightarrow>
     D' = (if blind pool node (nodes s (node_Name node)) then insert (node_Name node) D else D) \<Longrightarrow>
     system_step c nodes pods (s, D, L) (s', D', L)"
| others:
    "D' = D \<union> {k. \<exists>new. nodes s' k = Some new \<and> \<not> undisturbed (nodes s k) new} \<Longrightarrow>
     L' = L \<union> {k. view node_Unschedulable (nodes s) k = Some True \<and> no_workload (pods s) k
                \<and> \<not> no_workload (pods s') k} \<Longrightarrow>
     system_step c nodes pods (s, D, L) (s', D', L')"

inductive_cases system_stepE: "system_step c nodes pods x y"

text \<open>
  The invariant: on a node that was not disturbed the operator's mark means unschedulable, and
  while an update is in flight the node is unschedulable and, unless some showed up late,
  without workload.
\<close>

definition out_of_service ::
  "('s \<Rightarrow> string \<rightharpoonup> Node) \<Rightarrow> ('s \<Rightarrow> string \<times> string \<rightharpoonup> Pod) \<Rightarrow> 's \<times> string set \<times> string set \<Rightarrow> bool" where
  "out_of_service nodes pods x \<longleftrightarrow>
     (case x of (s, D, L) \<Rightarrow>
        \<forall>k nd. nodes s k = Some nd \<longrightarrow> k \<notin> D \<longrightarrow> marked_ok nd \<and>
          (in_flight nd \<longrightarrow> node_Unschedulable nd \<and> (k \<notin> L \<longrightarrow> no_workload (pods s) k)))"

lemma handler_keeps_current:
  "handler_order (\<lambda>a b. current_of b = current_of a \<and> (marked_ok a \<longrightarrow> marked_ok b))"
proof -
  have "current_of (new\<lparr>node_ResourceVersion := v\<rparr>) = current_of cur \<and> (marked_ok cur \<longrightarrow> marked_ok (new\<lparr>node_ResourceVersion := v\<rparr>))"
    if "handler_change f" "f cur = Some new" for f cur new v
    using that unfolding handler_change_def
    by (auto simp: node_changes current_of_def marked_ok_def IsNodeCordoned_def annotation_defs split: if_splits)
  then show ?thesis by (auto simp: handler_order_def reflp_def transp_def)
qed

lemma agent_report_keeps:
  assumes "agent_report old new"
  shows "desired_of new = desired_of old" "IsNodeCordoned new = IsNodeCordoned old" "marked_ok new = marked_ok old"
    "undisturbed (Some old) new"
proof -
  have "node_Annotations new DesiredRevision = node_Annotations old DesiredRevision"
    "node_Annotations new Cordoned = node_Annotations old Cordoned"
    using assms by (simp_all add: agent_report_def agent_keys_def key_defs)
  then show "desired_of new = desired_of old" "IsNodeCordoned new = IsNodeCordoned old" "marked_ok new = marked_ok old"
    "undisturbed (Some old) new"
    using assms
    by (simp_all add: undisturbed_def desired_of_def IsNodeCordoned_def marked_ok_def GetBoolAnnotation_def GetAnnotation_def map_get_def agent_report_def)
qed

context evict_api
begin

text \<open>A call of the handler brings no evictable pod to a node.\<close>

lemma handler_keeps_quiet:
  assumes run: "ProcessNodeUpdate c pool node target t r now s = (res, s')" and quiet: "no_workload (pods s) k"
  shows "no_workload (pods s') k"
  unfolding no_workload_def
proof (intro allI impI)
  fix q p
  assume p: "pods s' q = Some p" "pod_NodeName p = k"
  show "\<not> evictable drainConfig p"
  proof (cases "pods s q = Some p")
    case False
    from ProcessNodeUpdate_pods [OF run p(1) this] p(2) have "k = node_Name node"
      "IsDrainComplete c node drainConfig s = (Inr False, snd (IsDrainComplete c node drainConfig s))" by auto
    then show ?thesis using IsDrainComplete_iff [of node drainConfig s False] quiet unfolding no_workload_def by auto
  qed (use quiet p(2) in \<open>unfold no_workload_def, blast\<close>)
qed

text \<open>It puts a node back in service only when the update the node was told is done.\<close>

lemma handler_holds_node:
  assumes run: "ProcessNodeUpdate c pool node target t r now s = (res, s')"
    and nd: "nodes s k = Some nd" "nodes s' k = Some nd'" "node_Unschedulable nd"
    and open_update: "k = node_Name node \<Longrightarrow> desired_of node = target \<Longrightarrow> in_flight node"
  shows "node_Unschedulable nd'"
proof (rule ccontr)
  assume free: "\<not> node_Unschedulable nd'"
  then have "view node_Unschedulable (nodes s') k \<noteq> view node_Unschedulable (nodes s) k"
    using nd by (simp add: view_def)
  from ProcessNodeUpdate_schedulable [OF run this] free nd(2)
  have "k = node_Name node" "desired_of node = target" "ShouldUncordon node target"
    by (auto simp: view_def desired_of_def split: if_splits)
  then show False
    using open_update by (auto simp: in_flight_def current_of_def ShouldUncordon_def Let_def split: if_splits)
qed

text \<open>It changes a desired revision only where the snapshot has another one, or on a new node.\<close>

lemma handler_desire:
  assumes run: "ProcessNodeUpdate c pool node target t r now s = (res, s')"
    and diff: "view desired_of (nodes s') k \<noteq> view desired_of (nodes s) k"
    and old: "\<not> (isNewNode node \<and> pst_LastSuccessfulRevision (pool_Status pool) \<noteq> [])"
  shows "desired_of node \<noteq> target"
  using run
proof (cases rule: ProcessNodeUpdate_cases)
  case (uncordon s1 e)
  then show ?thesis
    using diff UncordonNode_view [OF _ _ uncordon(5), of desired_of] IsDrainComplete_view [OF uncordon(2)] by simp
next
  case (cordon e)
  then show ?thesis using diff CordonNode_view [OF _ _ cordon(2), of desired_of] by simp
next
  case (drain s1 e s2)
  have "view desired_of (nodes s') = view desired_of (nodes s2)"
    using drain(4) HandleDrainRetry_view [of desired_of node t r now s2] by (metis keeps_drain_fields(1) prod.collapse)
  then show ?thesis
    using diff DrainNode_view [OF _ drain(3), of desired_of] IsDrainComplete_view [OF drain(2)] by simp
next
  case (unknown err)
  then show ?thesis using diff IsDrainComplete_view [OF unknown(2)] by simp
next
  case await
  then show ?thesis using diff IsDrainComplete_view [OF await(2)] by simp
next
  case (desire s1 e)
  then show ?thesis by (simp add: desired_of_def)
qed (use old in blast)

text \<open>A call of the handler keeps the invariant.\<close>

lemma handler_keeps_service:
  assumes inv: "out_of_service nodes pods (s, D, L)"
    and run: "ProcessNodeUpdate c pool node target t r now s = (res, s')"
    and D': "D' = (if blind pool node (nodes s (node_Name node)) then insert (node_Name node) D else D)"
  shows "out_of_service nodes pods (s', D', L)"
  unfolding out_of_service_def prod.case
proof (intro allI impI conjI)
  fix k nd'
  assume nd': "nodes s' k = Some nd'" "k \<notin> D'"
  obtain nd where nd: "nodes s k = Some nd" "current_of nd' = current_of nd" "marked_ok nd \<longrightarrow> marked_ok nd'"
    using ProcessNodeUpdate_rel [OF handler_keeps_current run, of k] nd'(1) by (auto simp: option_rel_Some2)
  have I: "marked_ok nd" "in_flight nd \<Longrightarrow> node_Unschedulable nd \<and> (k \<notin> L \<longrightarrow> no_workload (pods s) k)"
    using inv nd(1) nd'(2) D' by (auto simp: out_of_service_def split: if_splits)
  show "marked_ok nd'" using nd(3) I(1) by blast
  have sees: "\<not> (isNewNode node \<and> pst_LastSuccessfulRevision (pool_Status pool) \<noteq> [])"
    "IsNodeCordoned node \<Longrightarrow> IsNodeCordoned nd" "in_flight nd \<Longrightarrow> in_flight node" if "k = node_Name node"
    using that nd(1) nd'(2) D' by (auto simp: blind_def split: if_splits)
  note quiet = handler_keeps_quiet [OF run] and held = handler_holds_node [OF run nd(1) nd'(1)]
  assume flight: "in_flight nd'"
  have "node_Unschedulable nd' \<and> (k \<notin> L \<longrightarrow> no_workload (pods s') k)"
  proof (cases "desired_of nd' = desired_of nd")
    case True
    then have "in_flight nd" using flight nd(2) by (simp add: in_flight_def)
    then show ?thesis using I(2) sees(3) held quiet by blast
  next
    case False
    then have diff: "view desired_of (nodes s') k \<noteq> view desired_of (nodes s) k" using nd(1) nd'(1) by (simp add: view_def)
    note D = ProcessNodeUpdate_desired [OF run diff]
    have k: "k = node_Name node" using D by blast
    have cordoned: "IsNodeCordoned node" "\<exists>s1. IsDrainComplete c node drainConfig s = (Inr True, s1)"
      using D sees(1) [OF k] by auto
    have "node_Unschedulable nd" using cordoned(1) sees(2) [OF k] I(1) by (simp add: marked_ok_def)
    moreover have "no_workload (pods s) k"
      using cordoned(2) IsDrainComplete_none_left k unfolding no_workload_def by metis
    ultimately show ?thesis using held quiet handler_desire [OF run diff sees(1) [OF k]] by blast
  qed
  then show "node_Unschedulable nd'" "k \<notin> L \<Longrightarrow> no_workload (pods s') k" by blast+
qed

lemma others_keep_service:
  assumes inv: "out_of_service nodes pods (s, D, L)"
    and D': "D' = D \<union> {k. \<exists>new. nodes s' k = Some new \<and> \<not> undisturbed (nodes s k) new}"
    and L': "L' = L \<union> {k. view node_Unschedulable (nodes s) k = Some True \<and> no_workload (pods s) k
                \<and> \<not> no_workload (pods s') k}"
  shows "out_of_service nodes pods (s', D', L')"
  unfolding out_of_service_def prod.case
proof (intro allI impI)
  fix k nd'
  assume nd': "nodes s' k = Some nd'" "k \<notin> D'"
  then have u: "undisturbed (nodes s k) nd'" "k \<notin> D" using D' by auto
  show "marked_ok nd' \<and> (in_flight nd' \<longrightarrow> node_Unschedulable nd' \<and> (k \<notin> L' \<longrightarrow> no_workload (pods s') k))"
  proof (cases "nodes s k")
    case None
    then show ?thesis using u(1) by (simp add: undisturbed_def)
  next
    case (Some nd)
    then have "marked_ok nd" "in_flight nd \<Longrightarrow> node_Unschedulable nd \<and> (k \<notin> L \<longrightarrow> no_workload (pods s) k)"
      using inv u(2) by (auto simp: out_of_service_def)
    then show ?thesis using u(1) Some L' by (auto simp: undisturbed_def view_def)
  qed
qed

lemma system_step_service:
  assumes "system_step c nodes pods x y" and "out_of_service nodes pods x"
  shows "out_of_service nodes pods y"
  using assms
proof (induction rule: system_step.induct)
  case (controller pool node target t r now s res s' D' D L)
  then show ?case using handler_keeps_service by blast
next
  case (others D' D s' s L' L)
  then show ?case using others_keep_service by blast
qed

end

text \<open>
  C2: A node is out of service while it is being updated. Start from any cluster where the
  operator's marks are on unschedulable nodes and no update is in flight, and let calls of the
  handler, for any pools, targets and snapshots, and any changes of nodes and pods by others
  follow in any order, each call of the handler being one step. Then every node that has a
  desired revision which it does not report is unschedulable, unless it was disturbed: the
  handler was called for it as a node that joins a rolled-out pool, or with a snapshot that
  still shows the operator's cordon when it is gone or does not show the update in flight, or
  others marked the node, brought an update in flight or put the node back in service. And in
  the list of pods the controller reads it has no evictable pod, unless one showed up there
  after the node had become unschedulable and empty.
\<close>

theorem updating_nodes_out_of_service:
  assumes "evict_api c nodes pods"
    and "(system_step c nodes pods)\<^sup>*\<^sup>* (start, {}, {}) (s, disturbed, late)"
    and "\<And>k nd. nodes start k = Some nd \<Longrightarrow> marked_ok nd \<and> \<not> in_flight nd"
    and "nodes s k = Some nd" and "in_flight nd" and "k \<notin> disturbed"
  shows "node_Unschedulable nd \<and> (k \<notin> late \<longrightarrow> no_workload (pods s) k)"
proof -
  have "out_of_service nodes pods (start, {}, {})" using assms(3) by (auto simp: out_of_service_def)
  with assms(2) have "out_of_service nodes pods (s, disturbed, late)"
    by (induction rule: rtranclp_induct) (auto intro: evict_api.system_step_service [OF assms(1)])
  then show ?thesis using assms(4-6) by (auto simp: out_of_service_def)
qed

abbreviation ex_desired_run :: "NodeUpdateResult \<times> cluster" where
  "ex_desired_run \<equiv> ProcessNodeUpdate mem_client (ex_pool None) ex_cordoned ''r2'' 0 0 0 (ex_cluster [ex_cordoned] [])"

theorem updating_nodes_out_of_service_witness:
  "\<exists>nd. mem_nodes (snd ex_desired_run) ''w1'' = Some nd \<and> in_flight nd \<and> node_Unschedulable nd
     \<and> no_workload (mem_pods (snd ex_desired_run)) ''w1''"
proof -
  let ?s = "ex_cluster [ex_cordoned] []"
  have new: "\<not> isNewNode ex_cordoned" by (simp add: ex_cordoned_def ex_node_def isNewNode_def)
  have cur: "mem_nodes ?s (node_Name ex_cordoned) = Some ex_cordoned"
    by (simp add: ex_cluster_def mem_nodes_def)
  define s1 where "s1 = snd ex_desired_run"
  have step: "ex_desired_run = (fst ex_desired_run, s1)" by (simp only: s1_def prod.collapse)
  have desired: "view desired_of (mem_nodes s1) ''w1'' = Some ''r2''" unfolding s1_def by (rule ex_set_desired_run(1))
  have "system_step mem_client mem_nodes mem_pods (?s, {}, {}) (s1, {}, {})"
    by (rule system_step.controller [OF step]) (simp add: blind_def cur new)
  then have run: "(system_step mem_client mem_nodes mem_pods)\<^sup>*\<^sup>* (?s, {}, {}) (s1, {}, {})" by blast
  have start: "marked_ok nd \<and> \<not> in_flight nd" if "mem_nodes ?s k = Some nd" for k nd
    using that by (auto simp: ex_cluster_def mem_nodes_def ex_cordoned_def ex_node_def marked_ok_def in_flight_def desired_of_def
        annotation_defs map_get_def split: if_splits)
  have w1: "mem_nodes ?s ''w1'' = Some ex_cordoned" using cur by (simp add: ex_cordoned_def ex_node_def)
  have cordoned: "current_of ex_cordoned = []"
    by (simp add: current_of_def ex_cordoned_def ex_node_def annotation_defs map_get_def)
  obtain nd where nd: "mem_nodes s1 ''w1'' = Some nd" "current_of nd = []"
    using mem_evict.ProcessNodeUpdate_rel [OF handler_keeps_current step, of "''w1''"] w1 cordoned
    by (auto simp: option_rel_Some1)
  then have fl: "in_flight nd" using desired by (simp add: in_flight_def view_def)
  have "node_Unschedulable nd \<and> (''w1'' \<notin> {} \<longrightarrow> no_workload (mem_pods s1) ''w1'')"
    by (rule updating_nodes_out_of_service [OF mem_evict.evict_api_axioms run _ nd(1) fl]) (simp_all add: start)
  then show ?thesis unfolding s1_def [symmetric] using nd(1) fl by blast
qed

text \<open>
  The guard holds for the snapshot only. The handler decides on the node it listed and its
  write goes to the node the server has. With a snapshot from before the last uncordon and a
  new target, the desired revision of a node that is back in service and schedulable is
  changed, without cordon or drain.
\<close>

theorem stale_snapshot_updates_running_node:
  "\<exists>s cur pool. mem_nodes s (node_Name ex_finished) = Some cur
     \<and> \<not> node_Unschedulable cur \<and> \<not> IsNodeCordoned cur \<and> \<not> in_flight cur
     \<and> view desired_of (mem_nodes (snd (ProcessNodeUpdate mem_client pool ex_finished ''r3'' 0 0 0 s))) (node_Name cur) = Some ''r3''
     \<and> view node_Unschedulable (mem_nodes (snd (ProcessNodeUpdate mem_client pool ex_finished ''r3'' 0 0 0 s))) (node_Name cur) = Some False"
proof -
  let ?cur = "(the (uncordon_change ex_finished))\<lparr>node_ResourceVersion := 8\<rparr>"
  show ?thesis
    by (rule exI [of _ "ex_cluster [?cur] []"], rule exI [of _ ?cur], rule exI [of _ "ex_pool None"])
      (simp add: ex_finished_def ex_rollout ex_cluster_def mem_defs node_update_defs drain_defs cordon_defs
        desired_of_def current_of_def in_flight_def view_def annotation_defs map_get_def Let_def)
qed

end
