(* ===== verification/Node_Life_Cycle.thy ===== *)
theory Node_Life_Cycle
  imports Rollout_System
begin

text \<open>
  The life cycle of one node under repeated calls of \<open>ProcessNodeUpdate\<close>, each on the node as
  the server has it then: that a bounded number of passes takes the node out of service,
  empties it and tells it the target, that nothing but the agent's report is awaited from then
  on, and that one pass after the report the node is back in service with no mark left. The
  locale \<open>live_api\<close> says what this needs of the API.
\<close>

section \<open>An API that answers\<close>

text \<open>
  Reads are current, writes of a current node and lists succeed, and an eviction deletes its pod
  unless a disruption budget protects it, or reports that there is none (\<open>blocked\<close>, which no call changes).
\<close>

locale live_api = evict_api c nodes pods + fresh_node_api c nodes
  for c :: "'s client" and nodes pods +
  fixes blocked :: "'s \<Rightarrow> (string \<times> string) set"
  assumes get_current: "nodes s n = Some nd \<Longrightarrow> \<exists>s'. GetNode c s n = (Inr nd, s')"
    and update_current: "nodes s (node_Name nd) = Some cur \<Longrightarrow>
      node_ResourceVersion cur = node_ResourceVersion nd \<Longrightarrow> \<exists>s'. UpdateNode c s nd = (None, s')"
    and list_answers: "\<exists>ps s'. ListPods c s n = (Inr ps, s')"
    and pods_keyed: "pods s q = Some p \<Longrightarrow> pod_key p = q"
    and evict_unblocked: "pods s (pod_key p) = Some p \<Longrightarrow> pod_key p \<notin> blocked s \<Longrightarrow>
      \<exists>s'. CreateEviction c s p g = (None, s') \<and> pods s' (pod_key p) = None"
    and evict_missing: "pods s (pod_key p) = None \<Longrightarrow>
      \<exists>err s'. CreateEviction c s p g = (Some err, s') \<and> IsNotFound err \<and> \<not> IsTooManyRequests err"
    and blocked_frame: "blocked (snd (GetNode c s n)) = blocked s" "blocked (snd (UpdateNode c s nd)) = blocked s"
      "blocked (snd (ListPods c s n)) = blocked s" "blocked (snd (CreateEviction c s p g)) = blocked s"

lemma attempts_success: "attempts f s r \<Longrightarrow> fst (f s) = None \<Longrightarrow> r = f s"
  by (induction rule: attempts.induct) auto

text \<open>The pods a drain of the node has to evict are not protected.\<close>

definition unprotected :: "(string \<times> string \<rightharpoonup> Pod) \<Rightarrow> (string \<times> string) set \<Rightarrow> string \<Rightarrow> bool" where
  "unprotected ps B k \<longleftrightarrow>
     (\<forall>q p. ps q = Some p \<longrightarrow> pod_NodeName p = k \<longrightarrow> evictable drainConfig p \<longrightarrow> q \<notin> B)"

context live_api
begin

lemma named: "nodes s n = Some nd \<Longrightarrow> node_Name nd = n"
  using get_current get_name by blast

lemma live_write:
  assumes "nodes s n = Some cur" and f: "keeps_meta f"
    and run: "RetryOnConflict c (read_modify_write c n f) s = (e, s')"
  shows "e = None" "pods s' = pods s" "blocked s' = blocked s"
    "\<exists>v. nodes s' = (case f cur of None \<Rightarrow> nodes s | Some new \<Rightarrow> (nodes s)(n \<mapsto> new\<lparr>node_ResourceVersion := v\<rparr>))"
proof -
  let ?f = "read_modify_write c n f"
  obtain s1 where g: "GetNode c s n = (Inr cur, s1)" using get_current [OF assms(1)] by blast
  have n1: "nodes s1 = nodes s" using get_frame [OF g] .
  have b1: "blocked s1 = blocked s" using blocked_frame(1) [of s n] g by simp
  have meta: "node_Name new = n" "node_ResourceVersion new = node_ResourceVersion cur" if "f cur = Some new" for new
    using f that named [OF assms(1)] by (auto simp: keeps_meta_def)
  have ok: "fst (?f s) = None"
    using update_current [of s1] n1 assms(1) meta by (fastforce simp: read_modify_write_def g split: option.split)
  have "(e, s') = ?f s"
    using attempts_success [OF retry_attempts [of ?f s] ok] run by simp
  then show e: "e = None" and "pods s' = pods s"
    using ok rmw_pods [of n f s] by (metis fst_conv, metis snd_conv)
  show "blocked s' = blocked s"
    using \<open>(e, s') = ?f s\<close> b1 blocked_frame(2) [of s1]
    by (cases "f cur") (simp_all add: read_modify_write_def g, metis snd_conv)
  obtain c0 new v where w: "nodes s n = Some c0"
    "f c0 = None \<and> nodes s' = nodes s \<or> f c0 = Some new \<and> nodes s' = (nodes s)(n \<mapsto> new\<lparr>node_ResourceVersion := v\<rparr>)"
    using write_done [OF retry_write [OF f run, unfolded e]] by blast
  then show "\<exists>v. nodes s' = (case f cur of None \<Rightarrow> nodes s | Some new \<Rightarrow> (nodes s)(n \<mapsto> new\<lparr>node_ResourceVersion := v\<rparr>))"
    using assms(1) by (auto split: option.split)
qed

text \<open>Setting an annotation: it has the value, everything else of the node is as before.\<close>

lemma live_annotate:
  assumes "nodes s k = Some nd" and "node_Name node = k" and run: "SetNodeAnnotation c node key v s = (e, s')"
  shows "e = None \<and> pods s' = pods s \<and> blocked s' = blocked s \<and>
    (\<exists>nd'. nodes s' k = Some nd' \<and> map_get (node_Annotations nd') key = v \<and>
      (\<forall>x. x \<noteq> key \<longrightarrow> node_Annotations nd' x = node_Annotations nd x) \<and>
      node_Unschedulable nd' = node_Unschedulable nd)"
proof -
  note w = live_write [OF assms(1) _ run [unfolded SetNodeAnnotation_def assms(2)]]
  obtain u where "nodes s' = (case annotate_change key v nd of None \<Rightarrow> nodes s
      | Some new \<Rightarrow> (nodes s)(k \<mapsto> new\<lparr>node_ResourceVersion := u\<rparr>))"
    using w(4) by auto
  then show ?thesis
    using w(1-3) assms(1) by (auto simp: annotate_change_def map_get_def split: if_splits)
qed

end

section \<open>The stages of an update\<close>

text \<open>
  How many passes are left until only the agent's report is awaited, for a node, the pool it is
  in and the target: the first pass over a node that joins a rolled-out pool, the cordon, the
  drain, the desired revision.
\<close>

definition stage_left :: "MachineConfigPool \<Rightarrow> string \<Rightarrow> Node \<Rightarrow> bool \<Rightarrow> nat" where
  "stage_left pool target nd quiet =
     (if isNewNode nd \<and> pst_LastSuccessfulRevision (pool_Status pool) \<noteq> [] then 4
      else if \<not> IsNodeCordoned nd then 3 else if \<not> quiet then 2 else if desired_of nd \<noteq> target then 1 else 0)"

text \<open>A pass of the controller over the node \<open>k\<close> as it is then, with the drain's settings and the time.\<close>

definition pass ::
  "'s client \<Rightarrow> ('s \<Rightarrow> string \<rightharpoonup> Node) \<Rightarrow> MachineConfigPool \<Rightarrow> string \<Rightarrow> string \<Rightarrow> int \<times> int \<times> time \<Rightarrow> 's \<Rightarrow> 's" where
  "pass c nodes pool target k x s =
     (case nodes s k of
        None \<Rightarrow> s
      | Some nd \<Rightarrow> snd (ProcessNodeUpdate c pool nd target (fst x) (fst (snd x)) (snd (snd x)) s))"

primrec passes ::
  "'s client \<Rightarrow> ('s \<Rightarrow> string \<rightharpoonup> Node) \<Rightarrow> MachineConfigPool \<Rightarrow> string \<Rightarrow> string \<Rightarrow> (int \<times> int \<times> time) list \<Rightarrow> 's \<Rightarrow> 's" where
  "passes c nodes pool target k [] s = s"
| "passes c nodes pool target k (x # xs) s = passes c nodes pool target k xs (pass c nodes pool target k x s)"

context live_api
begin

lemma live_desired:
  assumes nd: "nodes s k = Some nd" "node_Name node = k"
    and run: "set_desired c pool node target now s = (e, s')"
  shows "e = None \<and> pods s' = pods s \<and> blocked s' = blocked s \<and>
    (\<exists>nd'. nodes s' k = Some nd' \<and> desired_of nd' = target \<and>
      GetAnnotation (node_Annotations nd') Pool = pool_Name pool \<and>
      (\<forall>x. x \<notin> {DesiredRevision, DesiredRevisionSetAt, Pool} \<longrightarrow> node_Annotations nd' x = node_Annotations nd x) \<and>
      node_Unschedulable nd' = node_Unschedulable nd)"
proof -
  obtain e1 s1 where 1: "SetNodeAnnotation c node DesiredRevision target s = (e1, s1)" by fastforce
  obtain e2 s2 where 2: "SetNodeAnnotation c node DesiredRevisionSetAt (Format_RFC3339 now) s1 = (e2, s2)" by fastforce
  obtain e3 s3 where 3: "SetNodeAnnotation c node Pool (pool_Name pool) s2 = (e3, s3)" by fastforce
  note A1 = live_annotate [OF nd 1]
  then obtain n1 where n1: "nodes s1 k = Some n1" "map_get (node_Annotations n1) DesiredRevision = target"
    "\<forall>x. x \<noteq> DesiredRevision \<longrightarrow> node_Annotations n1 x = node_Annotations nd x"
    "node_Unschedulable n1 = node_Unschedulable nd" by blast
  note A2 = live_annotate [OF n1(1) nd(2) 2]
  then obtain n2 where n2: "nodes s2 k = Some n2"
    "\<forall>x. x \<noteq> DesiredRevisionSetAt \<longrightarrow> node_Annotations n2 x = node_Annotations n1 x"
    "node_Unschedulable n2 = node_Unschedulable n1" by blast
  note A3 = live_annotate [OF n2(1) nd(2) 3]
  then obtain n3 where n3: "nodes s3 k = Some n3" "map_get (node_Annotations n3) Pool = pool_Name pool"
    "\<forall>x. x \<noteq> Pool \<longrightarrow> node_Annotations n3 x = node_Annotations n2 x"
    "node_Unschedulable n3 = node_Unschedulable n2" by blast
  have s': "e = None" "s' = s3" using run A1 by (auto simp: set_desired_def 1 2 3 Let_def)
  have "DesiredRevision \<noteq> DesiredRevisionSetAt" "DesiredRevision \<noteq> Pool" by (simp_all add: key_defs)
  then have "desired_of n3 = target" using n1(2) n2(2) n3(3) by (simp add: desired_of_def GetAnnotation_def map_get_def)
  then show ?thesis
    using s' A1 A2 A3 n1 n2 n3 by (auto simp: GetAnnotation_def)
qed

lemma live_evict:
  assumes "pods s (pod_key p) \<in> {None, Some p}" and "pod_key p \<notin> blocked s"
    and "EvictPod c p g s = (r, s')"
  shows "r = None \<and> pods s' (pod_key p) = None \<and> blocked s' = blocked s \<and>
    (\<forall>q. q \<noteq> pod_key p \<longrightarrow> pods s' q = pods s q)"
proof -
  let ?g = "if g \<ge> 0 then Some g else None"
  obtain e where e: "CreateEviction c s p ?g = (e, s')"
    using assms(3) by (auto simp: EvictPod_def split: prod.splits option.splits if_splits)
  have "r = None \<and> pods s' (pod_key p) = None"
  proof (cases "pods s (pod_key p)")
    case None
    then have "pods s' (pod_key p) = None" using evict_stays [OF e] by (metis not_None_eq)
    then show ?thesis
      using evict_missing [OF None, of ?g] e assms(3) by (auto simp: EvictPod_def)
  next
    case (Some x)
    then show ?thesis
      using evict_unblocked [of s p ?g] assms(1,2,3) e by (auto simp: EvictPod_def)
  qed
  then show ?thesis
    using blocked_frame(4) [of s p ?g] e evict_frame [OF e] by simp
qed

lemma live_evict_all:
  assumes "evict_all c g ps s = (errs, s')"
    and "\<forall>p\<in>set ps. pods s (pod_key p) \<in> {None, Some p} \<and> pod_key p \<notin> blocked s"
  shows "errs = [] \<and> (\<forall>p\<in>set ps. pods s' (pod_key p) = None) \<and> blocked s' = blocked s"
  using assms
proof (induction ps arbitrary: s errs)
  case (Cons p ps)
  obtain r s1 where ev: "EvictPod c p g s = (r, s1)" by fastforce
  have E: "r = None" "pods s1 (pod_key p) = None" "blocked s1 = blocked s"
    "\<And>q. q \<noteq> pod_key p \<Longrightarrow> pods s1 q = pods s q"
    using live_evict [OF _ _ ev] Cons.prems(2) by (simp_all del: split_paired_All)
  obtain errs1 s2 where a: "evict_all c g ps s1 = (errs1, s2)" by fastforce
  have s': "errs = errs1" "s' = s2" using Cons.prems(1) E(1) by (simp_all add: ev a)
  have "pods s1 (pod_key q) \<in> {None, Some q} \<and> pod_key q \<notin> blocked s1" if "q \<in> set ps" for q
  proof (cases "pod_key q = pod_key p")
    case True
    then show ?thesis using E(2,3) Cons.prems(2) by (simp only: list.set_intros simp_thms insertI1)
  next
    case False
    then show ?thesis using E(3) E(4) [OF False] Cons.prems(2) that by simp
  qed
  then have IH: "errs1 = []" "\<forall>q\<in>set ps. pods s2 (pod_key q) = None" "blocked s2 = blocked s1"
    using Cons.IH [OF a [folded s'(2)]] s'(2) by blast+
  have "pods s2 (pod_key p) = None"
    using evict_all_stays [OF a] E(2) by (metis not_None_eq)
  then show ?case using IH s' E(3) by simp
qed simp

text \<open>A drain empties the node, and writes at most its start time to it.\<close>

lemma live_drain:
  assumes nd: "nodes s k = Some nd" "node_Name node = k" and free: "unprotected (pods s) (blocked s) k"
    and run: "DrainNode c node drainConfig now s = (e, s')"
  shows "e = None \<and> no_workload (pods s') k \<and> blocked s' = blocked s \<and>
    (\<exists>nd'. nodes s' k = Some nd' \<and> (\<forall>x. x \<noteq> DrainStartedAt \<longrightarrow> node_Annotations nd' x = node_Annotations nd x) \<and>
      node_Unschedulable nd' = node_Unschedulable nd)"
proof -
  define a where "a = (if GetAnnotation (node_Annotations node) DrainStartedAt = []
    then SetNodeAnnotation c node DrainStartedAt (Format_RFC3339 now) s else (None, s))"
  obtain r1 s1 where a1: "a = (r1, s1)" by (cases a)
  have A: "r1 = None" "pods s1 = pods s" "blocked s1 = blocked s"
    "\<exists>nd'. nodes s1 k = Some nd' \<and> (\<forall>x. x \<noteq> DrainStartedAt \<longrightarrow> node_Annotations nd' x = node_Annotations nd x) \<and>
      node_Unschedulable nd' = node_Unschedulable nd"
    using a1 nd live_annotate [OF nd, of DrainStartedAt "Format_RFC3339 now" r1 s1] by (auto simp: a_def split: if_splits)
  obtain ps s2 where l: "ListPods c s1 k = (Inr ps, s2)" using list_answers by blast
  have L: "pods s2 = pods s" "nodes s2 = nodes s1" "blocked s2 = blocked s"
    using list_frame [OF l] A blocked_frame(3) [of s1 k] l by simp_all
  let ?ps = "FilterEvictablePods ps drainConfig"
  obtain errs s3 where ev: "evict_all c (dc_GracePeriod drainConfig) ?ps s2 = (errs, s3)" by fastforce
  have listed: "pods s2 (pod_key p) = Some p \<and> pod_key p \<notin> blocked s2" if "p \<in> set ?ps" for p
    using that list_pods [OF l, of p] A(2) L free by (auto simp: FilterEvictablePods_def unprotected_def)
  note E = live_evict_all [OF ev] and F = evict_all_frame [OF ev]
  have s': "e = None \<and> s' = s3"
  proof (cases "?ps = []")
    case True
    then show ?thesis using run ev unfolding DrainNode_def a_def [symmetric] a1 A(1) nd(2) by (simp add: l Let_def)
  next
    case False
    then show ?thesis
      using run ev E listed unfolding DrainNode_def a_def [symmetric] a1 A(1) nd(2) by (simp add: l Let_def)
  qed
  have "\<not> evictable drainConfig p" if p: "pods s3 q = Some p" "pod_NodeName p = k" for q p
  proof
    assume ev: "evictable drainConfig p"
    show False
    proof (cases "q \<in> pod_key ` set ?ps")
      case True
      then show False using E listed p(1) by fastforce
    next
      case False
      then have "pods s1 q = Some p" using F p(1) L(1) A(2) by (simp del: split_paired_All)
      then have "p \<in> set ps" using list_complete [OF l] p(2) by blast
      then have "p \<in> set ?ps" using ev by (simp add: FilterEvictablePods_def)
      then show False using False pods_keyed [OF p(1)] by blast
    qed
  qed
  then show ?thesis using s' E listed F L A(4) by (simp add: no_workload_def)
qed

lemma live_complete:
  assumes "node_Name node = k"
  shows "\<exists>s'. IsDrainComplete c node drainConfig s = (Inr (no_workload (pods s) k), s') \<and>
    nodes s' = nodes s \<and> pods s' = pods s \<and> blocked s' = blocked s"
proof -
  obtain ps s' where l: "ListPods c s k = (Inr ps, s')" using list_answers by blast
  then obtain b where d: "IsDrainComplete c node drainConfig s = (Inr b, s')"
    using assms by (simp add: IsDrainComplete_def)
  have "b = no_workload (pods s) k"
    using IsDrainComplete_iff [OF d] assms unfolding no_workload_def by simp
  then show ?thesis
    using d list_frame [OF l] blocked_frame(3) [of s k] l by auto
qed

text \<open>A cordon marks the node and makes it unschedulable.\<close>

lemma live_cordon:
  assumes nd: "nodes s k = Some nd" "node_Name node = k" and run: "CordonNode c node s = (e, s')"
  shows "pods s' = pods s \<and> blocked s' = blocked s \<and>
    (\<exists>nd'. nodes s' k = Some nd' \<and> IsNodeCordoned nd' \<and> node_Unschedulable nd' \<and>
      (\<forall>x. x \<noteq> Cordoned \<longrightarrow> node_Annotations nd' x = node_Annotations nd x))"
proof -
  note w = live_write [OF nd(1) _ run [unfolded CordonNode_def nd(2)]]
  obtain v where "nodes s' = (case cordon_change nd of None \<Rightarrow> nodes s
      | Some new \<Rightarrow> (nodes s)(k \<mapsto> new\<lparr>node_ResourceVersion := v\<rparr>))"
    using w(4) by auto
  then show ?thesis
    using w(2,3) nd(1)
    by (auto simp: cordon_change_def IsNodeCordoned_def annotation_defs value_defs split: if_splits)
qed

text \<open>An uncordon makes it schedulable and removes the marks of the operator.\<close>

lemma live_uncordon:
  assumes nd: "nodes s k = Some nd" "node_Name node = k" "IsNodeCordoned nd"
    and run: "UncordonNode c node s = (e, s')"
  shows "\<exists>nd'. nodes s' k = Some nd' \<and> \<not> node_Unschedulable nd' \<and>
    node_Annotations nd' = (node_Annotations nd)(Cordoned := None, DrainStartedAt := None, DrainRetryCount := None)"
proof -
  note w = live_write [OF nd(1) _ run [unfolded UncordonNode_def nd(2)]]
  obtain v where "nodes s' = (case uncordon_change nd of None \<Rightarrow> nodes s
      | Some new \<Rightarrow> (nodes s)(k \<mapsto> new\<lparr>node_ResourceVersion := v\<rparr>))"
    using w(4) by auto
  then show ?thesis using nd(3) by (auto simp: uncordon_change_def IsNodeCordoned_def split: if_splits)
qed

text \<open>A pass over a node that has not reported the target lowers the number of stages left.\<close>

lemma pass_advances:
  assumes nd: "nodes s k = Some nd" and cur: "current_of nd \<noteq> target" and name: "pool_Name pool \<noteq> []"
    and free: "unprotected (pods s) (blocked s) k" and s': "s' = pass c nodes pool target k x s"
  shows "unprotected (pods s') (blocked s') k \<and>
    (\<exists>nd'. nodes s' k = Some nd' \<and> current_of nd' = current_of nd \<and> (marked_ok nd \<longrightarrow> marked_ok nd') \<and>
      stage_left pool target nd' (no_workload (pods s') k) \<le> stage_left pool target nd (no_workload (pods s) k) - 1)"
proof -
  obtain res where run: "ProcessNodeUpdate c pool nd target (fst x) (fst (snd x)) (snd (snd x)) s = (res, s')"
    using s' nd by (cases "ProcessNodeUpdate c pool nd target (fst x) (fst (snd x)) (snd (snd x)) s") (simp add: pass_def)
  have n: "node_Name nd = k" by (rule named [OF nd])
  obtain nd' where nd': "nodes s' k = Some nd'" "current_of nd' = current_of nd" "marked_ok nd \<longrightarrow> marked_ok nd'"
    using ProcessNodeUpdate_rel [OF handler_keeps_current run, of k] nd by (auto simp: option_rel_Some1)
  obtain u where u: "IsDrainComplete c nd drainConfig s = (Inr (no_workload (pods s) k), u)"
    "nodes u = nodes s" "pods u = pods s" "blocked u = blocked s"
    using live_complete [OF n] by blast
  have "unprotected (pods s') (blocked s') k \<and>
      stage_left pool target nd' (no_workload (pods s') k) \<le> stage_left pool target nd (no_workload (pods s) k) - 1"
    using run
  proof (cases rule: ProcessNodeUpdate_cases)
    case (newNode e)
    note D = live_desired [OF nd n newNode(3)]
    then have "\<not> isNewNode nd'" using nd'(1) name by (auto simp: isNewNode_def)
    then show ?thesis using D free newNode by (simp add: stage_left_def)
  next
    case (cordon e)
    note D = live_cordon [OF nd n cordon(2)]
    then have "IsNodeCordoned nd'" using nd'(1) by auto
    then show ?thesis using D free cordon by (auto simp: stage_left_def isNewNode_def IsNodeCordoned_def)
  next
    case (unknown err)
    then show ?thesis using u by simp
  next
    case (drain s1 e s2)
    then have q: "\<not> no_workload (pods s) k" "s1 = u" using u(1) by auto
    note D = live_drain [OF nd [folded u(2)] n free [folded u(3,4)] drain(3) [unfolded q(2)]]
    have s2: "s' = s2"
      using run drain(1) D by (auto simp: ProcessNodeUpdate_def Let_def u(1) q drain(3) [unfolded q(2)]
          isNewNode_def IsNodeCordoned_def)
    then have "node_Annotations nd' Cordoned = node_Annotations nd Cordoned"
      using D nd'(1) by (auto simp: key_defs)
    then have "IsNodeCordoned nd'" using drain(1) by (simp add: IsNodeCordoned_def annotation_defs map_get_def)
    then show ?thesis
      using D s2 drain(1) q(1)
      by (auto simp: stage_left_def isNewNode_def IsNodeCordoned_def unprotected_def no_workload_def)
  next
    case (desire s1 e)
    then have q: "no_workload (pods s) k" "s1 = u" using u(1) by auto
    note D = live_desired [OF nd [folded u(2)] n desire(4) [unfolded q(2)]]
    then have "node_Annotations nd' Cordoned = node_Annotations nd Cordoned" "desired_of nd' = target"
      using nd'(1) by (auto simp: key_defs)
    then show ?thesis
      using D desire(1,3) q(1) u(3,4) free
      by (auto simp: stage_left_def isNewNode_def IsNodeCordoned_def annotation_defs map_get_def desired_of_def)
  next
    case (uncordon s1 e)
    then show ?thesis using cur by (auto simp: ShouldUncordon_def Let_def current_of_def split: if_splits)
  next
    case await
    then have "s' = u" "no_workload (pods s) k" using u(1) by auto
    then show ?thesis
      using u await(1,3) nd nd'(1) free by (auto simp: stage_left_def isNewNode_def IsNodeCordoned_def desired_of_def)
  qed
  then show ?thesis using nd' by blast
qed

lemma passes_advance:
  assumes "nodes s k = Some nd" and "current_of nd \<noteq> target" and "pool_Name pool \<noteq> []"
    and "unprotected (pods s) (blocked s) k" and "s' = passes c nodes pool target k xs s"
  shows "\<exists>nd'. nodes s' k = Some nd' \<and> current_of nd' = current_of nd \<and> (marked_ok nd \<longrightarrow> marked_ok nd') \<and>
      stage_left pool target nd' (no_workload (pods s') k) \<le> stage_left pool target nd (no_workload (pods s) k) - length xs"
  using assms
proof (induction xs arbitrary: s nd)
  case Nil
  then show ?case by simp
next
  case (Cons x xs)
  let ?s1 = "pass c nodes pool target k x s"
  obtain n1 where n1: "unprotected (pods ?s1) (blocked ?s1) k" "nodes ?s1 k = Some n1" "current_of n1 = current_of nd"
    "marked_ok nd \<longrightarrow> marked_ok n1"
    "stage_left pool target n1 (no_workload (pods ?s1) k) \<le> stage_left pool target nd (no_workload (pods s) k) - 1"
    using pass_advances [OF Cons.prems(1-4) refl] by blast
  have "current_of n1 \<noteq> target" using n1(3) Cons.prems(2) by simp
  from Cons.IH [OF n1(2) this Cons.prems(3) n1(1)] Cons.prems(5) show ?case
    using n1(3-5) by fastforce
qed

text \<open>One pass after the report the node is back in service.\<close>

lemma pass_after_report:
  assumes nd: "nodes s k = Some nd" and quiet: "no_workload (pods s) k" and crd: "IsNodeCordoned nd"
    and rep: "desired_of nd = target" "current_of nd = target"
      "GetAnnotation (node_Annotations nd) AgentState = StateDone"
  shows "\<exists>nd'. nodes (pass c nodes pool target k x s) k = Some nd' \<and> \<not> node_Unschedulable nd' \<and>
    node_Annotations nd' = (node_Annotations nd)(Cordoned := None, DrainStartedAt := None, DrainRetryCount := None)"
proof -
  have n: "node_Name nd = k" by (rule named [OF nd])
  obtain u where u: "IsDrainComplete c nd drainConfig s = (Inr True, u)" "nodes u = nodes s"
    using live_complete [OF n, of s] quiet by auto
  obtain e v where w: "UncordonNode c nd u = (e, v)" by fastforce
  have "pass c nodes pool target k x s = v"
    using nd crd u rep w by (auto simp: pass_def ProcessNodeUpdate_def Let_def isNewNode_def IsNodeCordoned_def
        ShouldUncordon_def desired_of_def current_of_def split: option.splits)
  then show ?thesis using live_uncordon [OF nd [folded u(2)] n crd w] by simp
qed

end

interpretation mem_live: live_api mem_client mem_nodes mem_pods "\<lambda>s. set (cl_blocked s)"
proof (intro live_api.intro live_api_axioms.intro)
  show "evict_api mem_client mem_nodes mem_pods" by (rule mem_evict.evict_api_axioms)
  show "fresh_node_api mem_client mem_nodes" by (rule mem.fresh_node_api_axioms)
  show "pod_key p = q" if "mem_pods s q = Some p" for s q p using mem_pods_Some [OF that] by blast
qed (auto simp: mem_client_def mem_GetNode_def mem_UpdateNode_def mem_ListPods_def mem_CreateEviction_def
    mem_pods_def delete_conv not_found_def error_defs split: option.splits if_splits)

section \<open>Properties\<close>


text \<open>
  C39: A node that joins a rolled-out pool is spared the drain in the first pass only. On an API
  that answers, the first pass over a new node gives it the desired revision and the pool and
  leaves it schedulable and its pods alone; unless it is paused, the controller then counts it
  as in progress. If its agent has not reported the revision by the next pass, that pass cordons
  the node and makes it unschedulable, like any other node.
\<close>

theorem new_node_cordoned_next_pass:
  assumes "live_api c nodes pods blocked" and "nodes s k = Some nd" and "isNewNode nd"
    and "pst_LastSuccessfulRevision (pool_Status pool) \<noteq> []" and "pool_Name pool \<noteq> []" and "target \<noteq> []"
    and "s1 = pass c nodes pool target k x s" and "s2 = pass c nodes pool target k y s1"
  shows "\<exists>nd1 nd2. nodes s1 k = Some nd1 \<and> desired_of nd1 = target \<and>
    GetAnnotation (node_Annotations nd1) Pool = pool_Name pool \<and> \<not> node_Unschedulable nd1 \<and> pods s1 = pods s \<and>
    (\<not> IsNodePaused (node_Annotations nd1) \<longrightarrow> collectNodesInProgress [nd1] target = [nd1]) \<and>
    nodes s2 k = Some nd2 \<and> IsNodeCordoned nd2 \<and> node_Unschedulable nd2 \<and> desired_of nd2 = target"
proof -
  note A = assms(1)
  have n: "node_Name nd = k" by (rule live_api.named [OF A assms(2)])
  obtain e where d: "set_desired c pool nd target (snd (snd x)) s = (e, s1)"
    using assms(2-4,7) by (cases "set_desired c pool nd target (snd (snd x)) s")
      (auto simp: pass_def ProcessNodeUpdate_def split: option.splits)
  obtain nd1 where nd1: "nodes s1 k = Some nd1" "desired_of nd1 = target"
    "GetAnnotation (node_Annotations nd1) Pool = pool_Name pool" "node_Unschedulable nd1 = node_Unschedulable nd"
    "\<And>z. z \<notin> {DesiredRevision, DesiredRevisionSetAt, Pool} \<Longrightarrow> node_Annotations nd1 z = node_Annotations nd z"
    and ps: "pods s1 = pods s"
    using live_api.live_desired [OF A assms(2) n d] by blast
  have new: "\<not> node_Unschedulable nd" "current_of nd = []" "\<not> IsNodeCordoned nd"
    using assms(3) by (simp_all add: isNewNode_def current_of_def IsNodeCordoned_def)
  have keys: "node_Annotations nd1 CurrentRevision = node_Annotations nd CurrentRevision"
    "node_Annotations nd1 Cordoned = node_Annotations nd Cordoned"
    by (rule nd1(5), simp add: key_defs)+
  have cur: "current_of nd1 = []" "\<not> IsNodeCordoned nd1"
    using new(2,3) keys
    by (simp_all add: current_of_def IsNodeCordoned_def GetBoolAnnotation_def GetAnnotation_def map_get_def)
  have old: "\<not> isNewNode nd1" using nd1(3) assms(5) by (simp add: isNewNode_def)
  obtain e2 where c: "CordonNode c nd1 s1 = (e2, s2)"
    using assms(8) nd1(1) old cur(2) by (cases "CordonNode c nd1 s1")
      (auto simp: pass_def ProcessNodeUpdate_def Let_def split: option.splits)
  obtain nd2 where nd2: "nodes s2 k = Some nd2" "IsNodeCordoned nd2" "node_Unschedulable nd2"
    "node_Annotations nd2 DesiredRevision = node_Annotations nd1 DesiredRevision"
    using live_api.live_cordon [OF A nd1(1) live_api.named [OF A nd1(1)] c] by (auto simp: key_defs)
  have "collectNodesInProgress [nd1] target = [nd1]" if "\<not> IsNodePaused (node_Annotations nd1)"
    using that cur(1) nd1(2) assms(6)
    by (simp add: collectNodesInProgress_def IsNodeUnavailable_def Let_def current_of_def desired_of_def GetAnnotation_def)
  then show ?thesis
    using nd1 nd2 ps new(1) by (auto simp: desired_of_def GetAnnotation_def map_get_def)
qed

section \<open>Instances\<close>

definition ex_joining :: Node where "ex_joining = ex_node ''w9'' Map.empty False"

abbreviation ex_rolled_out :: MachineConfigPool where
  "ex_rolled_out \<equiv> (ex_pool None)\<lparr>pool_Status := (pool_Status (ex_pool None))\<lparr>pst_LastSuccessfulRevision := ''r1''\<rparr>\<rparr>"

lemma ex_joining_node:
  "mem_nodes (ex_cluster [ex_joining] []) ''w9'' = Some ex_joining" "isNewNode ex_joining"
  "marked_ok ex_joining" "current_of ex_joining = []"
  by (simp_all add: ex_joining_def ex_node_def ex_cluster_def mem_nodes_def isNewNode_def marked_ok_def IsNodeCordoned_def
      current_of_def annotation_defs map_get_def ValueTrue_def)

lemma ex_rolled_out_parts:
  "pool_Name ex_rolled_out \<noteq> []" "pst_LastSuccessfulRevision (pool_Status ex_rolled_out) \<noteq> []"
  by (simp_all add: ex_pool_def)


theorem new_node_cordoned_next_pass_witness:
  "\<exists>s1 nd1 s2 nd2. mem_nodes s1 ''w9'' = Some nd1 \<and> \<not> node_Unschedulable nd1 \<and>
     s2 = pass mem_client mem_nodes ex_rolled_out ''r1'' ''w9'' (0, 0, 0) s1 \<and>
     mem_nodes s2 ''w9'' = Some nd2 \<and> node_Unschedulable nd2"
  using new_node_cordoned_next_pass [OF mem_live.live_api_axioms ex_joining_node(1,2) ex_rolled_out_parts(2,1) _ refl refl,
      where target = "''r1''" and x = "(0, 0, 0)" and y = "(0, 0, 0)"] by blast

end
