(* ===== verification/Agent_Reports.thy ===== *)
theory Agent_Reports
  imports Agent_Safety Rollout_System
begin

text \<open>
  The agent as a component of the system of \<open>Rollout_System\<close>: an \<open>agent_report\<close> is a change of a
  node by others that does not disturb it there; here it is shown of the agent's code, for the
  events it handles and for its start, that it makes only such changes when the node it saw
  is not behind on the desired revision.
\<close>

section \<open>The annotations an agent writes\<close>

context agent_world
begin

lemma write_others:
  assumes "key \<notin> agent_keys"
  shows "SetState (hd_writer (ag_rebootHandler a)) v s = (e, s') \<Longrightarrow> ann s' key = ann s key"
    "ClearLastError (hd_writer (ag_rebootHandler a)) s = (e, s') \<Longrightarrow> ann s' key = ann s key"
    "SetRebootPending (hd_writer (ag_rebootHandler a)) b s = (e, s') \<Longrightarrow> ann s' key = ann s key"
    "ClearForceReboot (hd_writer (ag_rebootHandler a)) s = (e, s') \<Longrightarrow> ann s' key = ann s key"
    "SetStateWithError (hd_writer (ag_rebootHandler a)) v m s = (e, s') \<Longrightarrow> ann s' key = ann s key"
    "SetDone (hd_writer (ag_rebootHandler a)) v s = (e, s') \<Longrightarrow> ann s' key = ann s key"
  using assms write_effects(1) [of v s e s'] write_effects(4) [of s e s'] write_effects(5) [of s e s'] write_effects(6) [of s e s']
    write_effects(7) [of s e s'] write_effects(8) [of v m s e s'] write_effects(9) [of v s e s']
  by (cases b; auto simp: agent_keys_def)+

lemma executeReboot_others:
  assumes "key \<notin> agent_keys" and "executeReboot (ag_rebootHandler a) s = (e, s')"
  shows "ann s' key = ann s key"
proof -
  let ?r = "ag_rebootHandler a"
  obtain m s0 where m: "Now (hd_host ?r) s = (m, s0)" by fastforce
  obtain e1 s1 where w1: "WriteLastRebootTime (hd_host ?r) (hd_hostRoot ?r) m s0 = (e1, s1)" by fastforce
  obtain e2 s2 where w2: "SetState (hd_writer ?r) ''rebooting'' s1 = (e2, s2)" by fastforce
  obtain e3 s3 where w3: "ClearForceReboot (hd_writer ?r) s2 = (e3, s3)" by fastforce
  obtain e4 s4 where w4: "SetRebootPending (hd_writer ?r) False s3 = (e4, s4)" by fastforce
  have "hd_executor ?r s4 = (e, s')"
    using assms(2) m w1 w2 w3 w4 by (simp add: executeReboot_def)
  then have "ann s' = ann s4" using executor_counts by blast
  moreover have "ann s1 = ann s"
    using host_keepsD(15) [OF host_ann m] state_keeps(2) [OF host_ann, of "hd_hostRoot ?r" m s0] w1 by simp
  ultimately show ?thesis
    using write_others(1) [OF assms(1) w2] write_others(4) [OF assms(1) w3] write_others(3) [OF assms(1) w4] by simp
qed

lemma HandleReboot_others:
  assumes k: "key \<notin> agent_keys" and "HandleReboot (ag_rebootHandler a) rmc node s = (e, s')"
  shows "ann s' key = ann s key"
proof -
  have p: "setPending (ag_rebootHandler a) t = (x, t') \<Longrightarrow> ann t' key = ann t key" for t x t'
    using setPending_effect k by (auto simp: agent_keys_def)
  note x = executeReboot_others [OF k]
  note now = host_keepsD(15) [OF host_ann] and rd = state_keeps(1) [OF host_ann]
  have i: "handleIfRequired (ag_rebootHandler a) n t = (y, t') \<Longrightarrow> ann t' key = ann t key" for n t y t'
    by (auto simp: handleIfRequired_def Let_def split: prod.splits sum.splits if_splits dest!: x p now rd)
  show ?thesis
    using assms(2) by (auto simp: HandleReboot_def Let_def split: if_splits dest!: x p i)
qed

lemma report_done_others:
  assumes "key \<notin> agent_keys" and "only_progress a b" and "report_done n (b, s) = (e, (b', s'))"
  shows "ann s' key = ann s key"
  using report_done_effect(1) [OF assms(2,3)] assms(1) by (auto simp: agent_keys_def)

lemma settle_reboot_others:
  assumes k: "key \<notin> agent_keys" and "settle_reboot rmc node (a, s) = (e, (a', s'))"
  shows "ann s' key = ann s key"
proof -
  obtain d b s1 where d: "DetermineReboot FetchRMC (GetAnnotation (node_Annotations node) CurrentRevision) rmc (a, s) = (d, (b, s1))"
    by (metis prod_cases3)
  note fr = DetermineReboot_frame [OF d] and prog = DetermineReboot_progress [OF d]
  have h: "ag_rebootHandler b = ag_rebootHandler a" "ag_writer b = hd_writer (ag_rebootHandler a)"
    using only_progressD [OF prog] writer_shared by simp_all
  obtain e2 s2 where r: "HandleReboot (ag_rebootHandler a) (with_required rmc (dec_Required d)) node s1 = (e2, s2)" by fastforce
  have s2: "ann s2 key = ann s key" using HandleReboot_others [OF k r] fr by simp
  show ?thesis
  proof (cases e2)
    case (Some err)
    obtain e3 s3 where x: "SetStateWithError (hd_writer (ag_rebootHandler a)) StateError
        (''reboot handling: '' @ error_text err) s2 = (e3, s3)" by fastforce
    have "s' = s3" using assms(2) d r h Some x by (simp add: settle_reboot_def Let_def)
    then show ?thesis using write_others(5) [OF k x] s2 by simp
  next
    case None
    then show ?thesis
      using assms(2) d r h s2 report_done_others [OF k prog, of "rmc_Name rmc" s2 e a' s']
      by (auto simp: settle_reboot_def Let_def split: if_splits)
  qed
qed

lemma applyConfig_others:
  assumes k: "key \<notin> agent_keys" and "applyConfig ctx rmc node (a, s) = (e, (a', s'))"
  shows "ann s' key = ann s key"
proof -
  let ?w = "hd_writer (ag_rebootHandler a)"
  obtain e1 s1 where p1: "SetState ?w StateApplying s = (e1, s1)" by fastforce
  obtain e2 s2 where p2: "ClearLastError ?w s1 = (e2, s2)" by fastforce
  obtain r s3 where ap: "ApplySpec ctx (ag_applier a) (rmc_Spec rmc) s2 = (r, s3)" by fastforce
  have s1: "ann s1 key = ann s key" by (rule write_others(1) [OF k p1])
  have s3: "ann s3 key = ann s key"
    using s1 write_others(2) [OF k p2] apply_frame [OF ap] by simp
  have x: "ann s4 key = ann s3 key" if "SetStateWithError ?w StateError m s3 = (e4, s4)" for m e4 s4
    by (rule write_others(5) [OF k that])
  note rest = report_done_others [OF k only_progress_refl, of "rmc_Name rmc" s3] settle_reboot_others [OF k, of rmc node s3]
  show ?thesis
  proof (cases "e1 = None \<and> ar_Error r = None")
    case True
    then show ?thesis
      using assms(2) p1 p2 ap s3 rest by (auto simp: applyConfig_def writer_shared Let_def split: if_splits)
  next
    case False
    have "s' = s1 \<or> (\<exists>m. s' = snd (SetStateWithError ?w StateError m s3))"
      using assms(2) p1 p2 ap False by (auto simp: applyConfig_def writer_shared Let_def split: option.splits)
    then show ?thesis using s1 s3 x by (metis prod.collapse)
  qed
qed

lemma handleNodeUpdate_others:
  assumes k: "key \<notin> agent_keys" and "handleNodeUpdate lib ctx node (a, s) = (e, (a', s'))"
  shows "ann s' key = ann s key"
proof -
  let ?d = "GetAnnotation (node_Annotations node) DesiredRevision"
  obtain x s1 where f: "fetchRMCWithRetry lib ctx a ?d s = (x, s1)" by fastforce
  note fr = fetch_frame(1) [OF f]
  have "s' = s \<or> s' = s1 \<or> (\<exists>rmc. s' = snd (HandleReboot (ag_rebootHandler a) rmc node s1))
      \<or> (\<exists>m. s' = snd (SetStateWithError (hd_writer (ag_rebootHandler a)) StateError m s1))
      \<or> (\<exists>rmc. applyConfig ctx rmc node (a, s1) = (e, (a', s')))"
    using assms(2) f by (auto simp: handleNodeUpdate_def writer_shared Let_def split: if_splits sum.splits)
  then show ?thesis
    using fr HandleReboot_others [OF k] write_others(5) [OF k] applyConfig_others [OF k] by (metis prod.collapse)
qed

end

section \<open>Acts of an agent\<close>

context agent_world
begin

lemma startup_body_others:
  assumes k: "key \<notin> agent_keys" and "startup_body (ag_rebootHandler a) node s = (e, s')"
  shows "ann s' key = ann s key"
proof -
  let ?r = "ag_rebootHandler a" and ?d = "GetAnnotation (node_Annotations node) DesiredRevision"
  obtain x s1 where x: "ReadLastRebootTime (hd_host ?r) (hd_hostRoot ?r) s = (x, s1)" by fastforce
  obtain b s2 where b: "BootMarkerExists (hd_host ?r) (hd_hostRoot ?r) s1 = (b, s2)" by fastforce
  obtain e3 s3 where p: "SetRebootPending (hd_writer ?r) False s2 = (e3, s3)" by fastforce
  obtain e4 s4 where d: "SetDone (hd_writer ?r) ?d s3 = (e4, s4)" by fastforce
  have "ann s1 = ann s" "ann s2 = ann s"
    using state_keeps(1) [OF host_ann x] state_keeps(3) [OF host_ann b] by simp_all
  moreover have "s' = s \<or> s' = s1 \<or> s' = s2 \<or> s' = s3 \<or> s' = s4"
    using assms x b p d by (auto simp: startup_body_def Let_def split: if_splits sum.splits bool.splits option.splits)
  ultimately show ?thesis using write_others(3) [OF k p] write_others(6) [OF k d] by auto
qed

lemma Run_startup_others:
  assumes k: "key \<notin> agent_keys" and "Run_startup seen (a, s) = (a', s')"
  shows "ann s' key = ann s key"
proof -
  let ?r = "ag_rebootHandler a"
  obtain u x where u: "SetState (hd_writer ?r) StateIdle u = (x, s')"
    "u = s \<or> (\<exists>node. u = snd (CheckRebootPendingOnStartup ?r node s))"
    using assms(2) by (cases seen) (auto simp: Run_startup_def writer_shared Let_def prod_eq_iff)
  have "ann (snd (CheckRebootPendingOnStartup ?r node s)) key = ann s key" for node
  proof -
    obtain e s1 where b: "startup_body ?r node s = (e, s1)" by fastforce
    then show ?thesis
      using startup_body_others [OF k b] state_keeps(4) [OF host_ann, of "hd_hostRoot ?r" s1]
      by (simp add: CheckRebootPendingOnStartup_def)
  qed
  then show ?thesis using u(2) write_others(1) [OF k u(1)] by auto
qed

lemma agent_act_report:
  assumes "agent_act lib ctx seen (a, s) (a', s')"
  shows "key \<notin> agent_keys \<Longrightarrow> ann s' key = ann s key"
    "ann s' CurrentRevision = ann s CurrentRevision
     \<or> (\<exists>node. seen = Inr node \<and> ann s' CurrentRevision = Some (GetAnnotation (node_Annotations node) DesiredRevision))"
proof -
  show "ann s' key = ann s key" if "key \<notin> agent_keys"
    using assms by (rule agent_actE) (rule handleNodeUpdate_others [OF that] Run_startup_others [OF that], assumption)+
  show "ann s' CurrentRevision = ann s CurrentRevision
     \<or> (\<exists>node. seen = Inr node \<and> ann s' CurrentRevision = Some (GetAnnotation (node_Annotations node) DesiredRevision))"
    using assms
  proof (rule agent_actE)
    fix node e assume "seen = Inr node" "handleNodeUpdate lib ctx node (a, s) = (e, a', s')"
    then show ?thesis using handleNodeUpdate_current [of ctx node s e a' s'] by blast
  next
    assume "Run_startup seen (a, s) = (a', s')"
    then show ?thesis using Run_startup_current by blast
  qed
qed

end

text \<open>
  C17: The agent is the agent of the system. Whenever the agent handles an event or starts,
  whatever it saw of its node and also when polling for the node failed, it changes no
  annotation but the five it owns. If moreover the node it saw carries the desired revision that the
  server has, or an update is in flight on the server's node anyway, then what it does is a
  report as the system of controller and agents allows it: no update comes in flight by it.
\<close>

theorem agent_acts_are_reports:
  assumes "agent_world a files temps ann reboots lib fa c"
    and "agent_act lib ctx seen (a, s) (a', s')"
    and "node_Annotations old = ann s" and "new = old\<lparr>node_Annotations := ann s'\<rparr>"
  shows "(\<forall>key. key \<notin> agent_keys \<longrightarrow> ann s' key = ann s key) \<and>
    ((\<forall>node. seen = Inr node \<longrightarrow> desired_of node = desired_of old \<or> in_flight old) \<longrightarrow> agent_report old new)"
proof (intro conjI impI)
  note R = agent_world.agent_act_report [OF assms(1,2)]
  show others: "\<forall>key. key \<notin> agent_keys \<longrightarrow> ann s' key = ann s key" using R(1) by blast
  assume cur: "\<forall>node. seen = Inr node \<longrightarrow> desired_of node = desired_of old \<or> in_flight old"
  have "ann s' DesiredRevision = ann s DesiredRevision"
    by (rule R(1)) (simp add: agent_keys_def key_defs)
  then have desired: "desired_of new = desired_of old"
    by (simp add: assms(3,4) desired_of_def GetAnnotation_def map_get_def)
  have "in_flight old" if fl: "in_flight new"
    using R(2)
  proof (elim disjE exE conjE)
    assume "ann s' CurrentRevision = ann s CurrentRevision"
    then have "current_of new = current_of old"
      by (simp add: assms(3,4) current_of_def GetAnnotation_def map_get_def)
    then show ?thesis using fl desired by (simp add: in_flight_def)
  next
    fix node
    assume "seen = Inr node" and "ann s' CurrentRevision = Some (GetAnnotation (node_Annotations node) DesiredRevision)"
    then have "current_of new = desired_of node" "desired_of node = desired_of old \<or> in_flight old"
      using cur by (simp_all add: assms(4) current_of_def desired_of_def GetAnnotation_def map_get_def)
    then show ?thesis using fl desired by (auto simp: in_flight_def)
  qed
  then show "agent_report old new" using others by (simp add: agent_report_def assms(3,4))
qed

abbreviation ex_updating :: box where
  "ex_updating \<equiv> ex_node_box\<lparr>bx_ann := [CurrentRevision \<mapsto> ''w-1'', DesiredRevision \<mapsto> ''w-2'']\<rparr>"

lemma ex_updating_result:
  "handleNodeUpdate box_lib (\<lambda>s. None) ex_event (box_agent, ex_updating) =
     (None, box_agent, ex_node_box\<lparr>bx_ann := [AgentState \<mapsto> StateDone, CurrentRevision \<mapsto> ''w-2'', DesiredRevision \<mapsto> ''w-2'']\<rparr>)"
proof -
  have safe: "json_safe (\<lambda>r. True) ''w-2''" by (rule json_safe_ascii) simp
  have idle: "box_agent\<lparr>ag_pendingRebootRevision := []\<rparr> = box_agent" by (simp add: box_agent_def)
  have "applyConfig (\<lambda>s. None) ex_target ex_event (box_agent, ex_updating) =
      (None, box_agent, ex_node_box\<lparr>bx_ann := [AgentState \<mapsto> StateDone, CurrentRevision \<mapsto> ''w-2'', DesiredRevision \<mapsto> ''w-2'']\<rparr>)"
    by (simp add: applyConfig_def box_agent_parts mem_writes safe ex_target_applied report_done_def idle)
      (rule arg_cong [where f = "\<lambda>m. ex_node_box\<lparr>bx_ann := m\<rparr>"], simp add: fun_eq_iff key_defs)
  then show ?thesis
    by (simp add: handleNodeUpdate_def ex_event_parts ex_fetch Let_def)
qed

theorem agent_acts_are_reports_witness:
  "agent_report ex_event
     (ex_event\<lparr>node_Annotations := [AgentState \<mapsto> StateDone, CurrentRevision \<mapsto> ''w-2'', DesiredRevision \<mapsto> ''w-2'']\<rparr>)"
proof -
  let ?m = "[AgentState \<mapsto> StateDone, CurrentRevision \<mapsto> ''w-2'', DesiredRevision \<mapsto> ''w-2'']"
  have act: "agent_act box_lib (\<lambda>s. None) (Inr ex_event) (box_agent, ex_updating) (box_agent, ex_node_box\<lparr>bx_ann := ?m\<rparr>)"
    by (rule agent_act.event [OF ex_updating_result])
  show ?thesis
    using agent_acts_are_reports [OF box_world.agent_world_axioms act, where old = ex_event]
    by (simp add: ex_event_def)
qed

end
