(* ===== verification/Runtime_Client.thy ===== *)
theory Runtime_Client
  imports In_Memory_API
begin

text \<open>
  \<open>pkg/client\<close>: the client through which the agent reads rendered configurations. The interface
  \<open>MCOClient\<close> gives a getter, the interface \<open>RMCGetter\<close> is its one method, and \<open>RuntimeClient\<close>
  implements both over the client of controller-runtime.
\<close>

type_synonym 's RMCGetter = "string \<Rightarrow> 's \<Rightarrow> RenderedMachineConfig result \<times> 's"

record 's MCOClient =
  RenderedMachineConfigs :: "'s RMCGetter"

definition runtimeRMCGetter_Get :: "'s client \<Rightarrow> 's RMCGetter" where
  "runtimeRMCGetter_Get c name s =
     (case GetRMC c s name of
        (Inl err, s1) \<Rightarrow> (Inl err, s1)
      | (Inr rmc, s1) \<Rightarrow> (Inr rmc, s1))"

definition NewRuntimeClient :: "'s client \<Rightarrow> 's MCOClient" where
  "NewRuntimeClient c = \<lparr>RenderedMachineConfigs = runtimeRMCGetter_Get c\<rparr>"

text \<open>
  The client the agent makes with \<open>client.New\<close> has no cache: it reads the object that is stored,
  and reports \<open>NotFound\<close> only when there is none.
\<close>

locale direct_reads =
  fixes c :: "'s client" and rmcs :: "'s \<Rightarrow> string \<rightharpoonup> RenderedMachineConfig"
  assumes direct_read: "GetRMC c s n = (Inr r, s') \<Longrightarrow> rmcs s n = Some r \<and> rmc_Name r = n"
    and direct_absent: "GetRMC c s n = (Inl e, s') \<Longrightarrow> IsNotFound e \<Longrightarrow> rmcs s n = None"

text \<open>The agent's client is a window on the store: it reads the object of that name and changes none.\<close>

lemma RuntimeClient_Get:
  "RenderedMachineConfigs (NewRuntimeClient c) n s = GetRMC c s n"
  by (simp add: NewRuntimeClient_def runtimeRMCGetter_Get_def split: prod.split sum.split)

interpretation mem_direct: direct_reads mem_client mem_rmcs
  by unfold_locales (auto simp: mem_client_def mem_rmcs_name split: option.splits)

end
