(* ===== verification/Spec2Isabelle.thy ===== *)
theory Spec2Isabelle
  imports Renderer_Render Node_Update Pool_Status Debounce Cleanup Agent_Safety Pool_Controller_Claims Node_Annotator
    Node_Life_Cycle Agent_Reports Runtime_Client
begin

text \<open>
  A verification of the machine config operator, a Kubernetes operator in Go that keeps files
  and systemd units of the nodes of a cluster at a declared configuration. A controller merges
  the configurations of a pool of nodes into one rendered configuration and rolls it out node
  by node; an agent on every node applies what it is told to and reports.

  \<^bold>\<open>The program and its theories.\<close> Everything below is under \<open>src/\<close>. The definitions carry
  the names of the Go functions; a loop or a closure inside a function is a definition of its
  own beside it. A struct is a record, an error is a value (\<open>go_error\<close>, results are sums), a
  function with effects takes the state of its world as the last argument and returns it, and
  \<open>int\<close> arithmetic is written with its 64-bit wrap-around where it can be reached.

  \<^item> Language and libraries: \<open>Go_Prelude\<close>, \<open>Go_Strings\<close>, \<open>Go_Time\<close>, \<open>Go_JSON\<close>, \<open>Go_Quote\<close>,
    \<open>Go_SHA256\<close> are what the sources use of Go and its standard library, SHA-256 and the text
    of \<open>json.Marshal\<close> and of the verb \<open>%q\<close> included. \<open>Kube_Client\<close> and \<open>Cluster_API\<close> are the
    interface of the Kubernetes client with its laws, \<open>In_Memory_API\<close> a server that has them;
    \<open>Host_FS\<close> is the interface of the host's file system with a disk in memory.
  \<^item> Data: \<open>MCO_Types\<close> (\<open>api/v1alpha1\<close>) and \<open>Annotations\<close> (\<open>pkg/annotations\<close>), the contract
    between controller and agents.
  \<^item> Rendering (\<open>internal/renderer\<close>): \<open>Renderer_Validate\<close>, \<open>Renderer_Merge\<close>, \<open>Renderer_Hash\<close>,
    \<open>Renderer_Render\<close>.
  \<^item> Controller (\<open>internal/controller\<close>): \<open>Cordon\<close>, \<open>Rollout\<close>, \<open>Drain\<close>, \<open>Node_Update\<close>,
    \<open>Pool_Selection\<close> (\<open>selector.go\<close>, \<open>overlap.go\<close>), \<open>Pool_Status\<close>, \<open>Debounce\<close>, \<open>Cleanup\<close>,
    \<open>Events\<close>, \<open>Metrics\<close>, \<open>Node_Annotator\<close>, and \<open>Pool_Controller\<close> with the reconciler that calls
    them all.
  \<^item> Agent (\<open>internal/agent\<close>): \<open>Agent_Diff\<close> (\<open>diff.go\<close>, \<open>reboot_decision.go\<close>), \<open>RMC_Cache\<close>,
    \<open>Runtime_Client\<close> (\<open>pkg/client\<close>), \<open>Node_Writer\<close>, \<open>Agent_Files\<close>, \<open>Agent_Systemd\<close>,
    \<open>Agent_Apply\<close>, \<open>Reboot\<close>, and \<open>Agent\<close> with the path from an event of the watch to the report.

  \<^bold>\<open>How the parts interact.\<close> \<open>Reconcile\<close> reads the pool, the nodes and the configurations,
  merges and hashes them, waits out the debounce, stores the rendered configuration
  (\<open>ensureRMC\<close>) and takes each chosen node one step further (\<open>ProcessNodeUpdate\<close>: cordon, drain,
  desired revision, uncordon). The desired revision is an annotation of the node; the agent
  watches it (\<open>handleNodeUpdate\<close>), fetches and applies the rendered configuration, reboots when
  it has to, and answers with the annotations of the current revision and of its state. These
  decide when the controller uncordons the node and what the status of the pool says.

  \<^bold>\<open>Interfaces.\<close> What one part relies on is a locale, and each is interpreted on definitions of
  the development: \<open>node_api\<close>, \<open>fresh_node_api\<close>, \<open>pod_api\<close>, \<open>rmc_api\<close>, \<open>cluster_api\<close>, \<open>evict_api\<close>,
  \<open>live_api\<close>, \<open>annotator_api\<close>, \<open>direct_reads\<close>, \<open>node_patch_api\<close> (the API server, on the server in
  memory), \<open>host_fs\<close> and \<open>readable_fs\<close> (the host, on the disk in memory), \<open>systemd_history\<close> (a
  connection to systemd with the log of the questions and calls it was given),
  \<open>reboot_world\<close>, \<open>agent_world\<close> (what the agent runs on), \<open>pool_runtime\<close> and \<open>fresh_pool_runtime\<close>
  (what the reconciler runs on), \<open>prefix_code\<close> and \<open>object_code\<close> (encoders of JSON, on the ones of
  \<open>hash.go\<close>), \<open>keyed_diff\<close> (on the two comparisons of \<open>diff.go\<close>) and \<open>condition_writer\<close> (on the
  setters of \<open>status.go\<close>).

  \<^bold>\<open>What is shown.\<close>
  \<^item> Of a reconciliation (\<open>Pool_Controller_Safety\<close>, \<open>Pool_Controller_Store\<close>,
    \<open>Pool_Controller_Claims\<close>): which nodes it may change and under which conditions, that it
    stays within the budget of unavailable nodes, that the object of a revision is stored when
    the revision is given out and survives the cleanup, that stored objects stay well formed
    and that the agent's client then returns the merge of the pool's configurations (the last
    two below), and when a change that the debounce holds back is looked at again.
  \<^item> Of controller, agents and everybody else together (\<open>Rollout_System\<close>): an invariant of all
    interleavings, by rule induction over a step relation in which the handler acts on
    snapshots of any age and others change nodes and pods as they like. The relation records
    which nodes were disturbed (the handler saw a node as new, or saw a snapshot that shows a
    cordon that is gone or misses the update in flight, or others interfered) and on which
    workload showed up late; of all other nodes the invariant says that they are out of
    service while an update is in flight, and examples show that the exceptions are real.
    \<open>Agent_Reports\<close> shows of the code of the agent that it disturbs no node whose desired
    revision it saw. \<open>Node_Life_Cycle\<close> shows, of an API that answers, that the update of a node
    comes to its end, and what happens to a node that joins a rolled-out pool.
  \<^item> Of the agent (\<open>Agent_Safety\<close>): a revision is reported as current only after it was applied
    or a reboot was detected at start, and a failed update reports nothing.
  \<^item> Of each component, in its theory: what every operation does on every branch, and for the
    merge, the hash, the cache, the file applier and the node writers an abstract
    specification (a choice of maximal priority, injectivity of the text, a log, an atomic
    write, an atomic change of the server's object) that the code refines.

  \<^bold>\<open>Hypotheses.\<close> Library code is a parameter. \<open>RetryOnConflict\<close> runs its function one or more
  times and again only after a conflict; the API server's writes change one object or none, and
  an error means that nothing was changed. The client of the controller reads from a cache: the
  nodes it reads may be stale, and \<open>pods\<close> is the state of the pods as the controller lists
  them, which may be behind the server. Reads of rendered configurations that are not older
  than the last write (\<open>fresh_pool_runtime\<close>), which the cache does not promise, are assumed by
  the properties about what is stored and by no other; the client of the agent has no cache
  (\<open>direct_reads\<close>). \<open>live_api\<close>, for the liveness of an update, asks for reads of nodes that are
  current and calls that do not fail. Of the host, a call that fails leaves the regular files
  as they were, and a mode that is set keeps its permission bits only, as \<open>os.File.Chmod\<close>
  does with a mode made from an integer. The clock is a function of the state.

  \<^bold>\<open>Bounds.\<close> No model runs on fuel that could run out: the suffix search of \<open>ensureRMC\<close> counts
  to ten as the code does and has a termination proof; the retries of the server in memory
  (four tries) and the polls of the agent's examples occur in witnesses only.

  \<^bold>\<open>Not modelled.\<close> The two \<open>main\<close> functions under \<open>cmd/\<close> (flags, TLS options, wiring);
  scheme registration and generated deep copies, which are the identity on values;
  \<open>systemd_stub.go\<close>, the stub for other systems than Linux; \<open>NewDBusConnection\<close>, which dials the
  bus; \<open>GetSystemBootTime\<close>, which has no caller and computes with floating point; the
  registration of watches and metrics; logging; test support. The watch stream of the agent is
  an argument.
\<close>

section \<open>Properties that span components\<close>

lemma rendering_wellformed:
  assumes "rendering r"
  shows "rmc_distinct r"
    "sorted_wrt (<) (map file_Path (rc_Files (rmcs_Config (rmc_Spec r))))"
    "sorted_wrt (<) (map unit_Name (systemd_Units (rc_Systemd (rmcs_Config (rmc_Spec r)))))"
    "length (rmcs_ConfigHash (rmc_Spec r)) = 64"
    "set (rmcs_ConfigHash (rmc_Spec r)) \<subseteq> set ''0123456789abcdef''"
    "rmcs_Revision (rmc_Spec r) = take 10 (rmcs_ConfigHash (rmc_Spec r))"
proof -
  obtain poolName cs p where r: "rmc_Spec r =
      (rmc_Spec (BuildRMC poolName (Merge cs) p))\<lparr>rmcs_Reboot := rmcs_Reboot (rmc_Spec r)\<rparr>"
    using assms unfolding rendering_def by blast
  let ?b = "rmc_Spec (BuildRMC poolName (Merge cs) p)"
  have c: "rmcs_Config (rmc_Spec r) = rmcs_Config ?b" "rmcs_ConfigHash (rmc_Spec r) = rmcs_ConfigHash ?b"
    "rmcs_Revision (rmc_Spec r) = rmcs_Revision ?b"
    by (subst r, simp)+
  show f: "sorted_wrt (<) (map file_Path (rc_Files (rmcs_Config (rmc_Spec r))))"
    using Merge_files_sorted [of cs] by (simp add: c sorted_wrt_map)
  show u: "sorted_wrt (<) (map unit_Name (systemd_Units (rc_Systemd (rmcs_Config (rmc_Spec r)))))"
    using Merge_units_sorted [of cs] by (simp add: c sorted_wrt_map)
  show "rmc_distinct r" using f u unfolding rmc_distinct_def by (simp add: strict_sorted_iff)
  have h: "rmcs_ConfigHash (rmc_Spec r) = EncodeToString (Sum256 (projr (ToCanonicalJSON (Some (Merge cs)))))"
    unfolding c(2) BuildRMC_simps config_hash ..
  show "length (rmcs_ConfigHash (rmc_Spec r)) = 64" unfolding h by (simp only: length_EncodeToString length_Sum256)
  show "set (rmcs_ConfigHash (rmc_Spec r)) \<subseteq> set ''0123456789abcdef''"
    unfolding h by (rule EncodeToString_hex [OF Sum256_bytes])
  have "rmcs_Revision ?b = hash_Short (ComputeHash (Some (Merge cs)))" by (simp add: BuildRMC_def Let_def)
  also have "\<dots> = take 10 (rmcs_ConfigHash (rmc_Spec r))"
    unfolding h by (simp add: ComputeHash_def ToCanonicalJSON_def Marshal_def Let_def)
  finally show "rmcs_Revision (rmc_Spec r) = take 10 (rmcs_ConfigHash (rmc_Spec r))" unfolding c(3) .
qed


lemma ex_store_ok: "store_ok (mem_rmcs (snd (ex_reconciler, ex_start)))"
  by (simp add: store_ok_def mem_rmcs_def ex_world_def ex_cluster_def)




end
